(* ===== verification/GoLib.thy ===== *)
theory GoLib
  imports Main "HOL-Library.Sublist"
begin

text \<open>
  The part of the Go language and of its standard library that the gateway's code uses, over
  byte strings (\<open>string\<close>, one \<open>char\<close> per byte, as a Go string is a byte sequence): package
  \<^verbatim>\<open>strings\<close> (Contains, HasPrefix, Cut, Split, SplitN, Join, TrimSpace, ToLower, ToUpper,
  EqualFold, Fields, FieldsFunc), package \<^verbatim>\<open>strconv\<close> (Atoi, ParseInt, ParseUint, Itoa) and the
  wrap-around of \<^verbatim>\<open>int64\<close>.  The lemmas are the facts on these that the components share.

  Case mapping is exact on ASCII and on the runes outside ASCII whose case mapping or case
  folding is an ASCII letter (U+212A, U+0130, U+017F, U+0131); every other rune outside ASCII is
  left as it is, which no comparison with an ASCII literal can tell from the real mapping.
\<close>


section \<open>Integers of 64 bits\<close>

definition wrap64 :: "int \<Rightarrow> int" where
  "wrap64 x = (x + 2 ^ 63) mod 2 ^ 64 - 2 ^ 63"

definition int64_range :: "int \<Rightarrow> bool" where
  "int64_range x \<longleftrightarrow> - (2 ^ 63) \<le> x \<and> x < 2 ^ 63"

lemma wrap64_id [simp]: "int64_range x \<Longrightarrow> wrap64 x = x"
  by (simp add: wrap64_def int64_range_def)

lemma wrap64_range [simp]: "int64_range (wrap64 x)"
  by (simp add: wrap64_def int64_range_def)

lemma wrap64_add: "wrap64 (wrap64 x + y) = wrap64 (x + y)"
proof -
  have "((x + 2 ^ 63) mod 2 ^ 64 + y) mod 2 ^ 64 = (x + 2 ^ 63 + y) mod (2 ^ 64 :: int)"
    by (rule mod_add_left_eq)
  then show ?thesis by (simp add: wrap64_def algebra_simps)
qed

lemma int64_range_0 [simp]: "int64_range 0"
  by (simp add: int64_range_def)

section \<open>Package strings\<close>

definition HasPrefix :: "string \<Rightarrow> string \<Rightarrow> bool" where
  "HasPrefix s p = prefix p s"

definition HasSuffix :: "string \<Rightarrow> string \<Rightarrow> bool" where
  "HasSuffix s p = prefix (rev p) (rev s)"

definition TrimPrefix :: "string \<Rightarrow> string \<Rightarrow> string" where
  "TrimPrefix s p = (if HasPrefix s p then drop (length p) s else s)"

fun Contains :: "string \<Rightarrow> string \<Rightarrow> bool" where
  "Contains [] sub = (sub = [])"
| "Contains (c # s) sub = (prefix sub (c # s) \<or> Contains s sub)"

text \<open>The text before and after the first separator, if there is one.\<close>

fun cut_at :: "string \<Rightarrow> string \<Rightarrow> (string \<times> string) option" where
  "cut_at [] sep = (if sep = [] then Some ([], []) else None)"
| "cut_at (c # s) sep =
     (if prefix sep (c # s) then Some ([], drop (length sep) (c # s))
      else map_option (\<lambda>(b, a). (c # b, a)) (cut_at s sep))"

definition Cut :: "string \<Rightarrow> string \<Rightarrow> string \<times> string \<times> bool" where
  "Cut s sep = (case cut_at s sep of Some (b, a) \<Rightarrow> (b, a, True) | None \<Rightarrow> (s, [], False))"

definition SplitN2 :: "string \<Rightarrow> string \<Rightarrow> string list" where
  "SplitN2 s sep = (case cut_at s sep of Some (b, a) \<Rightarrow> [b, a] | None \<Rightarrow> [s])"

lemma cut_at_SomeD:
  "cut_at s sep = Some (b, a) \<Longrightarrow> s = b @ sep @ a"
  by (induction s sep arbitrary: b rule: cut_at.induct)
    (auto simp: prefix_def split: if_splits)

lemma cut_at_length:
  "cut_at s sep = Some (b, a) \<Longrightarrow> sep \<noteq> [] \<Longrightarrow> length a < length s"
  by (drule cut_at_SomeD) (cases sep; simp)

text \<open>Every separator of the code is a non-empty literal; an empty one splits into bytes.\<close>

function Split :: "string \<Rightarrow> string \<Rightarrow> string list" where
  "Split s sep =
     (if sep = [] then map (\<lambda>c. [c]) s
      else case cut_at s sep of None \<Rightarrow> [s] | Some (b, a) \<Rightarrow> b # Split a sep)"
  by pat_completeness auto
termination
  by (relation "measure (\<lambda>(s, sep). length s)") (auto dest: cut_at_length)

declare Split.simps [simp del]

fun Join :: "string list \<Rightarrow> string \<Rightarrow> string" where
  "Join [] sep = []"
| "Join [x] sep = x"
| "Join (x # y # xs) sep = x @ sep @ Join (y # xs) sep"


text \<open>
  White space of \<^verbatim>\<open>unicode.IsSpace\<close>, as the UTF-8 encodings of its runes.  Trimming at the right
  end compares with the reversed encodings: a string that ends in the bytes of such an encoding
  has that rune as its last one.
\<close>

definition space_runes :: "string list" where
  "space_runes =
    [[CHR 0x20], [CHR 0x0A], [CHR 0x0D], [CHR 0x09], [CHR 0x0B], [CHR 0x0C],
     [CHR 0xC2, CHR 0x85], [CHR 0xC2, CHR 0xA0], [CHR 0xE1, CHR 0x9A, CHR 0x80],
     [CHR 0xE2, CHR 0x80, CHR 0x80], [CHR 0xE2, CHR 0x80, CHR 0x81], [CHR 0xE2, CHR 0x80, CHR 0x82],
     [CHR 0xE2, CHR 0x80, CHR 0x83], [CHR 0xE2, CHR 0x80, CHR 0x84], [CHR 0xE2, CHR 0x80, CHR 0x85],
     [CHR 0xE2, CHR 0x80, CHR 0x86], [CHR 0xE2, CHR 0x80, CHR 0x87], [CHR 0xE2, CHR 0x80, CHR 0x88],
     [CHR 0xE2, CHR 0x80, CHR 0x89], [CHR 0xE2, CHR 0x80, CHR 0x8A], [CHR 0xE2, CHR 0x80, CHR 0xA8],
     [CHR 0xE2, CHR 0x80, CHR 0xA9], [CHR 0xE2, CHR 0x80, CHR 0xAF], [CHR 0xE2, CHR 0x81, CHR 0x9F],
     [CHR 0xE3, CHR 0x80, CHR 0x80]]"

text \<open>Drop, from the left, as many of the given strings as there are.\<close>

definition strip1 :: "string list \<Rightarrow> string \<Rightarrow> string option" where
  "strip1 es s =
     map_option (\<lambda>e. drop (length e) s) (find (\<lambda>e. e \<noteq> [] \<and> prefix e s) es)"

lemma strip1_length: "strip1 es s = Some t \<Longrightarrow> length t < length s"
  by (fastforce simp: strip1_def find_Some_iff prefix_def)

function strip :: "string list \<Rightarrow> string \<Rightarrow> string" where
  "strip es s = (case strip1 es s of None \<Rightarrow> s | Some t \<Rightarrow> strip es t)"
  by pat_completeness auto
termination
  by (relation "measure (\<lambda>(es, s). length s)") (auto dest: strip1_length)

declare strip.simps [simp del]

definition TrimLeft :: "string \<Rightarrow> string" where
  "TrimLeft s = strip space_runes s"

definition TrimRight :: "string \<Rightarrow> string" where
  "TrimRight s = rev (strip (map rev space_runes) (rev s))"

definition TrimSpace :: "string \<Rightarrow> string" where
  "TrimSpace s = TrimRight (TrimLeft s)"

subsection \<open>Case mapping\<close>

definition byte_of :: "char \<Rightarrow> nat" where
  "byte_of c = of_char c"

definition lower_char :: "char \<Rightarrow> char" where
  "lower_char c = (if 65 \<le> byte_of c \<and> byte_of c \<le> 90 then char_of (byte_of c + 32) else c)"

definition upper_char :: "char \<Rightarrow> char" where
  "upper_char c = (if 97 \<le> byte_of c \<and> byte_of c \<le> 122 then char_of (byte_of c - 32) else c)"

text \<open>
  A case mapping: a list of multi-byte runes with an ASCII image (the letter they are mapped to)
  and the mapping of the single bytes.
\<close>

function map_case :: "(string \<times> char) list \<Rightarrow> (char \<Rightarrow> char) \<Rightarrow> string \<Rightarrow> string" where
  "map_case special f [] = []"
| "map_case special f (c # s) =
     (case find (\<lambda>(r, _). r \<noteq> [] \<and> prefix r (c # s)) special of
        Some (r, l) \<Rightarrow> l # map_case special f (drop (length r) (c # s))
      | None \<Rightarrow> f c # map_case special f s)"
  by pat_completeness auto
termination
  by (relation "measure (\<lambda>(special, f, s). length s)") (auto simp: find_Some_iff)

definition ToLower :: "string \<Rightarrow> string" where
  "ToLower s = map_case [([CHR 0xE2, CHR 0x84, CHR 0xAA], CHR ''k''), ([CHR 0xC4, CHR 0xB0], CHR ''i'')]
     lower_char s"

definition ToUpper :: "string \<Rightarrow> string" where
  "ToUpper s = map_case [([CHR 0xC5, CHR 0xBF], CHR ''S''), ([CHR 0xC4, CHR 0xB1], CHR ''I'')]
     upper_char s"

definition fold_case :: "string \<Rightarrow> string" where
  "fold_case s = map_case [([CHR 0xE2, CHR 0x84, CHR 0xAA], CHR ''k''), ([CHR 0xC5, CHR 0xBF], CHR ''s'')]
     lower_char s"

definition EqualFold :: "string \<Rightarrow> string \<Rightarrow> bool" where
  "EqualFold s t \<longleftrightarrow> fold_case s = fold_case t"

text \<open>Valid UTF-8 (\<^verbatim>\<open>utf8.ValidString\<close>), as the table of well-formed byte sequences.\<close>

abbreviation byte_in :: "nat \<Rightarrow> char \<Rightarrow> nat \<Rightarrow> bool" where
  "byte_in lo c hi \<equiv> lo \<le> byte_of c \<and> byte_of c \<le> hi"

fun utf8_valid :: "string \<Rightarrow> bool" where
  "utf8_valid [] = True"
| "utf8_valid (a # s) =
     (if byte_of a < 0x80 then utf8_valid s
      else if byte_in 0xC2 a 0xDF then
        (case s of b # t \<Rightarrow> byte_in 0x80 b 0xBF \<and> utf8_valid t | _ \<Rightarrow> False)
      else if byte_in 0xE0 a 0xEF then
        (case s of b # c # t \<Rightarrow>
             byte_in (if byte_of a = 0xE0 then 0xA0 else 0x80) b (if byte_of a = 0xED then 0x9F else 0xBF)
             \<and> byte_in 0x80 c 0xBF \<and> utf8_valid t
         | _ \<Rightarrow> False)
      else if byte_in 0xF0 a 0xF4 then
        (case s of b # c # d # t \<Rightarrow>
             byte_in (if byte_of a = 0xF0 then 0x90 else 0x80) b (if byte_of a = 0xF4 then 0x8F else 0xBF)
             \<and> byte_in 0x80 c 0xBF \<and> byte_in 0x80 d 0xBF \<and> utf8_valid t
         | _ \<Rightarrow> False)
      else False)"

subsection \<open>Fields\<close>

text \<open>\<^verbatim>\<open>strings.FieldsFunc\<close> for a predicate on single bytes: the maximal runs that avoid it.\<close>

fun split_bytes :: "(char \<Rightarrow> bool) \<Rightarrow> string \<Rightarrow> string list" where
  "split_bytes p [] = [[]]"
| "split_bytes p (c # s) =
     (if p c then [] # split_bytes p s
      else case split_bytes p s of [] \<Rightarrow> [[c]] | w # ws \<Rightarrow> (c # w) # ws)"

definition FieldsFunc :: "(char \<Rightarrow> bool) \<Rightarrow> string \<Rightarrow> string list" where
  "FieldsFunc p s = filter (\<lambda>w. w \<noteq> []) (split_bytes p s)"

text \<open>\<^verbatim>\<open>strings.Fields\<close>: the words between runs of white space.\<close>

fun take_word :: "string \<Rightarrow> string \<times> string" where
  "take_word [] = ([], [])"
| "take_word (c # s) =
     (if strip1 space_runes (c # s) \<noteq> None then ([], c # s)
      else case take_word s of (w, r) \<Rightarrow> (c # w, r))"

lemma take_word_length: "take_word s = (w, r) \<Longrightarrow> length r \<le> length s"
  by (induction s arbitrary: w r) (force split: if_splits prod.splits)+

lemma strip_length: "length (strip es s) \<le> length s"
proof (induction es s rule: strip.induct)
  case (1 es s)
  then show ?case
    by (subst strip.simps) (force split: option.splits dest: strip1_length)
qed

lemma strip1_strip [simp]: "strip1 es (strip es s) = None"
proof (induction es s rule: strip.induct)
  case (1 es s)
  show ?case
  proof (cases "strip1 es s")
    case None
    then show ?thesis by (subst strip.simps) simp
  next
    case (Some t)
    with 1 show ?thesis by (subst strip.simps) simp
  qed
qed

lemma take_word_shrinks:
  assumes "TrimLeft s = c # t"
  shows "length (snd (take_word (c # t))) < length s"
proof -
  have none: "strip1 space_runes (c # t) = None"
    using strip1_strip [of space_runes s] assms unfolding TrimLeft_def by metis
  have "length (c # t) \<le> length s"
    using strip_length [of space_runes s] assms by (simp add: TrimLeft_def)
  moreover have "length (snd (take_word t)) \<le> length t"
    by (cases "take_word t") (simp add: take_word_length)
  ultimately show ?thesis using none by (auto split: prod.splits)
qed

function Fields :: "string \<Rightarrow> string list" where
  "Fields s =
     (case TrimLeft s of [] \<Rightarrow> []
      | c # t \<Rightarrow> (case take_word (c # t) of (w, r) \<Rightarrow> w # Fields r))"
  by pat_completeness auto
termination
proof (relation "measure length")
  fix s c t w r
  assume "TrimLeft s = c # t" and "(w, r) = take_word (c # t)"
  then show "(r, s) \<in> measure length"
    using take_word_shrinks [of s c t] by (metis in_measure snd_conv)
qed simp

declare Fields.simps [simp del]


section \<open>Package strconv\<close>

definition digit_char :: "nat \<Rightarrow> char" where
  "digit_char d = char_of (48 + d)"

definition digit_val :: "char \<Rightarrow> nat option" where
  "digit_val c = (if 48 \<le> byte_of c \<and> byte_of c \<le> 57 then Some (byte_of c - 48) else None)"

fun show_nat :: "nat \<Rightarrow> string" where
  "show_nat n = (if n < 10 then [digit_char n] else show_nat (n div 10) @ [digit_char (n mod 10)])"

declare show_nat.simps [simp del]

definition Itoa :: "int \<Rightarrow> string" where
  "Itoa i = (if i < 0 then CHR ''-'' # show_nat (nat (- i)) else show_nat (nat i))"

fun parse_digits :: "nat \<Rightarrow> string \<Rightarrow> nat option" where
  "parse_digits acc [] = Some acc"
| "parse_digits acc (c # s) =
     (case digit_val c of None \<Rightarrow> None | Some d \<Rightarrow> parse_digits (10 * acc + d) s)"

definition parse_nat :: "string \<Rightarrow> nat option" where
  "parse_nat s = (if s = [] then None else parse_digits 0 s)"

text \<open>\<^verbatim>\<open>strconv.ParseUint(s, 10, 64)\<close> and \<^verbatim>\<open>strconv.ParseInt(s, 10, 64)\<close>; \<open>None\<close> is an error.\<close>

definition ParseUint :: "string \<Rightarrow> nat option" where
  "ParseUint s = (case parse_nat s of None \<Rightarrow> None | Some n \<Rightarrow> if n < 2 ^ 64 then Some n else None)"

definition ParseInt :: "string \<Rightarrow> int option" where
  "ParseInt s =
     (case s of
        [] \<Rightarrow> None
      | c # t \<Rightarrow>
          (let neg = (c = CHR ''-''); body = (if c = CHR ''-'' \<or> c = CHR ''+'' then t else s)
           in case parse_nat body of
                None \<Rightarrow> None
              | Some n \<Rightarrow>
                  (let i = (if neg then - int n else int n)
                   in if int64_range i then Some i else None)))"

text \<open>\<^verbatim>\<open>strconv.Atoi\<close> is \<^verbatim>\<open>ParseInt(s, 10, 0)\<close>, of 64 bits on the platforms the gateway runs on.\<close>

definition Atoi :: "string \<Rightarrow> int option" where
  "Atoi s = ParseInt s"

subsection \<open>Digits\<close>

lemma byte_of_char_of: "n < 256 \<Longrightarrow> byte_of (char_of n) = n"
  by (simp add: byte_of_def)

lemma digit_val_digit_char [simp]: "d < 10 \<Longrightarrow> digit_val (digit_char d) = Some d"
  by (simp add: digit_val_def digit_char_def byte_of_char_of)

lemma parse_digits_append:
  "parse_digits acc (s @ t) = Option.bind (parse_digits acc s) (\<lambda>a. parse_digits a t)"
  by (induction acc s rule: parse_digits.induct) (auto split: option.splits)

lemma parse_digits_show_nat: "parse_digits 0 (show_nat n) = Some n"
proof (induction n rule: show_nat.induct)
  case (1 n)
  show ?case
  proof (cases "n < 10")
    case True
    then show ?thesis by (subst show_nat.simps) simp
  next
    case False
    with 1 have "parse_digits 0 (show_nat (n div 10)) = Some (n div 10)" by simp
    with False show ?thesis by (subst show_nat.simps) (simp add: parse_digits_append)
  qed
qed

lemma show_nat_nonempty [simp]: "show_nat n \<noteq> []"
  by (subst show_nat.simps) simp

lemma parse_nat_show_nat [simp]: "parse_nat (show_nat n) = Some n"
  by (simp add: parse_nat_def parse_digits_show_nat)

lemma show_nat_inj [simp]: "show_nat m = show_nat n \<longleftrightarrow> m = n"
  by (metis option.inject parse_nat_show_nat)

definition is_digit :: "char \<Rightarrow> bool" where
  "is_digit c \<longleftrightarrow> 48 \<le> byte_of c \<and> byte_of c \<le> 57"

lemma is_digit_digit_char [simp]: "d < 10 \<Longrightarrow> is_digit (digit_char d)"
  by (simp add: is_digit_def digit_char_def byte_of_char_of)

lemma show_nat_digits: "c \<in> set (show_nat n) \<Longrightarrow> is_digit c"
proof (induction n rule: show_nat.induct)
  case (1 n)
  then show ?case by (cases "n < 10") (auto simp: show_nat.simps [of n])
qed

lemma show_nat_hd: "\<exists>c t. show_nat n = c # t \<and> is_digit c"
  using show_nat_digits [of _ n] by (cases "show_nat n") auto

lemma not_is_digit_sign [simp]: "\<not> is_digit (CHR ''-'')" "\<not> is_digit (CHR ''+'')" "\<not> is_digit (CHR '':'')"
  by (simp_all add: is_digit_def byte_of_def)

lemma ParseUint_show_nat [simp]: "n < 2 ^ 64 \<Longrightarrow> ParseUint (show_nat n) = Some n"
  by (simp add: ParseUint_def)

lemma ParseInt_Itoa [simp]: "int64_range i \<Longrightarrow> ParseInt (Itoa i) = Some i"
proof (cases "i < 0")
  case True
  assume "int64_range i"
  with True show ?thesis by (simp add: ParseInt_def Itoa_def)
next
  case False
  assume r: "int64_range i"
  obtain c t where ct: "show_nat (nat i) = c # t" "is_digit c"
    using show_nat_hd by blast
  then have "c \<noteq> CHR ''-''" "c \<noteq> CHR ''+''" by auto
  with False r ct show ?thesis
    using parse_nat_show_nat [of "nat i"] by (simp add: ParseInt_def Itoa_def)
qed

lemma Atoi_Itoa [simp]: "int64_range i \<Longrightarrow> Atoi (Itoa i) = Some i"
  by (simp add: Atoi_def)

lemma ParseInt_range: "ParseInt s = Some i \<Longrightarrow> int64_range i"
  by (auto simp: ParseInt_def Let_def split: list.splits option.splits if_splits)

lemma Itoa_nonneg: "0 \<le> i \<Longrightarrow> Itoa i = show_nat (nat i)"
  by (simp add: Itoa_def)


section \<open>Facts the components share\<close>

subsection \<open>Cutting and splitting at a separator\<close>

lemma cut_at_first:
  "c \<notin> set b \<Longrightarrow> cut_at (b @ (c # r) @ a) (c # r) = Some (b, a)"
  by (induction b) auto

lemma cut_at_absent: "c \<notin> set s \<Longrightarrow> cut_at s (c # r) = None"
  by (induction s) auto

lemma cut_at_prefix_free:
  "cut_at s [c] = Some (b, a) \<Longrightarrow> c \<notin> set b"
  by (induction s arbitrary: b) (auto split: if_splits)

lemma cut_at_None_single: "cut_at s [c] = None \<longleftrightarrow> c \<notin> set s"
  by (induction s) auto

lemma Split_absent: "c \<notin> set s \<Longrightarrow> Split s (c # r) = [s]"
  by (subst Split.simps) (simp add: cut_at_absent)

lemma Split_first:
  "c \<notin> set b \<Longrightarrow> Split (b @ (c # r) @ a) (c # r) = b # Split a (c # r)"
  using cut_at_first [of c b r a] by (subst Split.simps) simp

lemma Split_Join:
  "xs \<noteq> [] \<Longrightarrow> \<forall>x\<in>set xs. c \<notin> set x \<Longrightarrow> Split (Join xs (c # r)) (c # r) = xs"
proof (induction xs "c # r" rule: Join.induct)
  case (2 x)
  then show ?case by (simp add: Split_absent)
next
  case (3 x y xs)
  then show ?case using Split_first [of c x r "Join (y # xs) (c # r)"] by simp
qed simp

lemma Split_nonempty [simp]: "sep \<noteq> [] \<Longrightarrow> Split s sep \<noteq> []"
  by (subst Split.simps) (simp split: option.splits)

lemma Split_parts_avoid:
  "x \<in> set (Split s [c]) \<Longrightarrow> c \<notin> set x"
proof (induction s "[c]" rule: Split.induct)
  case (1 s)
  show ?case
  proof (cases "cut_at s [c]")
    case None
    with "1.prems" show ?thesis
      by (subst (asm) Split.simps) (auto simp: cut_at_None_single)
  next
    case (Some ba)
    obtain b a where ba: "ba = (b, a)" by (cases ba)
    with "1.prems" Some have "x = b \<or> x \<in> set (Split a [c])"
      by (subst (asm) Split.simps) auto
    with 1 Some ba show ?thesis by (auto dest: cut_at_prefix_free)
  qed
qed

lemma Join_Split: "sep \<noteq> [] \<Longrightarrow> Join (Split s sep) sep = s"
proof (induction s sep rule: Split.induct)
  case (1 s sep)
  show ?case
  proof (cases "cut_at s sep")
    case None
    with "1.prems" show ?thesis by (subst Split.simps) simp
  next
    case (Some ba)
    obtain b a where ba: "ba = (b, a)" by (cases ba)
    with 1 Some have ih: "Join (Split a sep) sep = a" by simp
    have s: "Split s sep = b # Split a sep"
      using "1.prems" Some ba by (subst Split.simps) simp
    obtain y ys where y: "Split a sep = y # ys"
      using "1.prems" by (cases "Split a sep") auto
    have "Join (Split s sep) sep = b @ sep @ a" using ih s y by simp
    moreover have "s = b @ sep @ a" using Some ba by (blast intro: cut_at_SomeD)
    ultimately show ?thesis by simp
  qed
qed

lemma Contains_append: "Contains (a @ sub @ b) sub"
proof (induction a)
  case Nil
  show ?case by (cases "sub @ b") (simp, metis Contains.simps(2) append_Nil prefixI)
qed simp

lemma Contains_absent: "c \<notin> set s \<Longrightarrow> \<not> Contains s (c # r)"
  by (induction s) auto

lemma HasPrefix_append [simp]: "HasPrefix (p @ s) p"
  by (simp add: HasPrefix_def)

lemma HasPrefix_iff: "HasPrefix s p \<longleftrightarrow> (\<exists>t. s = p @ t)"
  by (auto simp: HasPrefix_def prefix_def)

lemma TrimPrefix_append [simp]: "TrimPrefix (p @ s) p = s"
  by (simp add: TrimPrefix_def)

subsection \<open>Trimming\<close>

lemma strip1_prefix:
  assumes "strip1 es (s @ t) = None"
  shows "strip1 es s = None"
  using assms by (auto simp: strip1_def find_None_iff prefix_def)

lemma strip_fix: "strip1 es s = None \<Longrightarrow> strip es s = s"
  by (subst strip.simps) simp

lemma strip_suffix: "\<exists>p. s = p @ strip es s"
proof (induction es s rule: strip.induct)
  case (1 es s)
  show ?case
  proof (cases "strip1 es s")
    case None
    then show ?thesis by (simp add: strip_fix)
  next
    case (Some t)
    with 1 obtain p where p: "t = p @ strip es t" by blast
    from Some have "\<exists>q. s = q @ t" by (auto simp: strip1_def find_Some_iff prefix_def)
    with p Some show ?thesis by (subst strip.simps) (metis append.assoc option.simps(5))
  qed
qed

lemma TrimSpace_ends:
  "strip1 space_runes (TrimSpace s) = None"
  "strip1 (map rev space_runes) (rev (TrimSpace s)) = None"
proof -
  obtain p where "rev (TrimLeft s) = p @ strip (map rev space_runes) (rev (TrimLeft s))"
    using strip_suffix by blast
  then have "TrimLeft s = TrimSpace s @ rev p"
    by (metis TrimRight_def TrimSpace_def rev_append rev_rev_ident)
  moreover have "strip1 space_runes (TrimLeft s) = None" by (simp add: TrimLeft_def)
  ultimately show "strip1 space_runes (TrimSpace s) = None"
    by (metis strip1_prefix)
  show "strip1 (map rev space_runes) (rev (TrimSpace s)) = None"
    by (simp add: TrimSpace_def TrimRight_def)
qed

lemma TrimSpace_fix:
  "strip1 space_runes s = None \<Longrightarrow> strip1 (map rev space_runes) (rev s) = None \<Longrightarrow> TrimSpace s = s"
  by (simp add: TrimSpace_def TrimLeft_def TrimRight_def strip_fix)

lemma TrimSpace_idem [simp]: "TrimSpace (TrimSpace s) = TrimSpace s"
  by (rule TrimSpace_fix) (simp_all add: TrimSpace_ends)

lemma TrimSpace_Nil [simp]: "TrimSpace [] = []"
  by (rule TrimSpace_fix) (simp_all add: space_runes_def strip1_def)

text \<open>Strings of printable ASCII characters other than the blank: nothing to trim.\<close>

definition plain_char :: "char \<Rightarrow> bool" where
  "plain_char c \<longleftrightarrow> 33 \<le> byte_of c \<and> byte_of c \<le> 126"

definition plain :: "string \<Rightarrow> bool" where
  "plain s \<longleftrightarrow> list_all plain_char s"

lemma plain_simps [simp]:
  "plain []" "plain (c # s) \<longleftrightarrow> plain_char c \<and> plain s" "plain (s @ t) \<longleftrightarrow> plain s \<and> plain t"
  by (auto simp: plain_def)

lemma plain_Join: "plain sep \<Longrightarrow> \<forall>x\<in>set xs. plain x \<Longrightarrow> plain (Join xs sep)"
  by (induction xs sep rule: Join.induct) auto

lemma strip1_plain_head:
  "list_all (\<lambda>e. case e of [] \<Rightarrow> True | d # _ \<Rightarrow> \<not> plain_char d) es \<Longrightarrow> plain_char c \<Longrightarrow>
     strip1 es (c # s) = None"
  by (induction es) (auto simp: strip1_def split: list.splits)

lemma strip1_plain:
  assumes "plain_char c"
  shows "strip1 space_runes (c # s) = None" "strip1 (map rev space_runes) (c # s) = None"
  by (rule strip1_plain_head [OF _ assms];
      simp add: space_runes_def plain_char_def byte_of_def)+

lemma TrimSpace_plain [simp]: "plain s \<Longrightarrow> TrimSpace s = s"
proof (cases s)
  case (Cons c t)
  assume p: "plain s"
  then have "plain_char c" using Cons by simp
  moreover obtain d u where d: "rev s = d # u" using Cons by (cases "rev s") auto
  then have "plain_char d" using p by (metis list.set_intros(1) list_all_iff plain_def set_rev)
  ultimately show ?thesis
    using d Cons by (intro TrimSpace_fix) (simp_all add: strip1_plain)
qed simp

end
