(* ===== verification/Model.thy ===== *)
theory Model
  imports GoLib
begin

text \<open>
  The data of the gateway: the rows of package \<^verbatim>\<open>model\<close> (\<^verbatim>\<open>internal/model/models.go\<close>,
  \<^verbatim>\<open>admin.go\<close>) as records, one field per column, and the errors that the packages return as one
  datatype.  A \<^verbatim>\<open>uint\<close> id is a \<open>nat\<close>, an \<^verbatim>\<open>int\<close> or \<^verbatim>\<open>int64\<close> an \<open>int\<close>, a \<^verbatim>\<open>time.Time\<close> an \<open>int\<close>
  (nanoseconds), a nil-able pointer an \<open>option\<close>.  The columns CreatedAt and UpdatedAt, which GORM
  writes and no Go code of the backend reads, are left out.
\<close>

type_synonym time = int
type_synonym duration = int

definition AdminUIDPrefix :: string where
  "AdminUIDPrefix = ''__admin__:''"

record User =
  u_ID :: nat
  u_UID :: string
  u_PasswordHash :: string
  u_Enabled :: bool
  u_QuotaBytes :: int
  u_UsedBytes :: int
  u_TotalRequests :: int
  u_MaxConcurrency :: int
  u_ExpiredAt :: "time option"
  u_Remark :: string

record Subscription =
  s_ID :: nat
  s_Name :: string
  s_Type :: string
  s_URL :: string
  s_Enabled :: bool
  s_SyncIntervalSeconds :: int
  s_LastSyncAt :: "time option"
  s_Remark :: string

record ProxyNode =
  n_ID :: nat
  n_NodeKey :: string
  n_Protocol :: string
  n_Host :: string
  n_Port :: int
  n_UpstreamUsernameEnc :: string
  n_UpstreamPasswordEnc :: string
  n_TLSEnabled :: bool
  n_TLSSkipVerify :: bool
  n_ServerName :: string
  n_Tag :: string
  n_ExpectedRegion :: string
  n_DetectedRegion :: string
  n_City :: string
  n_Country :: string
  n_ASN :: string
  n_Org :: string
  n_ISP :: string
  n_ExitIP :: string
  n_LatencyMS :: int
  n_Healthy :: bool
  n_Disabled :: bool
  n_FailCount :: int
  n_LastCheckAt :: "time option"
  n_SubscriptionID :: nat
  n_RawJSON :: string
  n_UploadBytes :: int
  n_DownloadBytes :: int
  n_TotalRequests :: int

record SubscriptionNode =
  l_ID :: nat
  l_SubscriptionID :: nat
  l_NodeID :: nat
  l_RawTag :: string
  l_AliasTag :: string

record AuditLog =
  a_ID :: nat
  a_Operator :: string
  a_Action :: string
  a_TargetType :: string
  a_TargetID :: string
  a_Detail :: string

text \<open>
  A Go error value.  The sentinel errors that the code compares with \<^verbatim>\<open>==\<close> are constructors of
  their own; \<open>Errorf\<close> is an error made by \<^verbatim>\<open>errors.New\<close> or \<^verbatim>\<open>fmt.Errorf\<close>, \<open>ExtErr\<close> one that a
  library or a service returns, \<open>StopError\<close> the wrapper of package \<^verbatim>\<open>retry\<close>.
\<close>

datatype error =
    RedisNil
  | ErrRecordNotFound
  | ErrUserDisabled
  | ErrUserExpired
  | ErrQuotaExceeded
  | ErrConcurrencyExceeded
  | ErrNoHealthyNode
  | ContextCanceled
  | Errorf string
  | ExtErr string
  | StopError "error option"

text \<open>\<^verbatim>\<open>err.Error()\<close>.\<close>

fun error_text :: "error \<Rightarrow> string" where
  "error_text RedisNil = ''redis: nil''"
| "error_text ErrRecordNotFound = ''record not found''"
| "error_text ErrUserDisabled = ''user disabled''"
| "error_text ErrUserExpired = ''user expired''"
| "error_text ErrQuotaExceeded = ''quota exceeded''"
| "error_text ErrConcurrencyExceeded = ''concurrency exceeded''"
| "error_text ErrNoHealthyNode = ''no healthy node available''"
| "error_text ContextCanceled = ''context canceled''"
| "error_text (Errorf s) = s"
| "error_text (ExtErr s) = s"
| "error_text (StopError None) = ''retry stopped''"
| "error_text (StopError (Some e)) = error_text e"

text \<open>The zero values of Go, for records built field by field.\<close>

definition zero_node :: ProxyNode where
  "zero_node = \<lparr>n_ID = 0, n_NodeKey = [], n_Protocol = [], n_Host = [], n_Port = 0,
     n_UpstreamUsernameEnc = [], n_UpstreamPasswordEnc = [], n_TLSEnabled = False,
     n_TLSSkipVerify = False, n_ServerName = [], n_Tag = [], n_ExpectedRegion = [],
     n_DetectedRegion = [], n_City = [], n_Country = [], n_ASN = [], n_Org = [], n_ISP = [],
     n_ExitIP = [], n_LatencyMS = 0, n_Healthy = False, n_Disabled = False, n_FailCount = 0,
     n_LastCheckAt = None, n_SubscriptionID = 0, n_RawJSON = [], n_UploadBytes = 0,
     n_DownloadBytes = 0, n_TotalRequests = 0\<rparr>"

definition zero_user :: User where
  "zero_user = \<lparr>u_ID = 0, u_UID = [], u_PasswordHash = [], u_Enabled = False, u_QuotaBytes = 0,
     u_UsedBytes = 0, u_TotalRequests = 0, u_MaxConcurrency = 0, u_ExpiredAt = None,
     u_Remark = []\<rparr>"

end
