(* ===== verification/World.thy ===== *)
theory World
  imports Model "HOL-Library.State_Monad" "HOL-Library.Multiset"
begin

text \<open>
  The services the backend talks to, none of which is code of the repository: Redis (through
  go-redis), SQLite (through GORM), the clock and the random numbers.  They are the parameter
  \<open>W\<close> of type \<open>'s world\<close>: one action of the state monad per service, over a state \<open>'s\<close> the model
  knows nothing about.  The operations of the backend are programs of the same monad.

  What the code relies on is stated in the locales \<open>backend\<close> and \<open>reliable\<close>: through an
  observation \<open>view\<close> of the state (the Redis keyspace and the tables), each command has its
  documented effect and answer; in \<open>backend\<close> any command may fail, a failed SQL statement has no
  effect and a Redis command whose answer is lost may have taken effect; in \<open>reliable\<close> the
  commands are answered.  Time to live is carried with the keys; keys expire between the
  operations of the backend, not between two commands of one.  An in-memory instance \<open>mem_world\<close>
  interprets both.
\<close>

section \<open>Commands and answers\<close>

datatype wcmd =
    SET string string duration
  | INCRBY string int
  | DEL "string list"
  | SADD string string
  | SREM string string
  | ZINCRBY string int string

datatype rcmd =
    Do wcmd
  | TX "wcmd list"
  | GET string
  | KEYS string
  | SMEMBERS string
  | SINTER "string list"
  | ZREVRANGE string nat

datatype rreply =
    RStatus
  | RStr string
  | RInt int
  | RList "string list"
  | RScored "(string \<times> int) list"

datatype 'r sql =
    First "'r \<Rightarrow> bool"
  | Find "'r \<Rightarrow> bool"
  | Count "'r \<Rightarrow> bool"
  | Create 'r
  | Save 'r
  | Update "'r \<Rightarrow> bool" "'r \<Rightarrow> 'r"
  | Delete "'r \<Rightarrow> bool"
  | Upsert "'r \<Rightarrow> 'r \<Rightarrow> bool" "'r \<Rightarrow> 'r \<Rightarrow> 'r" 'r

datatype 'r sqlres = Row 'r | Rows "'r list" | Num nat

record 's world =
  redis_cl :: "rcmd \<Rightarrow> ('s, error + rreply) state"
  users_tbl :: "User sql \<Rightarrow> ('s, error + User sqlres) state"
  nodes_tbl :: "ProxyNode sql \<Rightarrow> ('s, error + ProxyNode sqlres) state"
  subs_tbl :: "Subscription sql \<Rightarrow> ('s, error + Subscription sqlres) state"
  links_tbl :: "SubscriptionNode sql \<Rightarrow> ('s, error + SubscriptionNode sqlres) state"
  audit_tbl :: "AuditLog sql \<Rightarrow> ('s, error + AuditLog sqlres) state"
  time_Now :: "('s, time) state"
  rand_Intn :: "nat \<Rightarrow> ('s, nat) state"

section \<open>What Redis documents\<close>

text \<open>A value with its time to live (0: none); a set and a sorted set as lists.\<close>

datatype rval = VStr string duration | VSet "string list" | VZSet "(string \<times> int) list"

type_synonym keyspace = "string \<Rightarrow> rval option"

abbreviation WRONGTYPE :: error where
  "WRONGTYPE \<equiv> ExtErr ''WRONGTYPE Operation against a key holding the wrong kind of value''"

fun zadd :: "(string \<times> int) list \<Rightarrow> string \<Rightarrow> int \<Rightarrow> (string \<times> int) list" where
  "zadd [] x n = [(x, n)]"
| "zadd ((y, m) # zs) x n = (if x = y then (y, m + n) # zs else (y, m) # zadd zs x n)"

fun apply_w :: "keyspace \<Rightarrow> wcmd \<Rightarrow> keyspace \<times> (error + rreply)" where
  "apply_w m (SET k v ttl) = (m(k \<mapsto> VStr v ttl), Inr RStatus)"
| "apply_w m (INCRBY k n) =
     (case m k of
        None \<Rightarrow> (m(k \<mapsto> VStr (Itoa n) 0), Inr (RInt n))
      | Some (VStr v ttl) \<Rightarrow>
          (case ParseInt v of
             None \<Rightarrow> (m, Inl (ExtErr ''ERR value is not an integer or out of range''))
           | Some i \<Rightarrow>
               if int64_range (i + n) then (m(k \<mapsto> VStr (Itoa (i + n)) ttl), Inr (RInt (i + n)))
               else (m, Inl (ExtErr ''ERR increment or decrement would overflow'')))
      | Some _ \<Rightarrow> (m, Inl WRONGTYPE))"
| "apply_w m (DEL ks) =
     (m |` (- set ks), Inr (RInt (int (length (filter (\<lambda>k. m k \<noteq> None) (remdups ks))))))"
| "apply_w m (SADD k x) =
     (case m k of
        None \<Rightarrow> (m(k \<mapsto> VSet [x]), Inr (RInt 1))
      | Some (VSet xs) \<Rightarrow>
          if x \<in> set xs then (m, Inr (RInt 0)) else (m(k \<mapsto> VSet (xs @ [x])), Inr (RInt 1))
      | Some _ \<Rightarrow> (m, Inl WRONGTYPE))"
| "apply_w m (SREM k x) =
     (case m k of
        None \<Rightarrow> (m, Inr (RInt 0))
      | Some (VSet xs) \<Rightarrow>
          let ys = removeAll x xs
          in (if ys = [] then m(k := None) else m(k \<mapsto> VSet ys),
              Inr (RInt (if x \<in> set xs then 1 else 0)))
      | Some _ \<Rightarrow> (m, Inl WRONGTYPE))"
| "apply_w m (ZINCRBY k n x) =
     (case m k of
        None \<Rightarrow> (m(k \<mapsto> VZSet [(x, n)]), Inr RStatus)
      | Some (VZSet zs) \<Rightarrow> (m(k \<mapsto> VZSet (zadd zs x n)), Inr RStatus)
      | Some _ \<Rightarrow> (m, Inl WRONGTYPE))"

text \<open>MULTI/EXEC: every queued command runs; the client reports the first error.\<close>

fun apply_tx :: "keyspace \<Rightarrow> wcmd list \<Rightarrow> keyspace \<times> (error + rreply)" where
  "apply_tx m [] = (m, Inr RStatus)"
| "apply_tx m (c # cs) =
     (case apply_w m c of (m', r) \<Rightarrow>
        (case apply_tx m' cs of (m'', rs) \<Rightarrow> (m'', case r of Inl e \<Rightarrow> Inl e | Inr _ \<Rightarrow> rs)))"

text \<open>The patterns of KEYS: \<^verbatim>\<open>*\<close>, \<^verbatim>\<open>?\<close>, a class \<^verbatim>\<open>[abc]\<close> \<^verbatim>\<open>[^abc]\<close> \<^verbatim>\<open>[a-c]\<close>, and \<^verbatim>\<open>\\\<close> to quote.\<close>

fun class_match :: "string \<Rightarrow> char \<Rightarrow> bool" where
  "class_match (a # m # b # p) c =
     (if m = CHR ''-'' then (byte_of a \<le> byte_of c \<and> byte_of c \<le> byte_of b) \<or> class_match p c
      else a = c \<or> class_match (m # b # p) c)"
| "class_match (a # p) c = (a = c \<or> class_match p c)"
| "class_match [] c = False"

function glob :: "string \<Rightarrow> string \<Rightarrow> bool" where
  "glob [] s = (s = [])"
| "glob (q # p) s =
     (if q = CHR ''*'' then glob p s \<or> (case s of [] \<Rightarrow> False | _ # t \<Rightarrow> glob (q # p) t)
      else case s of
        [] \<Rightarrow> False
      | c # t \<Rightarrow>
          if q = CHR ''?'' then glob p t
          else if q = CHR 0x5C then
            (case p of [] \<Rightarrow> c = q \<and> t = [] | e # p' \<Rightarrow> e = c \<and> glob p' t)
          else if q = CHR ''['' then
            (let cls = takeWhile (\<lambda>x. x \<noteq> CHR '']'') p;
                 rest = drop (Suc (length cls)) p
             in (case cls of
                   [] \<Rightarrow> False
                 | x # xs \<Rightarrow> if x = CHR ''^'' then \<not> class_match xs c else class_match cls c)
                \<and> glob rest t)
          else q = c \<and> glob p t)"
  by pat_completeness auto
termination
  by (relation "measure (\<lambda>(p, s). length p + length s)") auto

definition members :: "keyspace \<Rightarrow> string \<Rightarrow> string set" where
  "members m k = (case m k of Some (VSet xs) \<Rightarrow> set xs | _ \<Rightarrow> {})"

definition set_key :: "keyspace \<Rightarrow> string \<Rightarrow> bool" where
  "set_key m k \<longleftrightarrow> (case m k of None \<Rightarrow> True | Some (VSet _) \<Rightarrow> True | Some _ \<Rightarrow> False)"

fun redis_post :: "keyspace \<Rightarrow> rcmd \<Rightarrow> keyspace \<Rightarrow> error + rreply \<Rightarrow> bool" where
  "redis_post m (Do c) m' r \<longleftrightarrow> (m', r) = apply_w m c"
| "redis_post m (TX cs) m' r \<longleftrightarrow> (m', r) = apply_tx m cs"
| "redis_post m (GET k) m' r \<longleftrightarrow>
     m' = m \<and> r = (case m k of None \<Rightarrow> Inl RedisNil | Some (VStr v _) \<Rightarrow> Inr (RStr v)
                     | Some _ \<Rightarrow> Inl WRONGTYPE)"
| "redis_post m (KEYS p) m' r \<longleftrightarrow>
     m' = m \<and> (\<exists>ks. r = Inr (RList ks) \<and> distinct ks \<and> set ks = {k. m k \<noteq> None \<and> glob p k})"
| "redis_post m (SMEMBERS k) m' r \<longleftrightarrow>
     m' = m \<and> (if set_key m k
       then \<exists>xs. r = Inr (RList xs) \<and> distinct xs \<and> set xs = members m k
       else r = Inl WRONGTYPE)"
| "redis_post m (SINTER ks) m' r \<longleftrightarrow>
     m' = m \<and> (if ks = [] then \<exists>e. r = Inl (ExtErr e)
       else if list_all (set_key m) ks
       then \<exists>xs. r = Inr (RList xs) \<and> distinct xs \<and> set xs = {x. \<forall>k\<in>set ks. x \<in> members m k}
       else r = Inl WRONGTYPE)"
| "redis_post m (ZREVRANGE k n) m' r \<longleftrightarrow>
     m' = m \<and> (case m k of
        None \<Rightarrow> r = Inr (RScored [])
      | Some (VZSet zs) \<Rightarrow>
          \<exists>ys. mset ys = mset zs \<and> sorted_wrt (\<lambda>a b. snd a \<ge> snd b) ys \<and>
               r = Inr (RScored (take n ys))
      | Some _ \<Rightarrow> r = Inl WRONGTYPE)"


section \<open>What SQLite and GORM document\<close>

text \<open>
  A table as the list of its rows in the order of the primary key.  \<open>pk\<close> reads and \<open>set_pk\<close>
  writes the key; a statement that changes rows may be rejected by a constraint.
\<close>

definition row_lookup :: "('r \<Rightarrow> bool) \<Rightarrow> 'r list \<Rightarrow> error + 'r sqlres" where
  "row_lookup P rows = (case find P rows of None \<Rightarrow> Inl ErrRecordNotFound | Some x \<Rightarrow> Inr (Row x))"

definition insert_row :: "('r \<Rightarrow> nat) \<Rightarrow> 'r \<Rightarrow> 'r list \<Rightarrow> 'r list" where
  "insert_row pk x rows =
     filter (\<lambda>r. pk r < pk x) rows @ [x] @ filter (\<lambda>r. pk x < pk r) rows"

definition rejected :: "'r list \<Rightarrow> 'r list \<Rightarrow> error + 'r sqlres \<Rightarrow> bool" where
  "rejected rows rows' r \<longleftrightarrow> rows' = rows \<and> (\<exists>e. r = Inl (ExtErr e))"

definition created ::
  "('r \<Rightarrow> nat) \<Rightarrow> (nat \<Rightarrow> 'r \<Rightarrow> 'r) \<Rightarrow> 'r list \<Rightarrow> 'r \<Rightarrow> 'r list \<Rightarrow> error + 'r sqlres \<Rightarrow> bool" where
  "created pk set_pk rows x rows' r \<longleftrightarrow>
     (\<exists>i. 0 < i \<and> (\<forall>y\<in>set rows. pk y < i) \<and> rows' = rows @ [set_pk i x] \<and> r = Inr (Row (set_pk i x)))"

fun sql_post ::
  "('r \<Rightarrow> nat) \<Rightarrow> (nat \<Rightarrow> 'r \<Rightarrow> 'r) \<Rightarrow> 'r list \<Rightarrow> 'r sql \<Rightarrow> 'r list \<Rightarrow> error + 'r sqlres \<Rightarrow> bool" where
  "sql_post pk set_pk rows (First P) rows' r \<longleftrightarrow> rows' = rows \<and> r = row_lookup P rows"
| "sql_post pk set_pk rows (Find P) rows' r \<longleftrightarrow>
     rows' = rows \<and> (\<exists>xs. r = Inr (Rows xs) \<and> mset xs = mset (filter P rows))"
| "sql_post pk set_pk rows (Count P) rows' r \<longleftrightarrow>
     rows' = rows \<and> r = Inr (Num (length (filter P rows)))"
| "sql_post pk set_pk rows (Create x) rows' r \<longleftrightarrow>
     created pk set_pk rows x rows' r \<or> rejected rows rows' r"
| "sql_post pk set_pk rows (Save x) rows' r \<longleftrightarrow>
     (rows' = insert_row pk x rows \<and> r = Inr (Row x)) \<or> rejected rows rows' r"
| "sql_post pk set_pk rows (Update P f) rows' r \<longleftrightarrow>
     (rows' = map (\<lambda>x. if P x then f x else x) rows \<and> r = Inr (Num (length (filter P rows))))
     \<or> rejected rows rows' r"
| "sql_post pk set_pk rows (Delete P) rows' r \<longleftrightarrow>
     (rows' = filter (\<lambda>x. \<not> P x) rows \<and> r = Inr (Num (length (filter P rows))))
     \<or> rejected rows rows' r"
| "sql_post pk set_pk rows (Upsert same upd x) rows' r \<longleftrightarrow>
     (if \<exists>y\<in>set rows. same y x
      then rows' = map (\<lambda>y. if same y x then upd y x else y) rows \<and> (\<exists>z. r = Inr (Row z))
      else created pk set_pk rows x rows' r)
     \<or> rejected rows rows' r"

section \<open>The backend's view of the services\<close>

record store =
  st_keys :: keyspace
  st_users :: "User list"
  st_nodes :: "ProxyNode list"
  st_subs :: "Subscription list"
  st_links :: "SubscriptionNode list"
  st_audit :: "AuditLog list"

text \<open>
  Weakest preconditions: \<open>wp m Q s\<close> says that the program \<open>m\<close>, run from \<open>s\<close>, ends with an
  answer and a state that satisfy \<open>Q\<close>.
\<close>

definition wp :: "('s, 'a) state \<Rightarrow> ('a \<Rightarrow> 's \<Rightarrow> bool) \<Rightarrow> 's \<Rightarrow> bool" where
  "wp m Q s \<longleftrightarrow> (case run_state m s of (a, s') \<Rightarrow> Q a s')"

lemma wp_return [simp]: "wp (State_Monad.return a) Q = Q a"
  by (rule ext) (simp add: wp_def)

lemma wp_bind [simp]: "wp (State_Monad.bind m f) Q = wp m (\<lambda>a. wp (f a) Q)"
  by (rule ext) (simp add: wp_def split: prod.splits)

lemma wp_mono: "wp m Q s \<Longrightarrow> (\<And>a s'. Q a s' \<Longrightarrow> R a s') \<Longrightarrow> wp m R s"
  by (auto simp: wp_def split: prod.splits)

lemma wp_conj: "wp m Q s \<Longrightarrow> wp m R s \<Longrightarrow> wp m (\<lambda>a s'. Q a s' \<and> R a s') s"
  by (auto simp: wp_def split: prod.splits)

lemma wp_runD: "wp m Q s \<Longrightarrow> run_state m s = (a, s') \<Longrightarrow> Q a s'"
  by (simp add: wp_def)

lemma wp_runI: "(\<And>a s'. run_state m s = (a, s') \<Longrightarrow> Q a s') \<Longrightarrow> wp m Q s"
  by (simp add: wp_def split: prod.splits)

section \<open>The client calls\<close>

text \<open>
  The methods of go-redis and GORM as the code calls them: the answer at the type the call
  asks for (\<^verbatim>\<open>.Result()\<close>, \<^verbatim>\<open>.Int64()\<close>, \<^verbatim>\<open>.Uint64()\<close>, \<^verbatim>\<open>.Err()\<close>, \<^verbatim>\<open>.Error\<close>).
\<close>

definition unexpected :: error where
  "unexpected = ExtErr ''redis: unexpected reply''"

fun as_str :: "error + rreply \<Rightarrow> error + string" where
  "as_str (Inl e) = Inl e"
| "as_str (Inr (RStr v)) = Inr v"
| "as_str (Inr _) = Inl unexpected"

fun as_int :: "error + rreply \<Rightarrow> error + int" where
  "as_int (Inl e) = Inl e"
| "as_int (Inr (RInt i)) = Inr i"
| "as_int (Inr _) = Inl unexpected"

fun as_list :: "error + rreply \<Rightarrow> error + string list" where
  "as_list (Inl e) = Inl e"
| "as_list (Inr (RList xs)) = Inr xs"
| "as_list (Inr _) = Inl unexpected"

fun as_err :: "error + 'a \<Rightarrow> error option" where
  "as_err (Inl e) = Some e"
| "as_err (Inr _) = None"

fun Int64 :: "error + string \<Rightarrow> error + int" where
  "Int64 (Inl e) = Inl e"
| "Int64 (Inr v) = (case ParseInt v of None \<Rightarrow> Inl (ExtErr ''strconv.ParseInt'') | Some i \<Rightarrow> Inr i)"

fun Uint64 :: "error + string \<Rightarrow> error + nat" where
  "Uint64 (Inl e) = Inl e"
| "Uint64 (Inr v) = (case ParseUint v of None \<Rightarrow> Inl (ExtErr ''strconv.ParseUint'') | Some i \<Rightarrow> Inr i)"

text \<open>\<^verbatim>\<open>v, _ := ...\<close>: the zero value where there is an error.\<close>

fun or_zero :: "error + int \<Rightarrow> int" where
  "or_zero (Inl _) = 0"
| "or_zero (Inr i) = i"

definition redis_Get :: "'s world \<Rightarrow> string \<Rightarrow> ('s, error + string) state" where
  "redis_Get W k = do { r \<leftarrow> redis_cl W (GET k); State_Monad.return (as_str r) }"

definition redis_Incr :: "'s world \<Rightarrow> string \<Rightarrow> ('s, error + int) state" where
  "redis_Incr W k = do { r \<leftarrow> redis_cl W (Do (INCRBY k 1)); State_Monad.return (as_int r) }"

definition redis_Decr :: "'s world \<Rightarrow> string \<Rightarrow> ('s, error option) state" where
  "redis_Decr W k = do { r \<leftarrow> redis_cl W (Do (INCRBY k (- 1))); State_Monad.return (as_err r) }"

definition redis_Del :: "'s world \<Rightarrow> string list \<Rightarrow> ('s, error option) state" where
  "redis_Del W ks = do { r \<leftarrow> redis_cl W (Do (DEL ks)); State_Monad.return (as_err r) }"

definition redis_Set :: "'s world \<Rightarrow> string \<Rightarrow> string \<Rightarrow> duration \<Rightarrow> ('s, error option) state" where
  "redis_Set W k v ttl = do { r \<leftarrow> redis_cl W (Do (SET k v ttl)); State_Monad.return (as_err r) }"

definition redis_Keys :: "'s world \<Rightarrow> string \<Rightarrow> ('s, error + string list) state" where
  "redis_Keys W p = do { r \<leftarrow> redis_cl W (KEYS p); State_Monad.return (as_list r) }"

definition redis_SMembers :: "'s world \<Rightarrow> string \<Rightarrow> ('s, error + string list) state" where
  "redis_SMembers W k = do { r \<leftarrow> redis_cl W (SMEMBERS k); State_Monad.return (as_list r) }"

definition redis_SInter :: "'s world \<Rightarrow> string list \<Rightarrow> ('s, error + string list) state" where
  "redis_SInter W ks = do { r \<leftarrow> redis_cl W (SINTER ks); State_Monad.return (as_list r) }"

definition redis_Exec :: "'s world \<Rightarrow> wcmd list \<Rightarrow> ('s, error option) state" where
  "redis_Exec W cs = do { r \<leftarrow> redis_cl W (TX cs); State_Monad.return (as_err r) }"

fun as_row :: "error + 'r sqlres \<Rightarrow> error + 'r" where
  "as_row (Inl e) = Inl e"
| "as_row (Inr (Row x)) = Inr x"
| "as_row (Inr _) = Inl (ExtErr ''gorm: unexpected result'')"

fun as_rows :: "error + 'r sqlres \<Rightarrow> error + 'r list" where
  "as_rows (Inl e) = Inl e"
| "as_rows (Inr (Rows xs)) = Inr xs"
| "as_rows (Inr _) = Inl (ExtErr ''gorm: unexpected result'')"

fun as_count :: "error + 'r sqlres \<Rightarrow> error + nat" where
  "as_count (Inl e) = Inl e"
| "as_count (Inr (Num n)) = Inr n"
| "as_count (Inr _) = Inl (ExtErr ''gorm: unexpected result'')"

definition db_First :: "('r sql \<Rightarrow> ('s, error + 'r sqlres) state) \<Rightarrow> ('r \<Rightarrow> bool) \<Rightarrow> ('s, error + 'r) state" where
  "db_First tbl P = do { r \<leftarrow> tbl (First P); State_Monad.return (as_row r) }"

definition db_Find :: "('r sql \<Rightarrow> ('s, error + 'r sqlres) state) \<Rightarrow> ('r \<Rightarrow> bool) \<Rightarrow> ('s, error + 'r list) state" where
  "db_Find tbl P = do { r \<leftarrow> tbl (Find P); State_Monad.return (as_rows r) }"

definition db_Count :: "('r sql \<Rightarrow> ('s, error + 'r sqlres) state) \<Rightarrow> ('r \<Rightarrow> bool) \<Rightarrow> ('s, error + nat) state" where
  "db_Count tbl P = do { r \<leftarrow> tbl (Count P); State_Monad.return (as_count r) }"

definition db_Create :: "('r sql \<Rightarrow> ('s, error + 'r sqlres) state) \<Rightarrow> 'r \<Rightarrow> ('s, error + 'r) state" where
  "db_Create tbl x = do { r \<leftarrow> tbl (Create x); State_Monad.return (as_row r) }"

definition db_Save :: "('r sql \<Rightarrow> ('s, error + 'r sqlres) state) \<Rightarrow> 'r \<Rightarrow> ('s, error option) state" where
  "db_Save tbl x = do { r \<leftarrow> tbl (Save x); State_Monad.return (as_err r) }"

definition db_Updates ::
  "('r sql \<Rightarrow> ('s, error + 'r sqlres) state) \<Rightarrow> ('r \<Rightarrow> bool) \<Rightarrow> ('r \<Rightarrow> 'r) \<Rightarrow> ('s, error option) state" where
  "db_Updates tbl P f = do { r \<leftarrow> tbl (Update P f); State_Monad.return (as_err r) }"

definition db_Delete :: "('r sql \<Rightarrow> ('s, error + 'r sqlres) state) \<Rightarrow> ('r \<Rightarrow> bool) \<Rightarrow> ('s, error option) state" where
  "db_Delete tbl P = do { r \<leftarrow> tbl (Delete P); State_Monad.return (as_err r) }"

definition db_Upsert ::
  "('r sql \<Rightarrow> ('s, error + 'r sqlres) state) \<Rightarrow> ('r \<Rightarrow> 'r \<Rightarrow> bool) \<Rightarrow> ('r \<Rightarrow> 'r \<Rightarrow> 'r) \<Rightarrow> 'r
    \<Rightarrow> ('s, error option) state" where
  "db_Upsert tbl same upd x = do { r \<leftarrow> tbl (Upsert same upd x); State_Monad.return (as_err r) }"


section \<open>The contracts\<close>

text \<open>The answer of GET and of a query for one row, at the type of the client call.\<close>

definition get_answer :: "keyspace \<Rightarrow> string \<Rightarrow> error + string" where
  "get_answer m k =
     (case m k of None \<Rightarrow> Inl RedisNil | Some (VStr v _) \<Rightarrow> Inr v | Some _ \<Rightarrow> Inl WRONGTYPE)"

definition first_answer :: "('r \<Rightarrow> bool) \<Rightarrow> 'r list \<Rightarrow> error + 'r" where
  "first_answer P rows = (case find P rows of None \<Rightarrow> Inl ErrRecordNotFound | Some x \<Rightarrow> Inr x)"

text \<open>
  A lost answer: the command may have taken effect.  With \<open>lossy\<close> false the service answers
  every command.
\<close>

definition redis_answers :: "bool \<Rightarrow> keyspace \<Rightarrow> rcmd \<Rightarrow> keyspace \<Rightarrow> error + rreply \<Rightarrow> bool" where
  "redis_answers lossy m c m' r \<longleftrightarrow>
     redis_post m c m' r \<or>
     (lossy \<and> (\<exists>e. r = Inl (ExtErr e)) \<and> (m' = m \<or> (\<exists>r'. redis_post m c m' r')))"

definition serves_redis :: "bool \<Rightarrow> ('s \<Rightarrow> store) \<Rightarrow> 's world \<Rightarrow> bool" where
  "serves_redis lossy view W \<longleftrightarrow>
     (\<forall>c s r s'. run_state (redis_cl W c) s = (r, s') \<longrightarrow>
        (\<exists>m'. view s' = (view s)\<lparr>st_keys := m'\<rparr> \<and> redis_answers lossy (st_keys (view s)) c m' r))"

definition serves_table ::
  "bool \<Rightarrow> ('s \<Rightarrow> store) \<Rightarrow> (store \<Rightarrow> 'r list) \<Rightarrow> ('r list \<Rightarrow> store \<Rightarrow> store) \<Rightarrow> ('r \<Rightarrow> nat) \<Rightarrow>
   (nat \<Rightarrow> 'r \<Rightarrow> 'r) \<Rightarrow> ('r sql \<Rightarrow> ('s, error + 'r sqlres) state) \<Rightarrow> bool" where
  "serves_table lossy view get_rows put_rows pk set_pk tbl \<longleftrightarrow>
     (\<forall>q s r s'. run_state (tbl q) s = (r, s') \<longrightarrow>
        (\<exists>rows'. view s' = put_rows rows' (view s) \<and>
           (sql_post pk set_pk (get_rows (view s)) q rows' r \<or>
            (lossy \<and> rejected (get_rows (view s)) rows' r))))"

definition serves_clock :: "('s \<Rightarrow> store) \<Rightarrow> 's world \<Rightarrow> bool" where
  "serves_clock view W \<longleftrightarrow>
     (\<forall>s t s'. run_state (time_Now W) s = (t, s') \<longrightarrow> view s' = view s)"

definition serves_rand :: "('s \<Rightarrow> store) \<Rightarrow> 's world \<Rightarrow> bool" where
  "serves_rand view W \<longleftrightarrow>
     (\<forall>n s i s'. run_state (rand_Intn W n) s = (i, s') \<longrightarrow> view s' = view s \<and> (0 < n \<longrightarrow> i < n))"

text \<open>Services that may fail to answer, and services that answer.\<close>

locale backend =
  fixes W :: "'s world" and view :: "'s \<Rightarrow> store"
  assumes redis_may_fail: "serves_redis True view W"
    and users_may_fail: "serves_table True view st_users (\<lambda>rs v. v\<lparr>st_users := rs\<rparr>) u_ID (\<lambda>i x. x\<lparr>u_ID := i\<rparr>) (users_tbl W)"
    and nodes_may_fail: "serves_table True view st_nodes (\<lambda>rs v. v\<lparr>st_nodes := rs\<rparr>) n_ID (\<lambda>i x. x\<lparr>n_ID := i\<rparr>) (nodes_tbl W)"
    and subs_may_fail: "serves_table True view st_subs (\<lambda>rs v. v\<lparr>st_subs := rs\<rparr>) s_ID (\<lambda>i x. x\<lparr>s_ID := i\<rparr>) (subs_tbl W)"
    and links_may_fail: "serves_table True view st_links (\<lambda>rs v. v\<lparr>st_links := rs\<rparr>) l_ID (\<lambda>i x. x\<lparr>l_ID := i\<rparr>) (links_tbl W)"
    and audit_may_fail: "serves_table True view st_audit (\<lambda>rs v. v\<lparr>st_audit := rs\<rparr>) a_ID (\<lambda>i x. x\<lparr>a_ID := i\<rparr>) (audit_tbl W)"
    and clock_any: "serves_clock view W"
    and rand_any: "serves_rand view W"

locale reliable =
  fixes W :: "'s world" and view :: "'s \<Rightarrow> store"
  assumes redis: "serves_redis False view W"
    and users: "serves_table False view st_users (\<lambda>rs v. v\<lparr>st_users := rs\<rparr>) u_ID (\<lambda>i x. x\<lparr>u_ID := i\<rparr>) (users_tbl W)"
    and nodes: "serves_table False view st_nodes (\<lambda>rs v. v\<lparr>st_nodes := rs\<rparr>) n_ID (\<lambda>i x. x\<lparr>n_ID := i\<rparr>) (nodes_tbl W)"
    and subs: "serves_table False view st_subs (\<lambda>rs v. v\<lparr>st_subs := rs\<rparr>) s_ID (\<lambda>i x. x\<lparr>s_ID := i\<rparr>) (subs_tbl W)"
    and links: "serves_table False view st_links (\<lambda>rs v. v\<lparr>st_links := rs\<rparr>) l_ID (\<lambda>i x. x\<lparr>l_ID := i\<rparr>) (links_tbl W)"
    and audit: "serves_table False view st_audit (\<lambda>rs v. v\<lparr>st_audit := rs\<rparr>) a_ID (\<lambda>i x. x\<lparr>a_ID := i\<rparr>) (audit_tbl W)"
    and clock: "serves_clock view W"
    and rand: "serves_rand view W"

lemma serves_redis_weaken: "serves_redis False view W \<Longrightarrow> serves_redis True view W"
  unfolding serves_redis_def redis_answers_def by blast

lemma serves_table_weaken:
  "serves_table False view g p pk spk tbl \<Longrightarrow> serves_table True view g p pk spk tbl"
  unfolding serves_table_def by blast

sublocale reliable \<subseteq> backend
  using redis users nodes subs links audit clock rand
  by unfold_locales (simp_all add: serves_redis_weaken serves_table_weaken)

section \<open>Reasoning about the client calls\<close>

text \<open>For a table that answers; \<open>put_get\<close> is the law of the record update of its rows.\<close>

lemma wp_db_First_answered:
  assumes "serves_table False view g p pk spk tbl" and put_get: "\<And>v. p (g v) v = v"
    and "\<And>s'. view s' = view s \<Longrightarrow> Q (first_answer P (g (view s))) s'"
  shows "wp (db_First tbl P) Q s"
proof (rule wp_runI)
  fix a s' assume "run_state (db_First tbl P) s = (a, s')"
  then obtain r where r: "run_state (tbl (First P)) s = (r, s')" and a: "a = as_row r"
    by (auto simp: db_First_def split: prod.splits)
  from r assms(1) put_get have "view s' = view s" and "r = row_lookup P (g (view s))"
    by (force simp: serves_table_def)+
  with assms(3) a show "Q a s'"
    by (auto simp: row_lookup_def first_answer_def split: option.splits)
qed

lemma wp_db_Find_answered:
  assumes "serves_table False view g p pk spk tbl" and put_get: "\<And>v. p (g v) v = v"
    and "\<And>xs s'. view s' = view s \<Longrightarrow> mset xs = mset (filter P (g (view s))) \<Longrightarrow> Q (Inr xs) s'"
  shows "wp (db_Find tbl P) Q s"
proof (rule wp_runI)
  fix a s' assume "run_state (db_Find tbl P) s = (a, s')"
  then obtain r where r: "run_state (tbl (Find P)) s = (r, s')" and a: "a = as_rows r"
    by (auto simp: db_Find_def split: prod.splits)
  from r assms(1) put_get obtain xs where "view s' = view s" and "r = Inr (Rows xs)"
    and "mset xs = mset (filter P (g (view s)))"
    by (force simp: serves_table_def)
  with assms(3) a show "Q a s'" by auto
qed

lemma wp_db_Updates_answered:
  assumes "serves_table False view g p pk spk tbl" and put_get: "\<And>v. p (g v) v = v"
    and "\<And>s'. view s' = p (map (\<lambda>x. if P x then f x else x) (g (view s))) (view s) \<Longrightarrow> Q None s'"
    and "\<And>e s'. view s' = view s \<Longrightarrow> Q (Some e) s'"
  shows "wp (db_Updates tbl P f) Q s"
proof (rule wp_runI)
  fix a s' assume "run_state (db_Updates tbl P f) s = (a, s')"
  then obtain r where r: "run_state (tbl (Update P f)) s = (r, s')" and a: "a = as_err r"
    by (auto simp: db_Updates_def split: prod.splits)
  from r assms(1) obtain rows' where "view s' = p rows' (view s)"
    and "sql_post pk spk (g (view s)) (Update P f) rows' r"
    unfolding serves_table_def by blast
  with assms(3,4) put_get a show "Q a s'" by (auto simp: rejected_def)
qed

lemma wp_db_Count_answered:
  assumes "serves_table False view g p pk spk tbl" and put_get: "\<And>v. p (g v) v = v"
    and "\<And>s'. view s' = view s \<Longrightarrow> Q (Inr (length (filter P (g (view s))))) s'"
  shows "wp (db_Count tbl P) Q s"
proof (rule wp_runI)
  fix a s' assume "run_state (db_Count tbl P) s = (a, s')"
  then obtain r where r: "run_state (tbl (Count P)) s = (r, s')" and a: "a = as_count r"
    by (auto simp: db_Count_def split: prod.splits)
  from r assms(1) put_get have "view s' = view s" and "r = Inr (Num (length (filter P (g (view s)))))"
    by (force simp: serves_table_def)+
  with assms(3) a show "Q a s'" by simp
qed

lemma table_run:
  assumes "serves_table False view g p pk spk tbl" and put_get: "\<And>v. p (g v) v = v"
    and "run_state (tbl q) s = (r, s')"
  obtains rows' where "view s' = p rows' (view s)" and "sql_post pk spk (g (view s)) q rows' r"
  using assms unfolding serves_table_def by blast

text \<open>A statement that writes takes effect and answers, or is rejected and changes nothing.\<close>

lemma wp_db_Create_answered:
  assumes "serves_table False view g p pk spk tbl" and put_get: "\<And>v. p (g v) v = v"
    and "\<And>i s'. 0 < i \<Longrightarrow> \<forall>y\<in>set (g (view s)). pk y < i \<Longrightarrow>
      view s' = p (g (view s) @ [spk i x]) (view s) \<Longrightarrow> Q (Inr (spk i x)) s'"
    and "\<And>e s'. view s' = view s \<Longrightarrow> Q (Inl (ExtErr e)) s'"
  shows "wp (db_Create tbl x) Q s"
proof (rule wp_runI)
  fix a s' assume "run_state (db_Create tbl x) s = (a, s')"
  then obtain r where r: "run_state (tbl (Create x)) s = (r, s')" and a: "a = as_row r"
    by (auto simp: db_Create_def split: prod.splits)
  from table_run [OF assms(1) put_get r] obtain rows'
    where rows: "view s' = p rows' (view s)" "sql_post pk spk (g (view s)) (Create x) rows' r" by blast
  with assms(3,4) put_get a show "Q a s'" by (auto simp: created_def rejected_def)
qed

lemma wp_db_Save_answered:
  assumes "serves_table False view g p pk spk tbl" and put_get: "\<And>v. p (g v) v = v"
    and "\<And>s'. view s' = p (insert_row pk x (g (view s))) (view s) \<Longrightarrow> Q None s'"
    and "\<And>e s'. view s' = view s \<Longrightarrow> Q (Some (ExtErr e)) s'"
  shows "wp (db_Save tbl x) Q s"
proof (rule wp_runI)
  fix a s' assume "run_state (db_Save tbl x) s = (a, s')"
  then obtain r where r: "run_state (tbl (Save x)) s = (r, s')" and a: "a = as_err r"
    by (auto simp: db_Save_def split: prod.splits)
  from table_run [OF assms(1) put_get r] obtain rows'
    where rows: "view s' = p rows' (view s)" "sql_post pk spk (g (view s)) (Save x) rows' r" by blast
  with assms(3,4) put_get a show "Q a s'" by (auto simp: rejected_def)
qed

lemma wp_db_Delete_answered:
  assumes "serves_table False view g p pk spk tbl" and put_get: "\<And>v. p (g v) v = v"
    and "\<And>s'. view s' = p (filter (\<lambda>x. \<not> P x) (g (view s))) (view s) \<Longrightarrow> Q None s'"
    and "\<And>e s'. view s' = view s \<Longrightarrow> Q (Some (ExtErr e)) s'"
  shows "wp (db_Delete tbl P) Q s"
proof (rule wp_runI)
  fix a s' assume "run_state (db_Delete tbl P) s = (a, s')"
  then obtain r where r: "run_state (tbl (Delete P)) s = (r, s')" and a: "a = as_err r"
    by (auto simp: db_Delete_def split: prod.splits)
  from table_run [OF assms(1) put_get r] obtain rows'
    where rows: "view s' = p rows' (view s)" "sql_post pk spk (g (view s)) (Delete P) rows' r" by blast
  with assms(3,4) put_get a show "Q a s'" by (auto simp: rejected_def)
qed

lemma wp_db_Upsert_answered:
  assumes "serves_table False view g p pk spk tbl" and put_get: "\<And>v. p (g v) v = v"
    and "\<And>s'. \<exists>y\<in>set (g (view s)). same y x \<Longrightarrow>
      view s' = p (map (\<lambda>y. if same y x then upd y x else y) (g (view s))) (view s) \<Longrightarrow> Q None s'"
    and "\<And>i s'. \<not> (\<exists>y\<in>set (g (view s)). same y x) \<Longrightarrow> 0 < i \<Longrightarrow> \<forall>y\<in>set (g (view s)). pk y < i \<Longrightarrow>
      view s' = p (g (view s) @ [spk i x]) (view s) \<Longrightarrow> Q None s'"
    and "\<And>e s'. view s' = view s \<Longrightarrow> Q (Some (ExtErr e)) s'"
  shows "wp (db_Upsert tbl same upd x) Q s"
proof (rule wp_runI)
  fix a s' assume "run_state (db_Upsert tbl same upd x) s = (a, s')"
  then obtain r where r: "run_state (tbl (Upsert same upd x)) s = (r, s')" and a: "a = as_err r"
    by (auto simp: db_Upsert_def split: prod.splits)
  from table_run [OF assms(1) put_get r] obtain rows'
    where rows: "view s' = p rows' (view s)"
      "sql_post pk spk (g (view s)) (Upsert same upd x) rows' r" by blast
  show "Q a s'"
  proof (cases "rejected (g (view s)) rows' r")
    case True
    with rows assms(5) put_get a show ?thesis by (auto simp: rejected_def)
  next
    case False
    with rows assms(3,4) a show ?thesis by (auto simp: created_def split: if_splits)
  qed
qed

context reliable
begin

lemma is_backend: "backend W view"
  by (rule backend_axioms)

lemma redis_run:
  assumes "run_state (redis_cl W c) s = (r, s')"
  obtains m' where "view s' = (view s)\<lparr>st_keys := m'\<rparr>" "redis_post (st_keys (view s)) c m' r"
  using assms redis unfolding serves_redis_def redis_answers_def by blast

lemma wp_redis_Do:
  assumes "\<And>s'. view s' = (view s)\<lparr>st_keys := fst (apply_w (st_keys (view s)) c)\<rparr> \<Longrightarrow>
    Q (snd (apply_w (st_keys (view s)) c)) s'"
  shows "wp (redis_cl W (Do c)) Q s"
  using assms by (auto intro!: wp_runI elim!: redis_run simp: prod_eq_iff)

lemma wp_redis_TX:
  assumes "\<And>s'. view s' = (view s)\<lparr>st_keys := fst (apply_tx (st_keys (view s)) cs)\<rparr> \<Longrightarrow>
    Q (snd (apply_tx (st_keys (view s)) cs)) s'"
  shows "wp (redis_cl W (TX cs)) Q s"
  using assms by (auto intro!: wp_runI elim!: redis_run simp: prod_eq_iff)

lemma wp_redis_Get:
  assumes "\<And>s'. view s' = view s \<Longrightarrow> Q (get_answer (st_keys (view s)) k) s'"
  shows "wp (redis_Get W k) Q s"
proof -
  have "wp (redis_cl W (GET k)) (\<lambda>r s'. Q (as_str r) s') s"
  proof (rule wp_runI)
    fix r s' assume "run_state (redis_cl W (GET k)) s = (r, s')"
    then show "Q (as_str r) s'"
      using assms by (elim redis_run) (auto simp: get_answer_def split: option.splits rval.splits)
  qed
  then show ?thesis by (simp add: redis_Get_def)
qed

lemma wp_redis_Keys:
  assumes "\<And>ks s'. view s' = view s \<Longrightarrow> distinct ks \<Longrightarrow>
    set ks = {k. st_keys (view s) k \<noteq> None \<and> glob p k} \<Longrightarrow> Q (Inr ks) s'"
  shows "wp (redis_Keys W p) Q s"
proof -
  have "wp (redis_cl W (KEYS p)) (\<lambda>r s'. Q (as_list r) s') s"
    by (rule wp_runI) (use assms in \<open>auto elim!: redis_run\<close>)
  then show ?thesis by (simp add: redis_Keys_def)
qed

lemma wp_redis_SMembers:
  assumes "\<And>xs s'. view s' = view s \<Longrightarrow> distinct xs \<Longrightarrow> set xs = members (st_keys (view s)) k \<Longrightarrow> Q (Inr xs) s'"
    and "\<And>s'. view s' = view s \<Longrightarrow> \<not> set_key (st_keys (view s)) k \<Longrightarrow> Q (Inl WRONGTYPE) s'"
  shows "wp (redis_SMembers W k) Q s"
proof -
  have "wp (redis_cl W (SMEMBERS k)) (\<lambda>r s'. Q (as_list r) s') s"
    by (rule wp_runI) (use assms in \<open>auto elim!: redis_run split: if_splits\<close>)
  then show ?thesis by (simp add: redis_SMembers_def)
qed

lemma wp_redis_SInter:
  assumes "ks \<noteq> []"
    and "\<And>xs s'. view s' = view s \<Longrightarrow> distinct xs \<Longrightarrow>
      set xs = {x. \<forall>k\<in>set ks. x \<in> members (st_keys (view s)) k} \<Longrightarrow> Q (Inr xs) s'"
    and "\<And>s'. view s' = view s \<Longrightarrow> \<not> list_all (set_key (st_keys (view s))) ks \<Longrightarrow> Q (Inl WRONGTYPE) s'"
  shows "wp (redis_SInter W ks) Q s"
proof -
  have "wp (redis_cl W (SINTER ks)) (\<lambda>r s'. Q (as_list r) s') s"
    by (rule wp_runI) (use assms in \<open>auto elim!: redis_run split: if_splits\<close>)
  then show ?thesis by (simp add: redis_SInter_def)
qed

lemma wp_redis_Incr:
  assumes "\<And>s'. view s' = (view s)\<lparr>st_keys := fst (apply_w (st_keys (view s)) (INCRBY k 1))\<rparr> \<Longrightarrow>
    Q (as_int (snd (apply_w (st_keys (view s)) (INCRBY k 1)))) s'"
  shows "wp (redis_Incr W k) Q s"
  by (simp only: redis_Incr_def wp_bind wp_return) (rule wp_redis_Do, rule assms)

lemma wp_redis_Decr:
  assumes "\<And>s'. view s' = (view s)\<lparr>st_keys := fst (apply_w (st_keys (view s)) (INCRBY k (- 1)))\<rparr> \<Longrightarrow>
    Q (as_err (snd (apply_w (st_keys (view s)) (INCRBY k (- 1))))) s'"
  shows "wp (redis_Decr W k) Q s"
  by (simp only: redis_Decr_def wp_bind wp_return) (rule wp_redis_Do, rule assms)

lemma wp_redis_Del:
  assumes "\<And>s'. view s' = (view s)\<lparr>st_keys := st_keys (view s) |` (- set ks)\<rparr> \<Longrightarrow> Q None s'"
  shows "wp (redis_Del W ks) Q s"
  unfolding redis_Del_def by (auto intro!: wp_redis_Do assms)

lemma wp_redis_Set:
  assumes "\<And>s'. view s' = (view s)\<lparr>st_keys := (st_keys (view s))(k \<mapsto> VStr v ttl)\<rparr> \<Longrightarrow> Q None s'"
  shows "wp (redis_Set W k v ttl) Q s"
  unfolding redis_Set_def by (auto intro!: wp_redis_Do assms)

lemma wp_redis_Exec:
  assumes "\<And>s'. view s' = (view s)\<lparr>st_keys := fst (apply_tx (st_keys (view s)) cs)\<rparr> \<Longrightarrow>
    Q (as_err (snd (apply_tx (st_keys (view s)) cs))) s'"
  shows "wp (redis_Exec W cs) Q s"
  by (simp only: redis_Exec_def wp_bind wp_return) (rule wp_redis_TX, rule assms)

lemma wp_time_Now:
  "(\<And>t s'. view s' = view s \<Longrightarrow> Q t s') \<Longrightarrow> wp (time_Now W) Q s"
  using clock unfolding serves_clock_def by (auto intro!: wp_runI)

lemma wp_rand_Intn:
  "(\<And>i s'. view s' = view s \<Longrightarrow> (0 < n \<longrightarrow> i < n) \<Longrightarrow> Q i s') \<Longrightarrow> wp (rand_Intn W n) Q s"
  using rand unfolding serves_rand_def by (auto intro!: wp_runI)

lemmas wp_First_users = wp_db_First_answered [OF users, simplified]
lemmas wp_First_nodes = wp_db_First_answered [OF nodes, simplified]
lemmas wp_First_subs = wp_db_First_answered [OF subs, simplified]
lemmas wp_Find_nodes = wp_db_Find_answered [OF nodes, simplified]
lemmas wp_Updates_users = wp_db_Updates_answered [OF users, simplified]
lemmas wp_Updates_nodes = wp_db_Updates_answered [OF nodes, simplified]
lemmas wp_Updates_subs = wp_db_Updates_answered [OF subs, simplified]

lemmas wp_First_links = wp_db_First_answered [OF links, simplified]
lemmas wp_Find_users = wp_db_Find_answered [OF users, simplified]
lemmas wp_Find_subs = wp_db_Find_answered [OF subs, simplified]
lemmas wp_Find_links = wp_db_Find_answered [OF links, simplified]
lemmas wp_Count_users = wp_db_Count_answered [OF users, simplified]
lemmas wp_Count_links = wp_db_Count_answered [OF links, simplified]
lemmas wp_Create_users = wp_db_Create_answered [OF users, simplified]
lemmas wp_Create_subs = wp_db_Create_answered [OF subs, simplified]
lemmas wp_Create_nodes = wp_db_Create_answered [OF nodes, simplified]
lemmas wp_Create_links = wp_db_Create_answered [OF links, simplified]
lemmas wp_Create_audit = wp_db_Create_answered [OF audit, simplified]
lemmas wp_Save_users = wp_db_Save_answered [OF users, simplified]
lemmas wp_Save_nodes = wp_db_Save_answered [OF nodes, simplified]
lemmas wp_Delete_users = wp_db_Delete_answered [OF users, simplified]
lemmas wp_Delete_nodes = wp_db_Delete_answered [OF nodes, simplified]
lemmas wp_Delete_subs = wp_db_Delete_answered [OF subs, simplified]
lemmas wp_Delete_links = wp_db_Delete_answered [OF links, simplified]
lemmas wp_Upsert_nodes = wp_db_Upsert_answered [OF nodes, simplified]
lemmas wp_Upsert_links = wp_db_Upsert_answered [OF links, simplified]

lemmas wp_calls =
  wp_redis_Get wp_redis_Keys wp_redis_SMembers wp_redis_SInter wp_redis_Incr wp_redis_Decr
  wp_redis_Del wp_redis_Set wp_redis_Exec wp_time_Now wp_rand_Intn
  wp_First_users wp_First_nodes wp_First_subs wp_Find_nodes wp_Updates_users wp_Updates_nodes

end


section \<open>An in-memory instance\<close>

text \<open>
  The services kept in memory: the keys ever written with a map, the tables as lists, a clock
  that stands still, a fixed source of choices, and the connections that are open.
\<close>

record mem =
  mem_dom :: "string list"
  mem_map :: keyspace
  mem_users :: "User list"
  mem_nodes :: "ProxyNode list"
  mem_subs :: "Subscription list"
  mem_links :: "SubscriptionNode list"
  mem_audit :: "AuditLog list"
  mem_now :: time
  mem_seed :: nat
  mem_conns :: "nat list"

definition mem_keys :: "mem \<Rightarrow> keyspace" where
  "mem_keys s = mem_map s |` set (mem_dom s)"

definition mem_view :: "mem \<Rightarrow> store" where
  "mem_view s = \<lparr>st_keys = mem_keys s, st_users = mem_users s, st_nodes = mem_nodes s,
     st_subs = mem_subs s, st_links = mem_links s, st_audit = mem_audit s\<rparr>"

fun w_keys :: "wcmd \<Rightarrow> string list" where
  "w_keys (SET k _ _) = [k]"
| "w_keys (INCRBY k _) = [k]"
| "w_keys (DEL ks) = []"
| "w_keys (SADD k _) = [k]"
| "w_keys (SREM k _) = [k]"
| "w_keys (ZINCRBY k _ _) = [k]"

definition member_list :: "keyspace \<Rightarrow> string \<Rightarrow> string list" where
  "member_list m k = (case m k of Some (VSet xs) \<Rightarrow> remdups xs | _ \<Rightarrow> [])"

fun mem_redis :: "rcmd \<Rightarrow> mem \<Rightarrow> (error + rreply) \<times> mem" where
  "mem_redis (Do c) s =
     (case apply_w (mem_keys s) c of (m', r) \<Rightarrow>
        (r, s\<lparr>mem_map := m', mem_dom := w_keys c @ mem_dom s\<rparr>))"
| "mem_redis (TX cs) s =
     (case apply_tx (mem_keys s) cs of (m', r) \<Rightarrow>
        (r, s\<lparr>mem_map := m', mem_dom := concat (map w_keys cs) @ mem_dom s\<rparr>))"
| "mem_redis (GET k) s =
     ((case mem_keys s k of None \<Rightarrow> Inl RedisNil | Some (VStr v _) \<Rightarrow> Inr (RStr v)
       | Some _ \<Rightarrow> Inl WRONGTYPE), s)"
| "mem_redis (KEYS p) s =
     (Inr (RList (filter (\<lambda>k. mem_keys s k \<noteq> None \<and> glob p k) (remdups (mem_dom s)))), s)"
| "mem_redis (SMEMBERS k) s =
     ((case mem_keys s k of None \<Rightarrow> Inr (RList []) | Some (VSet xs) \<Rightarrow> Inr (RList (remdups xs))
       | Some _ \<Rightarrow> Inl WRONGTYPE), s)"
| "mem_redis (SINTER ks) s =
     ((case ks of
         [] \<Rightarrow> Inl (ExtErr ''ERR wrong number of arguments'')
       | k # _ \<Rightarrow>
           if list_all (set_key (mem_keys s)) ks
           then Inr (RList (filter (\<lambda>x. list_all (\<lambda>j. x \<in> members (mem_keys s) j) ks)
                  (member_list (mem_keys s) k)))
           else Inl WRONGTYPE), s)"
| "mem_redis (ZREVRANGE k n) s =
     ((case mem_keys s k of None \<Rightarrow> Inr (RScored [])
       | Some (VZSet zs) \<Rightarrow> Inr (RScored (take n (sort_key (\<lambda>z. - snd z) zs)))
       | Some _ \<Rightarrow> Inl WRONGTYPE), s)"

fun mem_table :: "('r \<Rightarrow> nat) \<Rightarrow> (nat \<Rightarrow> 'r \<Rightarrow> 'r) \<Rightarrow> 'r sql \<Rightarrow> 'r list \<Rightarrow> (error + 'r sqlres) \<times> 'r list" where
  "mem_table pk set_pk (First P) rows = (row_lookup P rows, rows)"
| "mem_table pk set_pk (Find P) rows = (Inr (Rows (filter P rows)), rows)"
| "mem_table pk set_pk (Count P) rows = (Inr (Num (length (filter P rows))), rows)"
| "mem_table pk set_pk (Create x) rows =
     (let y = set_pk (Suc (fold max (map pk rows) 0)) x in (Inr (Row y), rows @ [y]))"
| "mem_table pk set_pk (Save x) rows = (Inr (Row x), insert_row pk x rows)"
| "mem_table pk set_pk (Update P f) rows =
     (Inr (Num (length (filter P rows))), map (\<lambda>x. if P x then f x else x) rows)"
| "mem_table pk set_pk (Delete P) rows =
     (Inr (Num (length (filter P rows))), filter (\<lambda>x. \<not> P x) rows)"
| "mem_table pk set_pk (Upsert same upd x) rows =
     (if list_ex (\<lambda>y. same y x) rows
      then (Inr (Row x), map (\<lambda>y. if same y x then upd y x else y) rows)
      else (let y = set_pk (Suc (fold max (map pk rows) 0)) x in (Inr (Row y), rows @ [y])))"

definition on_rows ::
  "(mem \<Rightarrow> 'r list) \<Rightarrow> ('r list \<Rightarrow> mem \<Rightarrow> mem) \<Rightarrow> ('r list \<Rightarrow> 'a \<times> 'r list) \<Rightarrow> (mem, 'a) state" where
  "on_rows g p f = State (\<lambda>s. case f (g s) of (r, rows') \<Rightarrow> (r, p rows' s))"

definition mem_world :: "mem world" where
  "mem_world = \<lparr>
     redis_cl = (\<lambda>c. State (mem_redis c)),
     users_tbl = (\<lambda>q. on_rows mem_users (\<lambda>rs s. s\<lparr>mem_users := rs\<rparr>) (mem_table u_ID (\<lambda>i x. x\<lparr>u_ID := i\<rparr>) q)),
     nodes_tbl = (\<lambda>q. on_rows mem_nodes (\<lambda>rs s. s\<lparr>mem_nodes := rs\<rparr>) (mem_table n_ID (\<lambda>i x. x\<lparr>n_ID := i\<rparr>) q)),
     subs_tbl = (\<lambda>q. on_rows mem_subs (\<lambda>rs s. s\<lparr>mem_subs := rs\<rparr>) (mem_table s_ID (\<lambda>i x. x\<lparr>s_ID := i\<rparr>) q)),
     links_tbl = (\<lambda>q. on_rows mem_links (\<lambda>rs s. s\<lparr>mem_links := rs\<rparr>) (mem_table l_ID (\<lambda>i x. x\<lparr>l_ID := i\<rparr>) q)),
     audit_tbl = (\<lambda>q. on_rows mem_audit (\<lambda>rs s. s\<lparr>mem_audit := rs\<rparr>) (mem_table a_ID (\<lambda>i x. x\<lparr>a_ID := i\<rparr>) q)),
     time_Now = State (\<lambda>s. (mem_now s, s)),
     rand_Intn = (\<lambda>n. State (\<lambda>s. (if n = 0 then 0 else mem_seed s mod n, s)))\<rparr>"

subsection \<open>It keeps the contracts\<close>

lemma apply_w_dom: "dom (fst (apply_w m c)) \<subseteq> dom m \<union> set (w_keys c)"
  by (cases c) (auto simp: Let_def split: option.splits rval.splits if_splits)

lemma apply_tx_dom: "dom (fst (apply_tx m cs)) \<subseteq> dom m \<union> set (concat (map w_keys cs))"
proof (induction cs arbitrary: m)
  case Nil
  then show ?case by simp
next
  case (Cons c cs)
  have "dom (fst (apply_tx m (c # cs))) = dom (fst (apply_tx (fst (apply_w m c)) cs))"
    by (simp split: prod.splits)
  also have "\<dots> \<subseteq> dom (fst (apply_w m c)) \<union> set (concat (map w_keys cs))" by (rule Cons.IH)
  also have "\<dots> \<subseteq> dom m \<union> set (concat (map w_keys (c # cs)))"
    using apply_w_dom [of m c] by auto
  finally show ?case .
qed

lemma restrict_dom: "dom m \<subseteq> A \<Longrightarrow> m |` A = m"
  by (rule ext) (metis domIff restrict_in restrict_out subsetD)

lemma restrict_UNIV [simp]: "m |` UNIV = m"
  by (rule restrict_dom) simp

lemma member_list [simp]: "set (member_list m k) = members m k" "distinct (member_list m k)"
  by (simp_all add: member_list_def members_def split: option.splits rval.splits)

lemma mem_redis_post:
  assumes "mem_redis c s = (r, s')"
  shows "mem_view s' = (mem_view s)\<lparr>st_keys := mem_keys s'\<rparr> \<and> redis_post (mem_keys s) c (mem_keys s') r"
proof (cases c)
  case (Do w)
  have "dom (fst (apply_w (mem_keys s) w)) \<subseteq> set (w_keys w @ mem_dom s)"
    using apply_w_dom [of "mem_keys s" w] by (auto simp: mem_keys_def)
  then show ?thesis
    using Do assms by (auto simp: mem_view_def mem_keys_def restrict_dom split: prod.splits)
next
  case (TX cs)
  have "dom (fst (apply_tx (mem_keys s) cs)) \<subseteq> set (concat (map w_keys cs) @ mem_dom s)"
    using apply_tx_dom [of "mem_keys s" cs] by (auto simp: mem_keys_def)
  then show ?thesis
    using TX assms by (auto simp: mem_view_def mem_keys_def restrict_dom split: prod.splits)
next
  case (KEYS p)
  then show ?thesis
    using assms by (auto simp: mem_view_def mem_keys_def restrict_map_def split: if_splits)
next
  case (SMEMBERS k)
  then show ?thesis
    using assms by (auto simp: mem_view_def set_key_def members_def split: option.splits rval.splits)
next
  case (SINTER ks)
  then show ?thesis
    using assms by (cases ks) (auto simp: mem_view_def list_all_iff split: if_splits)
next
  case (ZREVRANGE k n)
  have "sorted_wrt (\<lambda>a b. snd b \<le> snd a) (sort_key (\<lambda>z. - snd z) zs)" for zs :: "(string \<times> int) list"
    using sorted_sort_key [of "\<lambda>z. - snd z" zs] by (simp add: sorted_map)
  then show ?thesis
    using ZREVRANGE assms by (auto simp: mem_view_def split: option.splits rval.splits
        intro!: exI [where x = "sort_key (\<lambda>z. - snd z) _"])
qed (use assms in \<open>auto simp: mem_view_def\<close>)

lemma fold_max_ge: "a \<le> fold max xs (a::nat)" "x \<in> set xs \<Longrightarrow> x \<le> fold max xs a"
  by (induction xs arbitrary: a) (auto, (metis max.bounded_iff)+)

lemma mem_table_post:
  "mem_table pk set_pk q rows = (r, rows') \<Longrightarrow> sql_post pk set_pk rows q rows' r"
  by (cases q)
    (auto simp: Let_def created_def list_ex_iff fold_max_ge less_Suc_eq_le split: if_splits
      intro!: exI [where x = "Suc (fold max (map pk rows) 0)"])

interpretation mem: reliable mem_world mem_view
proof unfold_locales
  show "serves_redis False mem_view mem_world"
    using mem_redis_post
    by (force simp: serves_redis_def redis_answers_def mem_world_def mem_view_def)
qed (auto simp: serves_table_def serves_clock_def serves_rand_def mem_world_def on_rows_def mem_view_def
       mem_keys_def dest: mem_table_post split: prod.splits)


section \<open>Programs that keep an observation\<close>

definition keeps :: "('s \<Rightarrow> 'b) \<Rightarrow> ('s, 'a) state \<Rightarrow> bool" where
  "keeps obs m \<longleftrightarrow> (\<forall>s r s'. run_state m s = (r, s') \<longrightarrow> obs s' = obs s)"

lemma wp_keeps:
  assumes "keeps obs m" and "\<And>r s'. obs s' = obs s \<Longrightarrow> Q r s'"
  shows "wp m Q s"
  using assms by (auto intro!: wp_runI simp: keeps_def)

lemma keeps_wp: "(\<And>s. wp m (\<lambda>_ s'. obs s' = obs s) s) \<Longrightarrow> keeps obs m"
  unfolding keeps_def by (blast dest: wp_runD)

lemma keeps_map: "keeps obs m \<Longrightarrow> keeps (\<lambda>s. f (obs s)) m"
  by (auto simp: keeps_def)

lemma keeps_return [simp]: "keeps obs (State_Monad.return a)"
  by (simp add: keeps_def)

lemma keeps_pair: "keeps f m \<Longrightarrow> keeps g m \<Longrightarrow> keeps (\<lambda>s. (f s, g s)) m"
  by (auto simp: keeps_def)

lemma keeps_bind: "keeps obs m \<Longrightarrow> (\<And>a. keeps obs (f a)) \<Longrightarrow> keeps obs (State_Monad.bind m f)"
  unfolding keeps_def run_state_bind by (auto split: prod.splits)

text \<open>The keys a command may write.\<close>

fun w_touched :: "wcmd \<Rightarrow> string list" where
  "w_touched (DEL ks) = ks"
| "w_touched c = w_keys c"

fun touched :: "rcmd \<Rightarrow> string list" where
  "touched (Do c) = w_touched c"
| "touched (TX cs) = concat (map w_touched cs)"
| "touched _ = []"

lemma apply_w_other: "k \<notin> set (w_touched c) \<Longrightarrow> fst (apply_w m c) k = m k"
  by (cases c) (auto simp: Let_def restrict_map_def split: option.splits rval.splits)

lemma apply_tx_other: "k \<notin> set (touched (TX cs)) \<Longrightarrow> fst (apply_tx m cs) k = m k"
proof (induction cs arbitrary: m)
  case (Cons c cs)
  have "fst (apply_tx m (c # cs)) k = fst (apply_tx (fst (apply_w m c)) cs) k"
    by (simp split: prod.splits)
  with Cons show ?case by (simp add: apply_w_other)
qed simp

lemma redis_post_other: "redis_post m c m' r \<Longrightarrow> k \<notin> set (touched c) \<Longrightarrow> m' k = m k"
  by (cases c) (auto simp: prod_eq_iff apply_w_other apply_tx_other)

text \<open>Also where commands fail, keys outside those a command touches stay.\<close>

abbreviation tables :: "('s \<Rightarrow> store) \<Rightarrow> 's \<Rightarrow> store" where
  "tables view s \<equiv> (view s)\<lparr>st_keys := Map.empty\<rparr>"

abbreviation keys_in :: "('s \<Rightarrow> store) \<Rightarrow> string set \<Rightarrow> 's \<Rightarrow> keyspace" where
  "keys_in view K s \<equiv> st_keys (view s) |` K"

context backend
begin

lemma redis_keeps:
  assumes "set (touched c) \<inter> K = {}"
  shows "keeps (keys_in view K) (redis_cl W c)"
  unfolding keeps_def
proof (intro allI impI, rule ext)
  fix s r s' k
  assume "run_state (redis_cl W c) s = (r, s')"
  then obtain m' where m': "view s' = (view s)\<lparr>st_keys := m'\<rparr>"
    and "redis_answers True (st_keys (view s)) c m' r"
    using redis_may_fail unfolding serves_redis_def by blast
  then have "k \<in> K \<Longrightarrow> m' k = st_keys (view s) k"
    using assms redis_post_other by (fastforce simp: redis_answers_def)
  then show "keys_in view K s' k = keys_in view K s k" by (simp add: m' restrict_map_def)
qed

lemma tables_keep:
  "keeps (keys_in view K) (users_tbl W uq)" "keeps (keys_in view K) (nodes_tbl W nq)"
  "keeps (keys_in view K) (subs_tbl W sq)" "keeps (keys_in view K) (links_tbl W lq)"
  "keeps (keys_in view K) (audit_tbl W aq)"
  using users_may_fail nodes_may_fail subs_may_fail links_may_fail audit_may_fail
  by (fastforce simp: serves_table_def keeps_def)+

lemma clock_keeps: "keeps (keys_in view K) (time_Now W)" "keeps (keys_in view K) (rand_Intn W n)"
  using clock_any rand_any by (fastforce simp: serves_clock_def serves_rand_def keeps_def)+

lemma clock_view: "keeps view (time_Now W)" "keeps view (rand_Intn W n)"
  using clock_any rand_any by (fastforce simp: serves_clock_def serves_rand_def keeps_def)+

lemma calls_keep:
  "keeps (keys_in view K) (redis_Get W k)" "keeps (keys_in view K) (redis_SMembers W k)"
  "keeps (keys_in view K) (redis_SInter W ks)" "keeps (keys_in view K) (redis_Keys W k)"
  "keeps (keys_in view K) (db_First (users_tbl W) P)" "keeps (keys_in view K) (db_First (nodes_tbl W) P')"
  "keeps (keys_in view K) (db_Find (nodes_tbl W) P')"
  "k \<notin> K \<Longrightarrow> keeps (keys_in view K) (redis_Set W k v ttl)"
  "set ks \<inter> K = {} \<Longrightarrow> keeps (keys_in view K) (redis_Del W ks)"
  "set (touched (TX cs)) \<inter> K = {} \<Longrightarrow> keeps (keys_in view K) (redis_Exec W cs)"
  unfolding redis_Get_def redis_SMembers_def redis_SInter_def redis_Keys_def db_First_def db_Find_def
    redis_Set_def redis_Del_def redis_Exec_def
  by (auto intro!: keeps_bind redis_keeps tables_keep)

text \<open>A Redis command touches no table, a statement on one table no other.\<close>

lemma redis_keeps_tables: "keeps (tables view) (redis_cl W c)"
  using redis_may_fail by (fastforce simp: serves_redis_def keeps_def)

lemma other_tables_keep:
  "keeps (\<lambda>s. st_nodes (view s)) (users_tbl W uq)" "keeps (\<lambda>s. st_nodes (view s)) (subs_tbl W sq)"
  "keeps (\<lambda>s. st_nodes (view s)) (links_tbl W lq)" "keeps (\<lambda>s. st_nodes (view s)) (audit_tbl W aq)"
  "keeps (\<lambda>s. st_links (view s)) (nodes_tbl W nq)" "keeps (\<lambda>s. st_links (view s)) (subs_tbl W sq)"
  "keeps (\<lambda>s. st_subs (view s)) (nodes_tbl W nq)" "keeps (\<lambda>s. st_subs (view s)) (links_tbl W lq)"
  "keeps (\<lambda>s. st_users (view s)) (audit_tbl W aq)" "keeps (\<lambda>s. st_nodes (view s)) (audit_tbl W aq)"
  using users_may_fail nodes_may_fail subs_may_fail links_may_fail audit_may_fail
  by (fastforce simp: serves_table_def keeps_def)+

end

end
