(* ===== verification/RedisStore.thy ===== *)
theory RedisStore
  imports World
begin

text \<open>
  Package \<^verbatim>\<open>redisstore\<close> (\<^verbatim>\<open>internal/redisstore/store.go\<close>): the names of the keys, the cache of
  the nodes with its indexes (the sets \<^verbatim>\<open>healthy_nodes\<close>, \<^verbatim>\<open>region:*\<close>, \<^verbatim>\<open>city:*\<close>, \<^verbatim>\<open>asn:*\<close>,
  \<^verbatim>\<open>isp:*\<close>), the removal of a node and of the sticky sessions on it, and the usage a user has
  pending.  \<open>J\<close> is the JSON coding of a cached node (\<^verbatim>\<open>encoding/json\<close> on \<^verbatim>\<open>cachedNode\<close>); the
  locale \<open>node_codec\<close> states what the code relies on: a node comes back as it was, less the
  fields tagged \<^verbatim>\<open>json:"-"\<close>.
\<close>

section \<open>Key names\<close>

definition StickyKey :: "string \<Rightarrow> string \<Rightarrow> string \<Rightarrow> string" where
  "StickyKey uid filterHash sid = ''sticky:'' @ uid @ '':'' @ filterHash @ '':'' @ sid"

definition UsageKey :: "string \<Rightarrow> string \<Rightarrow> string" where
  "UsageKey uid direction = ''usage:'' @ uid @ '':'' @ direction"

definition ConnKey :: "string \<Rightarrow> string" where
  "ConnKey uid = ''conn:'' @ uid @ '':current''"

definition RequestsKey :: "string \<Rightarrow> string" where
  "RequestsKey uid = ''usage:'' @ uid @ '':requests''"

definition NodeUsageKey :: "nat \<Rightarrow> string \<Rightarrow> string" where
  "NodeUsageKey nodeID direction = ''usage:node:'' @ show_nat nodeID @ '':'' @ direction"

definition NodeRequestsKey :: "nat \<Rightarrow> string" where
  "NodeRequestsKey nodeID = ''usage:node:'' @ show_nat nodeID @ '':requests''"

definition RegionUsageKey :: "string \<Rightarrow> string" where
  "RegionUsageKey region = ''traffic:region''"

definition HourlyUsageKey :: "string \<Rightarrow> string" where
  "HourlyUsageKey hour = ''traffic:hour:'' @ hour"

definition RegionMember :: "string \<Rightarrow> string" where
  "RegionMember region = (if region = [] then ''__unknown__'' else region)"

definition NodeKey :: "nat \<Rightarrow> string" where
  "NodeKey nodeID = ''node:'' @ show_nat nodeID"

definition RegionKey :: "string \<Rightarrow> string" where
  "RegionKey region = ''region:'' @ region"

definition CityKey :: "string \<Rightarrow> string" where
  "CityKey city = ''city:'' @ city"

definition ASNKey :: "string \<Rightarrow> string" where
  "ASNKey asn = ''asn:'' @ asn"

definition ISPKey :: "string \<Rightarrow> string" where
  "ISPKey isp = ''isp:'' @ isp"

section \<open>The cached node\<close>

record cachedNode =
  c_ProxyNode :: ProxyNode
  c_UpstreamUsernameEnc :: string
  c_UpstreamPasswordEnc :: string

record node_json =
  Marshal :: "cachedNode \<Rightarrow> string"
  Unmarshal :: "string \<Rightarrow> error + cachedNode"

definition hide_secrets :: "ProxyNode \<Rightarrow> ProxyNode" where
  "hide_secrets n = n\<lparr>n_UpstreamUsernameEnc := [], n_UpstreamPasswordEnc := []\<rparr>"

text \<open>
  The nodes that JSON carries unchanged: their strings are valid UTF-8 (the encoder replaces
  other bytes), their numbers those of a Go \<^verbatim>\<open>int\<close>, \<^verbatim>\<open>int64\<close> or \<^verbatim>\<open>uint\<close> and the time one
  that RFC 3339 writes (the years 0 to 9999).
\<close>

definition json_time :: "time \<Rightarrow> bool" where
  "json_time t \<longleftrightarrow> - 62167219200 * 10 ^ 9 \<le> t \<and> t < 253402300800 * 10 ^ 9"

definition node_strings :: "ProxyNode \<Rightarrow> string list" where
  "node_strings n = [n_NodeKey n, n_Protocol n, n_Host n, n_ServerName n, n_Tag n,
     n_ExpectedRegion n, n_DetectedRegion n, n_City n, n_Country n, n_ASN n, n_Org n, n_ISP n,
     n_ExitIP n, n_RawJSON n, n_UpstreamUsernameEnc n, n_UpstreamPasswordEnc n]"

definition node_ints :: "ProxyNode \<Rightarrow> int list" where
  "node_ints n = [n_Port n, n_LatencyMS n, n_FailCount n, n_UploadBytes n, n_DownloadBytes n,
     n_TotalRequests n]"

definition json_safe :: "ProxyNode \<Rightarrow> bool" where
  "json_safe n \<longleftrightarrow> list_all utf8_valid (node_strings n) \<and> list_all int64_range (node_ints n) \<and>
     (case n_LastCheckAt n of None \<Rightarrow> True | Some t \<Rightarrow> json_time t) \<and>
     n_ID n < 2 ^ 64 \<and> n_SubscriptionID n < 2 ^ 64"


definition to_cached :: "ProxyNode \<Rightarrow> cachedNode" where
  "to_cached node = \<lparr>c_ProxyNode = node, c_UpstreamUsernameEnc = n_UpstreamUsernameEnc node,
     c_UpstreamPasswordEnc = n_UpstreamPasswordEnc node\<rparr>"

definition from_cached :: "cachedNode \<Rightarrow> ProxyNode" where
  "from_cached payload = (c_ProxyNode payload)\<lparr>
     n_UpstreamUsernameEnc := c_UpstreamUsernameEnc payload,
     n_UpstreamPasswordEnc := c_UpstreamPasswordEnc payload\<rparr>"

locale node_codec =
  fixes J :: node_json
  assumes round_trip:
    "json_safe n \<Longrightarrow> Unmarshal J (Marshal J (to_cached n)) = Inr ((to_cached n)\<lparr>c_ProxyNode := hide_secrets n\<rparr>)"

definition LoadNode :: "'s world \<Rightarrow> node_json \<Rightarrow> nat \<Rightarrow> ('s, error + ProxyNode) state" where
  "LoadNode W J nodeID = do {
     raw \<leftarrow> redis_Get W (NodeKey nodeID);
     State_Monad.return (case raw of
         Inl err \<Rightarrow> Inl err
       | Inr v \<Rightarrow> (case Unmarshal J v of Inl err \<Rightarrow> Inl err | Inr payload \<Rightarrow> Inr (from_cached payload)))
   }"

section \<open>Indexes\<close>

definition index_region :: "ProxyNode \<Rightarrow> string" where
  "index_region node = (if n_DetectedRegion node = [] then n_ExpectedRegion node else n_DetectedRegion node)"

definition nodeIndexKeys :: "ProxyNode \<Rightarrow> string list" where
  "nodeIndexKeys node =
     (if index_region node \<noteq> [] then [RegionKey (index_region node)] else []) @
     (if n_City node \<noteq> [] then [CityKey (n_City node)] else []) @
     (if n_ASN node \<noteq> [] then [ASNKey (n_ASN node)] else []) @
     (if n_ISP node \<noteq> [] then [ISPKey (n_ISP node)] else [])"

text \<open>The commands that \<^verbatim>\<open>replaceSetMembership\<close> queues on the pipeline.\<close>

definition replaceSetMembership :: "string \<Rightarrow> nat \<Rightarrow> bool \<Rightarrow> wcmd list" where
  "replaceSetMembership key i shouldAdd =
     (if key = ''region:'' \<or> key = ''city:'' \<or> key = ''asn:'' \<or> key = ''isp:'' then []
      else if shouldAdd then [SADD key (show_nat i)]
      else [SREM key (show_nat i)])"

definition day :: duration where
  "day = 24 * 3600 * 1000000000"

definition CacheNode_pipe :: "ProxyNode \<Rightarrow> ProxyNode option \<Rightarrow> string \<Rightarrow> wcmd list" where
  "CacheNode_pipe node previous raw =
     (let i = show_nat (n_ID node);
          region = (if n_DetectedRegion node = [] then n_ExpectedRegion node else n_DetectedRegion node)
      in [SET (NodeKey (n_ID node)) raw day] @
         [if n_Healthy node \<and> \<not> n_Disabled node then SADD ''healthy_nodes'' i
          else SREM ''healthy_nodes'' i] @
         (case previous of None \<Rightarrow> [] | Some p \<Rightarrow> map (\<lambda>key. SREM key i) (nodeIndexKeys p)) @
         replaceSetMembership (RegionKey region) (n_ID node) (region \<noteq> []) @
         replaceSetMembership (CityKey (n_City node)) (n_ID node) (n_City node \<noteq> []) @
         replaceSetMembership (ASNKey (n_ASN node)) (n_ID node) (n_ASN node \<noteq> []) @
         replaceSetMembership (ISPKey (n_ISP node)) (n_ID node) (n_ISP node \<noteq> []))"

section \<open>Sticky sessions on a node\<close>

primrec sticky_keys_of :: "'s world \<Rightarrow> nat \<Rightarrow> string list \<Rightarrow> ('s, string list) state" where
  "sticky_keys_of W nodeID [] = State_Monad.return []"
| "sticky_keys_of W nodeID (key # keys) = do {
     value \<leftarrow> redis_Get W key;
     toDelete \<leftarrow> sticky_keys_of W nodeID keys;
     State_Monad.return (case Uint64 value of
         Inl _ \<Rightarrow> toDelete
       | Inr v \<Rightarrow> if v = nodeID then key # toDelete else toDelete)
   }"

definition cleanupStickyForNode :: "'s world \<Rightarrow> nat \<Rightarrow> ('s, error option) state" where
  "cleanupStickyForNode W nodeID = do {
     keys \<leftarrow> redis_Keys W ''sticky:*'';
     case keys of
       Inl err \<Rightarrow> State_Monad.return (Some err)
     | Inr [] \<Rightarrow> State_Monad.return None
     | Inr (k # ks) \<Rightarrow> do {
         toDelete \<leftarrow> sticky_keys_of W nodeID (k # ks);
         if toDelete = [] then State_Monad.return None else redis_Del W toDelete
       }
   }"

section \<open>Caching and removing a node\<close>

text \<open>\<^verbatim>\<open>json.Marshal\<close> of a \<^verbatim>\<open>cachedNode\<close> (strings, numbers, booleans, times) returns no error.\<close>

definition CacheNode :: "'s world \<Rightarrow> node_json \<Rightarrow> ProxyNode \<Rightarrow> ('s, error option) state" where
  "CacheNode W J node = do {
     loaded \<leftarrow> LoadNode W J (n_ID node);
     let previous = (case loaded of Inr n \<Rightarrow> Some n | Inl _ \<Rightarrow> None);
     let raw = Marshal J (to_cached node);
     err \<leftarrow> redis_Exec W (CacheNode_pipe node previous raw);
     case err of
       Some e \<Rightarrow> State_Monad.return (Some e)
     | None \<Rightarrow>
         if \<not> n_Healthy node \<or> n_Disabled node then cleanupStickyForNode W (n_ID node)
         else State_Monad.return None
   }"

definition RemoveNode_pipe :: "ProxyNode \<Rightarrow> wcmd list" where
  "RemoveNode_pipe node =
     (let i = show_nat (n_ID node);
          region = (if n_DetectedRegion node = [] then n_ExpectedRegion node else n_DetectedRegion node)
      in [DEL [NodeKey (n_ID node)], SREM ''healthy_nodes'' i] @
         (if region \<noteq> [] then [SREM (RegionKey region) i] else []) @
         (if n_City node \<noteq> [] then [SREM (CityKey (n_City node)) i] else []) @
         (if n_ASN node \<noteq> [] then [SREM (ASNKey (n_ASN node)) i] else []) @
         (if n_ISP node \<noteq> [] then [SREM (ISPKey (n_ISP node)) i] else []) @
         [DEL [NodeUsageKey (n_ID node) ''upload'', NodeUsageKey (n_ID node) ''download'',
               NodeRequestsKey (n_ID node)]])"

definition RemoveNode :: "'s world \<Rightarrow> ProxyNode \<Rightarrow> ('s, error option) state" where
  "RemoveNode W node = do {
     err \<leftarrow> redis_Exec W (RemoveNode_pipe node);
     case err of
       Some e \<Rightarrow> State_Monad.return (Some e)
     | None \<Rightarrow> cleanupStickyForNode W (n_ID node)
   }"

section \<open>Pending usage, members\<close>

definition UserPendingUsage :: "'s world \<Rightarrow> string \<Rightarrow> ('s, int) state" where
  "UserPendingUsage W uid = do {
     upload \<leftarrow> redis_Get W (UsageKey uid ''upload'');
     download \<leftarrow> redis_Get W (UsageKey uid ''download'');
     State_Monad.return (wrap64 (or_zero (Int64 upload) + or_zero (Int64 download)))
   }"

fun ParseUintMembers :: "string list \<Rightarrow> nat list" where
  "ParseUintMembers [] = []"
| "ParseUintMembers (value # vs) =
     (case ParseUint value of Some i \<Rightarrow> i # ParseUintMembers vs | None \<Rightarrow> ParseUintMembers vs)"

section \<open>The effect of the pipelines\<close>

abbreviation run_tx :: "keyspace \<Rightarrow> wcmd list \<Rightarrow> keyspace" where
  "run_tx m cs \<equiv> fst (apply_tx m cs)"

lemma run_tx_Cons: "run_tx m (c # cs) = run_tx (fst (apply_w m c)) cs"
  by (simp split: prod.splits)

lemma run_tx_append: "run_tx m (cs @ ds) = run_tx (run_tx m cs) ds"
  by (induction cs arbitrary: m) (simp_all add: run_tx_Cons del: apply_tx.simps(2))

text \<open>
  A command on the set at one key: what it does to the members (\<open>f\<close>), that it writes no other
  key, keeps the sets sets and answers.
\<close>

definition set_frame :: "keyspace \<Rightarrow> keyspace \<Rightarrow> bool" where
  "set_frame m m' \<longleftrightarrow> (\<forall>k. set_key m k \<longrightarrow> set_key m' k)"

lemma set_frame_refl [simp]: "set_frame m m"
  by (simp add: set_frame_def)

lemma set_frame_trans: "set_frame m m' \<Longrightarrow> set_frame m' m'' \<Longrightarrow> set_frame m m''"
  by (simp add: set_frame_def)

definition set_effect :: "(string set \<Rightarrow> string set) \<Rightarrow> string set \<Rightarrow> keyspace \<Rightarrow> keyspace \<times> (error + rreply) \<Rightarrow> bool" where
  "set_effect f ks m res \<longleftrightarrow>
     (\<forall>j. members (fst res) j = (if j \<in> ks then f (members m j) else members m j)) \<and>
     set_frame m (fst res) \<and> (\<forall>j. j \<notin> ks \<longrightarrow> fst res j = m j) \<and> (\<exists>r. snd res = Inr r)"

lemma set_effect_SADD: "set_key m k \<Longrightarrow> set_effect (insert x) {k} m (apply_w m (SADD k x))"
  by (auto simp: set_effect_def members_def set_key_def set_frame_def split: option.splits rval.splits)

lemma set_effect_SREM: "set_key m k \<Longrightarrow> set_effect (\<lambda>A. A - {x}) {k} m (apply_w m (SREM k x))"
proof -
  have "removeAll x xs = [] \<longleftrightarrow> set xs - {x} = {}" for xs
    by (metis set_empty set_removeAll)
  then show "set_key m k \<Longrightarrow> ?thesis"
    by (auto simp: set_effect_def members_def set_key_def set_frame_def Let_def split: option.splits rval.splits)
qed

lemma set_effect_map:
  assumes one: "\<And>m k. set_key m k \<Longrightarrow> set_effect f {k} m (apply_w m (C k))"
    and idem: "\<And>A. f (f A) = f A" and "\<forall>k\<in>set ks. set_key m k"
  shows "set_effect f (set ks) m (apply_tx m (map C ks))"
  using assms(3)
proof (induction ks arbitrary: m)
  case Nil
  then show ?case by (simp add: set_effect_def)
next
  case (Cons k ks)
  obtain m1 r1 where r1: "apply_w m (C k) = (m1, r1)" by (cases "apply_w m (C k)")
  obtain m2 r2 where r2: "apply_tx m1 (map C ks) = (m2, r2)" by (cases "apply_tx m1 (map C ks)")
  have e1: "set_effect f {k} m (m1, r1)" using one Cons.prems r1 by (metis list.set_intros(1))
  then have "\<forall>j\<in>set ks. set_key m1 j" using Cons.prems by (simp add: set_effect_def set_frame_def)
  then have e2: "set_effect f (set ks) m1 (m2, r2)" using Cons.IH r2 by metis
  from e1 e2 have "set_effect f (set (k # ks)) m (m2, case r1 of Inl e \<Rightarrow> Inl e | Inr _ \<Rightarrow> r2)"
    by (auto simp: set_effect_def idem intro: set_frame_trans)
  then show ?case by (simp add: r1 r2)
qed

lemmas set_effect_SADDs = set_effect_map [where C = "\<lambda>k. SADD k x" and f = "insert x" for x,
    OF set_effect_SADD, simplified]
lemmas set_effect_SREMs = set_effect_map [where C = "\<lambda>k. SREM k x" and f = "\<lambda>A. A - {x}" for x,
    OF set_effect_SREM, simplified]

text \<open>The two pipelines, with the index commands as maps over the keys of the node.\<close>

lemma replaceSetMembership_node:
  "replaceSetMembership (RegionKey (index_region n)) i (index_region n \<noteq> []) @
   replaceSetMembership (CityKey (n_City n)) i (n_City n \<noteq> []) @
   replaceSetMembership (ASNKey (n_ASN n)) i (n_ASN n \<noteq> []) @
   replaceSetMembership (ISPKey (n_ISP n)) i (n_ISP n \<noteq> [])
   = map (\<lambda>k. SADD k (show_nat i)) (nodeIndexKeys n)"
  by (simp add: replaceSetMembership_def nodeIndexKeys_def RegionKey_def CityKey_def ASNKey_def ISPKey_def)

lemma CacheNode_pipe_eq:
  "CacheNode_pipe node previous raw =
     [SET (NodeKey (n_ID node)) raw day,
      if n_Healthy node \<and> \<not> n_Disabled node then SADD ''healthy_nodes'' (show_nat (n_ID node))
      else SREM ''healthy_nodes'' (show_nat (n_ID node))] @
     map (\<lambda>k. SREM k (show_nat (n_ID node))) (case previous of None \<Rightarrow> [] | Some p \<Rightarrow> nodeIndexKeys p) @
     map (\<lambda>k. SADD k (show_nat (n_ID node))) (nodeIndexKeys node)"
  by (simp add: CacheNode_pipe_def Let_def flip: replaceSetMembership_node index_region_def
      split: option.splits)

lemma RemoveNode_pipe_eq:
  "RemoveNode_pipe node =
     [DEL [NodeKey (n_ID node)], SREM ''healthy_nodes'' (show_nat (n_ID node))] @
     map (\<lambda>k. SREM k (show_nat (n_ID node))) (nodeIndexKeys node) @
     [DEL [NodeUsageKey (n_ID node) ''upload'', NodeUsageKey (n_ID node) ''download'',
           NodeRequestsKey (n_ID node)]]"
  by (simp add: RemoveNode_pipe_def Let_def nodeIndexKeys_def flip: index_region_def)

section \<open>The invariant of the cache\<close>

text \<open>
  The node the cache holds for an id, and the invariant: the members of the sets are ids in
  decimal, and an id is a member of exactly the index sets of its cached node, and of \<^verbatim>\<open>healthy_nodes\<close> exactly when that node is healthy and not
  disabled.
\<close>

definition cached :: "node_json \<Rightarrow> keyspace \<Rightarrow> nat \<Rightarrow> ProxyNode option" where
  "cached J m i =
     (case get_answer m (NodeKey i) of
        Inl _ \<Rightarrow> None
      | Inr v \<Rightarrow> (case Unmarshal J v of Inl _ \<Rightarrow> None | Inr p \<Rightarrow> Some (from_cached p)))"

definition index_key :: "string \<Rightarrow> bool" where
  "index_key k \<longleftrightarrow> HasPrefix k ''region:'' \<or> HasPrefix k ''city:'' \<or> HasPrefix k ''asn:'' \<or> HasPrefix k ''isp:''"

definition typed_sets :: "keyspace \<Rightarrow> bool" where
  "typed_sets m \<longleftrightarrow> set_key m ''healthy_nodes'' \<and> (\<forall>k. index_key k \<longrightarrow> set_key m k)"

definition indexed :: "node_json \<Rightarrow> keyspace \<Rightarrow> nat \<Rightarrow> bool" where
  "indexed J m i \<longleftrightarrow>
     (\<forall>k. index_key k \<longrightarrow>
        (show_nat i \<in> members m k \<longleftrightarrow>
           (case cached J m i of None \<Rightarrow> False | Some n \<Rightarrow> k \<in> set (nodeIndexKeys n)))) \<and>
     (show_nat i \<in> members m ''healthy_nodes'' \<longleftrightarrow>
        (case cached J m i of None \<Rightarrow> False | Some n \<Rightarrow> n_Healthy n \<and> \<not> n_Disabled n))"

definition canonical :: "keyspace \<Rightarrow> bool" where
  "canonical m \<longleftrightarrow> (\<forall>k x. index_key k \<or> k = ''healthy_nodes'' \<longrightarrow> x \<in> members m k \<longrightarrow>
     (\<exists>i < 2 ^ 64. x = show_nat i))"

definition cache_inv :: "node_json \<Rightarrow> keyspace \<Rightarrow> bool" where
  "cache_inv J m \<longleftrightarrow> typed_sets m \<and> canonical m \<and> (\<forall>i. indexed J m i)"

lemma nodeIndexKeys_index: "k \<in> set (nodeIndexKeys n) \<Longrightarrow> index_key k"
  by (auto simp: nodeIndexKeys_def index_key_def RegionKey_def CityKey_def ASNKey_def ISPKey_def
      HasPrefix_def split: if_splits)

lemma not_index_key [simp]:
  "\<not> index_key ''healthy_nodes''" "\<not> index_key (NodeKey i)" "\<not> index_key (''usage:'' @ s)"
  "\<not> index_key (''sticky:'' @ s)" "\<not> index_key (''conn:'' @ s)"
  by (simp_all add: index_key_def HasPrefix_def NodeKey_def)

lemma NodeKey_neq [simp]:
  "NodeKey i = NodeKey j \<longleftrightarrow> i = j" "NodeKey i \<noteq> ''healthy_nodes''" "NodeKey i \<noteq> ''usage:'' @ s"
  "NodeKey i \<noteq> ''sticky:'' @ s" "''usage:'' @ s \<noteq> ''healthy_nodes''" "''sticky:'' @ s \<noteq> ''healthy_nodes''"
  by (simp_all add: NodeKey_def)

lemma NodeKey_not_usage [simp]: "\<not> HasPrefix (NodeKey i) ''usage:''"
  by (simp add: NodeKey_def HasPrefix_def)

lemmas NodeKey_neq_sym [simp] = NodeKey_neq(2-) [symmetric]

lemma cached_cong: "m (NodeKey i) = m' (NodeKey i) \<Longrightarrow> cached J m i = cached J m' i"
  by (simp add: cached_def get_answer_def)

lemma indexed_cong:
  assumes "m (NodeKey i) = m' (NodeKey i)"
    and "\<And>k. index_key k \<or> k = ''healthy_nodes'' \<Longrightarrow> show_nat i \<in> members m k \<longleftrightarrow> show_nat i \<in> members m' k"
  shows "indexed J m i = indexed J m' i"
  using assms(2) cached_cong [of m i m' J, OF assms(1)] by (simp add: indexed_def)

text \<open>What a CacheNode pipeline does to the keyspace.\<close>

lemma apply_tx_append:
  "apply_tx m (cs @ ds) =
     (case apply_tx m cs of (m', r) \<Rightarrow>
        (case apply_tx m' ds of (m'', rs) \<Rightarrow> (m'', case r of Inl e \<Rightarrow> Inl e | Inr _ \<Rightarrow> rs)))"
  by (induction cs arbitrary: m) (auto split: prod.splits sum.splits)

definition cache_effect :: "ProxyNode \<Rightarrow> string list \<Rightarrow> string \<Rightarrow> keyspace \<Rightarrow> keyspace \<Rightarrow> bool" where
  "cache_effect node prev_keys raw m m' \<longleftrightarrow>
     typed_sets m' \<and> m' (NodeKey (n_ID node)) = Some (VStr raw day) \<and>
     (\<forall>k x. index_key k \<longrightarrow> x \<in> members m' k \<longleftrightarrow>
        (if x = show_nat (n_ID node)
         then k \<in> set (nodeIndexKeys node) \<or> (x \<in> members m k \<and> k \<notin> set prev_keys)
         else x \<in> members m k)) \<and>
     (\<forall>x. x \<in> members m' ''healthy_nodes'' \<longleftrightarrow>
        (if x = show_nat (n_ID node) then n_Healthy node \<and> \<not> n_Disabled node
         else x \<in> members m ''healthy_nodes'')) \<and>
     (\<forall>k. \<not> index_key k \<longrightarrow> k \<noteq> ''healthy_nodes'' \<longrightarrow> k \<noteq> NodeKey (n_ID node) \<longrightarrow> m' k = m k)"

lemma CacheNode_pipe_effect:
  fixes node previous
  assumes typed: "typed_sets m"
  defines "i \<equiv> show_nat (n_ID node)"
    and "prev_keys \<equiv> (case previous of None \<Rightarrow> [] | Some p \<Rightarrow> nodeIndexKeys p)"
  shows "\<exists>m' r. apply_tx m (CacheNode_pipe node previous raw) = (m', Inr r) \<and>
     cache_effect node prev_keys raw m m'"
proof -
  let ?m1 = "m(NodeKey (n_ID node) \<mapsto> VStr raw day)"
  let ?h = "if n_Healthy node \<and> \<not> n_Disabled node then SADD ''healthy_nodes'' i else SREM ''healthy_nodes'' i"
  let ?fh = "if n_Healthy node \<and> \<not> n_Disabled node then insert i else (\<lambda>A. A - {i})"
  let ?SR = "map (\<lambda>k. SREM k i) prev_keys" and ?SA = "map (\<lambda>k. SADD k i) (nodeIndexKeys node)"
  have index: "index_key k" if "k \<in> set prev_keys \<or> k \<in> set (nodeIndexKeys node)" for k
    using that nodeIndexKeys_index by (auto simp: prev_keys_def split: option.splits)
  have mem1: "members ?m1 k = members m k" "set_key ?m1 k" if "index_key k \<or> k = ''healthy_nodes''" for k
    using that typed by (auto simp: members_def typed_sets_def set_key_def)
  have hk: "set_key ?m1 ''healthy_nodes''" using mem1(2) by blast
  obtain m2 r2 where m2: "apply_w ?m1 ?h = (m2, r2)" by (cases "apply_w ?m1 ?h")
  have e2: "set_effect ?fh {''healthy_nodes''} ?m1 (m2, r2)"
    using set_effect_SADD [OF hk, of i] set_effect_SREM [OF hk, of i] m2
    by (auto split: if_splits simp del: apply_w.simps)
  obtain m3 r3 where m3: "apply_tx m2 ?SR = (m3, r3)" by (cases "apply_tx m2 ?SR")
  have e3: "set_effect (\<lambda>A. A - {i}) (set prev_keys) m2 (m3, r3)"
    using set_effect_SREMs [of prev_keys m2 i] e2 mem1(2) index m3
    by (auto simp: set_effect_def set_frame_def)
  obtain m4 r4 where m4: "apply_tx m3 ?SA = (m4, r4)" by (cases "apply_tx m3 ?SA")
  have e4: "set_effect (insert i) (set (nodeIndexKeys node)) m3 (m4, r4)"
    using set_effect_SADDs [of "nodeIndexKeys node" m3 i] e2 e3 mem1(2) index m4
    by (auto simp: set_effect_def set_frame_def)
  have "apply_tx m (CacheNode_pipe node previous raw) = (m4, r4)"
    using m2 m3 m4 e2 e3 e4
    by (auto simp: CacheNode_pipe_eq apply_tx_append set_effect_def i_def prev_keys_def simp del: apply_w.simps(2-))
  moreover have "cache_effect node prev_keys raw m m4"
  proof -
    have frame: "m4 k = ?m1 k" if "\<not> index_key k" "k \<noteq> ''healthy_nodes''" for k
    proof -
      have "k \<notin> set prev_keys" "k \<notin> set (nodeIndexKeys node)" using that index by blast+
      then show ?thesis using that e2 e3 e4 by (simp add: set_effect_def)
    qed
    have "typed_sets m4"
      using mem1(2) e2 e3 e4 unfolding set_effect_def set_frame_def typed_sets_def by auto
    moreover have "x \<in> members m4 k \<longleftrightarrow>
        (if x = i then k \<in> set (nodeIndexKeys node) \<or> (x \<in> members m k \<and> k \<notin> set prev_keys)
         else x \<in> members m k)" if k: "index_key k" for k x
    proof -
      have "k \<noteq> ''healthy_nodes''" using k by auto
      then have "members m2 k = members m k" using e2 mem1(1) [of k] k by (simp add: set_effect_def)
      moreover have "members m3 k = (if k \<in> set prev_keys then members m2 k - {i} else members m2 k)"
        using e3 by (simp add: set_effect_def)
      moreover have "members m4 k = (if k \<in> set (nodeIndexKeys node) then insert i (members m3 k) else members m3 k)"
        using e4 by (simp add: set_effect_def)
      ultimately show ?thesis by (simp only:) auto
    qed
    moreover have "x \<in> members m4 ''healthy_nodes'' \<longleftrightarrow>
        (if x = i then n_Healthy node \<and> \<not> n_Disabled node else x \<in> members m ''healthy_nodes'')" for x
    proof -
      have "''healthy_nodes'' \<notin> set prev_keys" "''healthy_nodes'' \<notin> set (nodeIndexKeys node)"
        using index not_index_key(1) by blast+
      then have "members m4 ''healthy_nodes'' = ?fh (members m ''healthy_nodes'')"
        using mem1(1) [of "''healthy_nodes''"] e2 e3 e4 by (simp add: set_effect_def)
      then show ?thesis by auto
    qed
    ultimately show ?thesis using frame by (simp add: cache_effect_def i_def)
  qed
  ultimately show ?thesis using e4 by (auto simp: set_effect_def)
qed

definition remove_effect :: "ProxyNode \<Rightarrow> keyspace \<Rightarrow> keyspace \<Rightarrow> bool" where
  "remove_effect node m m' \<longleftrightarrow>
     typed_sets m' \<and> m' (NodeKey (n_ID node)) = None \<and>
     (\<forall>k x. index_key k \<longrightarrow> x \<in> members m' k \<longleftrightarrow>
        x \<in> members m k \<and> \<not> (x = show_nat (n_ID node) \<and> k \<in> set (nodeIndexKeys node))) \<and>
     (\<forall>x. x \<in> members m' ''healthy_nodes'' \<longleftrightarrow>
        x \<in> members m ''healthy_nodes'' \<and> x \<noteq> show_nat (n_ID node)) \<and>
     (\<forall>k. \<not> index_key k \<longrightarrow> k \<noteq> ''healthy_nodes'' \<longrightarrow> k \<noteq> NodeKey (n_ID node) \<longrightarrow>
        \<not> HasPrefix k ''usage:'' \<longrightarrow> m' k = m k)"

lemma RemoveNode_pipe_effect:
  fixes node
  assumes typed: "typed_sets m"
  shows "\<exists>m' r. apply_tx m (RemoveNode_pipe node) = (m', Inr r) \<and> remove_effect node m m'"
proof -
  let ?i = "show_nat (n_ID node)" and ?K = "set (nodeIndexKeys node)"
  let ?U = "{NodeUsageKey (n_ID node) ''upload'', NodeUsageKey (n_ID node) ''download'',
               NodeRequestsKey (n_ID node)}"
  let ?m1 = "m |` (- {NodeKey (n_ID node)})"
  let ?SR = "map (\<lambda>k. SREM k ?i) (nodeIndexKeys node)"
  have index: "index_key k" if "k \<in> ?K" for k using that by (rule nodeIndexKeys_index)
  have mem1: "members ?m1 k = members m k" "set_key ?m1 k" if "index_key k \<or> k = ''healthy_nodes''" for k
    using that typed by (auto simp: members_def typed_sets_def set_key_def restrict_map_def)
  have hk: "set_key ?m1 ''healthy_nodes''" using mem1(2) by blast
  obtain m2 r2 where m2: "apply_w ?m1 (SREM ''healthy_nodes'' ?i) = (m2, r2)"
    by (cases "apply_w ?m1 (SREM ''healthy_nodes'' ?i)")
  have e2: "set_effect (\<lambda>A. A - {?i}) {''healthy_nodes''} ?m1 (m2, r2)"
    using set_effect_SREM [OF hk, of ?i] m2 by simp
  obtain m3 r3 where m3: "apply_tx m2 ?SR = (m3, r3)" by (cases "apply_tx m2 ?SR")
  have e3: "set_effect (\<lambda>A. A - {?i}) ?K m2 (m3, r3)"
    using set_effect_SREMs [of "nodeIndexKeys node" m2 ?i] e2 mem1(2) index m3
    by (auto simp: set_effect_def set_frame_def)
  let ?m4 = "m3 |` (- ?U)"
  have U: "HasPrefix k ''usage:''" if "k \<in> ?U" for k
    using that by (auto simp: NodeUsageKey_def NodeRequestsKey_def HasPrefix_def)
  have notU: "k \<notin> ?U" if "index_key k \<or> k = ''healthy_nodes'' \<or> k = NodeKey j" for k j
    using that by (auto simp: NodeUsageKey_def NodeRequestsKey_def index_key_def HasPrefix_def NodeKey_def)
  have same4: "members ?m4 k = members m3 k" "set_key ?m4 k = set_key m3 k"
    if "index_key k \<or> k = ''healthy_nodes''" for k
  proof -
    have "?m4 k = m3 k" using notU [OF that [THEN disjI1 [of _ "k = NodeKey 0"], simplified disj_assoc]]
      by (simp add: restrict_map_def)
    then show "members ?m4 k = members m3 k" "set_key ?m4 k = set_key m3 k"
      by (simp_all add: members_def set_key_def)
  qed
  have frame: "m3 k = ?m1 k" if "\<not> index_key k" "k \<noteq> ''healthy_nodes''" for k
  proof -
    have "k \<notin> ?K" using that index by blast
    then show ?thesis using that e2 e3 by (simp add: set_effect_def)
  qed
  have "typed_sets ?m4"
    using mem1(2) same4(2) e2 e3 by (simp add: set_effect_def set_frame_def typed_sets_def)
  moreover have "x \<in> members ?m4 k \<longleftrightarrow> x \<in> members m k \<and> \<not> (x = ?i \<and> k \<in> ?K)"
    if "index_key k" for k x
  proof -
    have "k \<noteq> ''healthy_nodes''" using that by auto
    then have "members m2 k = members m k" using e2 mem1(1) [of k] that by (simp add: set_effect_def)
    with that same4(1) [of k] e3 show ?thesis by (auto simp: set_effect_def)
  qed
  moreover have "x \<in> members ?m4 ''healthy_nodes'' \<longleftrightarrow> x \<in> members m ''healthy_nodes'' \<and> x \<noteq> ?i" for x
  proof -
    have "''healthy_nodes'' \<notin> ?K" using index not_index_key(1) by blast
    then show ?thesis
      using mem1(1) [of "''healthy_nodes''"] same4(1) [of "''healthy_nodes''"] e2 e3
      by (simp add: set_effect_def)
  qed
  moreover have "?m4 (NodeKey (n_ID node)) = None"
    using frame [of "NodeKey (n_ID node)"] by (simp add: restrict_map_def)
  moreover have "?m4 k = m k"
    if "\<not> index_key k" "k \<noteq> ''healthy_nodes''" "k \<noteq> NodeKey (n_ID node)" "\<not> HasPrefix k ''usage:''" for k
    using that U [of k] frame [of k] by (auto simp: restrict_map_def)
  ultimately have "remove_effect node m ?m4"
    unfolding remove_effect_def by blast
  moreover have "apply_tx m (RemoveNode_pipe node) = (?m4, Inr RStatus)"
    using m2 m3 e2 e3
    by (auto simp: RemoveNode_pipe_eq apply_tx_append set_effect_def simp del: apply_w.simps(4-))
  ultimately show ?thesis by blast
qed

section \<open>Patterns\<close>

definition glob_char :: "char \<Rightarrow> bool" where
  "glob_char c \<longleftrightarrow> c \<noteq> CHR ''*'' \<and> c \<noteq> CHR ''?'' \<and> c \<noteq> CHR ''['' \<and> c \<noteq> CHR 0x5C"

declare glob.simps [simp del]

lemma glob_literal: "list_all glob_char p \<Longrightarrow> glob (p @ q) s \<longleftrightarrow> (\<exists>t. s = p @ t \<and> glob q t)"
proof (induction p arbitrary: s)
  case (Cons c p)
  then show ?case by (cases s) (auto simp: glob_char_def glob.simps(2) [of c])
qed simp

lemma glob_star: "glob (CHR ''*'' # p) s \<longleftrightarrow> (\<exists>a t. s = a @ t \<and> glob p t)"
proof (induction s)
  case Nil
  show ?case by (simp add: glob.simps(2))
next
  case (Cons c s)
  have "glob (CHR ''*'' # p) (c # s) \<longleftrightarrow> glob p (c # s) \<or> glob (CHR ''*'' # p) s"
    by (simp add: glob.simps(2))
  also have "\<dots> \<longleftrightarrow> (\<exists>a t. c # s = a @ t \<and> glob p t)"
    unfolding Cons.IH by (metis append_Cons append_Nil append_eq_Cons_conv)
  finally show ?case .
qed

lemma glob_prefix_star: "list_all glob_char p \<Longrightarrow> glob (p @ ''*'') s \<longleftrightarrow> HasPrefix s p"
  by (auto simp: glob_literal glob_star glob.simps(1) HasPrefix_iff)

lemma glob_sticky [simp]: "glob ''sticky:*'' s \<longleftrightarrow> HasPrefix s ''sticky:''"
  using glob_prefix_star [of "''sticky:''" s] by (simp add: glob_char_def)

section \<open>The operations against the contracts\<close>

definition sticky_on :: "keyspace \<Rightarrow> nat \<Rightarrow> string \<Rightarrow> bool" where
  "sticky_on m i k \<longleftrightarrow> HasPrefix k ''sticky:'' \<and> Uint64 (get_answer m k) = Inr i"

text \<open>The keyspace without the sticky sessions on a node.\<close>

definition unstick :: "keyspace \<Rightarrow> nat \<Rightarrow> keyspace" where
  "unstick m i = m |` (- {k. sticky_on m i k})"

context reliable
begin

lemma wp_LoadNode:
  assumes "\<And>r s'. view s' = view s \<Longrightarrow>
    (case r of Inr n \<Rightarrow> Some n | Inl _ \<Rightarrow> None) = cached J (st_keys (view s)) i \<Longrightarrow> Q r s'"
  shows "wp (LoadNode W J i) Q s"
  unfolding LoadNode_def wp_bind wp_return
  by (rule wp_redis_Get, rule assms) (auto simp: cached_def split: sum.splits)

lemma wp_sticky_keys_of:
  assumes "\<And>s'. view s' = view s \<Longrightarrow>
    Q (filter (\<lambda>k. Uint64 (get_answer (st_keys (view s)) k) = Inr i) ks) s'"
  shows "wp (sticky_keys_of W i ks) Q s"
  using assms
proof (induction ks arbitrary: Q s)
  case (Cons k ks)
  show ?case
    unfolding sticky_keys_of.simps wp_bind wp_return
    by (rule wp_redis_Get, rule Cons.IH, use Cons.prems in \<open>auto split: sum.splits if_splits\<close>)
qed simp

lemma wp_cleanupStickyForNode:
  assumes "\<And>s'. view s' = (view s)\<lparr>st_keys := unstick (st_keys (view s)) i\<rparr> \<Longrightarrow> Q None s'"
  shows "wp (cleanupStickyForNode W i) Q s"
proof -
  let ?m = "st_keys (view s)"
  let ?hit = "\<lambda>k. Uint64 (get_answer ?m k) = Inr i"
  have absent: "sticky_on ?m i k \<Longrightarrow> ?m k \<noteq> None" for k
    by (cases "?m k") (auto simp: sticky_on_def get_answer_def)
  note unstick_def [simp]
  have same: "set ks = {k. ?m k \<noteq> None \<and> HasPrefix k ''sticky:''} \<Longrightarrow>
      ?m |` (- set (filter ?hit ks)) = ?m |` (- {k. sticky_on ?m i k})" for ks
    by (rule ext) (auto simp: restrict_map_def sticky_on_def)
  show ?thesis
    unfolding cleanupStickyForNode_def wp_bind
  proof (rule wp_redis_Keys)
    fix ks s1
    assume v1: "view s1 = view s"
      and ks: "set ks = {k. st_keys (view s) k \<noteq> None \<and> glob ''sticky:*'' k}"
    show "wp (case Inr ks of Inl err \<Rightarrow> State_Monad.return (Some err)
         | Inr [] \<Rightarrow> State_Monad.return None
         | Inr (k # ks) \<Rightarrow> sticky_keys_of W i (k # ks) \<bind>
             (\<lambda>toDelete. if toDelete = [] then State_Monad.return None else redis_Del W toDelete)) Q s1"
    proof (cases ks)
      case Nil
      then have "?m |` (- {k. sticky_on ?m i k}) = ?m" using same [of ks] ks by simp
      then show ?thesis using Nil assms v1 by simp
    next
      case (Cons k ks')
      have "wp (sticky_keys_of W i ks)
          (\<lambda>td. wp (if td = [] then State_Monad.return None else redis_Del W td) Q) s1"
      proof (rule wp_sticky_keys_of)
        fix s2 assume v2: "view s2 = view s1"
        let ?td = "filter (\<lambda>k. Uint64 (get_answer (st_keys (view s1)) k) = Inr i) ks"
        have td: "?m |` (- set ?td) = ?m |` (- {k. sticky_on ?m i k})"
          using same [of ks] ks v1 by simp
        show "wp (if ?td = [] then State_Monad.return None else redis_Del W ?td) Q s2"
        proof (cases "?td = []")
          case True
          then have "?m |` (- {k. sticky_on ?m i k}) = ?m" using td by simp
          then show ?thesis using True assms v1 v2 by simp
        next
          case False
          then show ?thesis using assms td v1 v2 by (auto intro!: wp_redis_Del)
        qed
      qed
      then show ?thesis using Cons by simp
    qed
  qed
qed

lemma wp_CacheNode:
  assumes typed: "typed_sets (st_keys (view s))"
    and Q: "\<And>s' m1. cache_effect node
         (case cached J (st_keys (view s)) (n_ID node) of None \<Rightarrow> [] | Some p \<Rightarrow> nodeIndexKeys p)
         (Marshal J (to_cached node)) (st_keys (view s)) m1 \<Longrightarrow>
       view s' = (view s)\<lparr>st_keys := (if n_Healthy node \<and> \<not> n_Disabled node then m1
         else unstick m1 (n_ID node))\<rparr> \<Longrightarrow> Q None s'"
  shows "wp (CacheNode W J node) Q s"
  unfolding CacheNode_def wp_bind Let_def
proof (rule wp_LoadNode)
  fix r s1
  assume v1: "view s1 = view s"
    and r: "(case r of Inr n \<Rightarrow> Some n | Inl _ \<Rightarrow> None) = cached J (st_keys (view s)) (n_ID node)"
  let ?prev = "case r of Inr n \<Rightarrow> Some n | Inl _ \<Rightarrow> None"
  have prev: "(case r of Inl x \<Rightarrow> Map.empty x | Inr x \<Rightarrow> Some x) = ?prev" by (cases r) simp_all
  obtain m1 b where tx: "apply_tx (st_keys (view s)) (CacheNode_pipe node ?prev (Marshal J (to_cached node))) = (m1, Inr b)"
    and eff: "cache_effect node (case ?prev of None \<Rightarrow> [] | Some p \<Rightarrow> nodeIndexKeys p)
        (Marshal J (to_cached node)) (st_keys (view s)) m1"
    using CacheNode_pipe_effect [OF typed] by blast
  note eff' = eff [unfolded r]
  show "wp (redis_Exec W (CacheNode_pipe node ?prev (Marshal J (to_cached node))))
      (\<lambda>err. wp (case err of None \<Rightarrow> if \<not> n_Healthy node \<or> n_Disabled node
                    then cleanupStickyForNode W (n_ID node) else State_Monad.return None
                 | Some e \<Rightarrow> State_Monad.return (Some e)) Q) s1"
  proof (rule wp_redis_Exec)
    fix s2
    assume "view s2 = (view s1)\<lparr>st_keys := fst (apply_tx (st_keys (view s1))
        (CacheNode_pipe node ?prev (Marshal J (to_cached node))))\<rparr>"
    then have v2: "view s2 = (view s)\<lparr>st_keys := m1\<rparr>" using v1 tx by simp
    show "wp (case as_err (snd (apply_tx (st_keys (view s1))
          (CacheNode_pipe node ?prev (Marshal J (to_cached node))))) of
           None \<Rightarrow> if \<not> n_Healthy node \<or> n_Disabled node
                    then cleanupStickyForNode W (n_ID node) else State_Monad.return None
         | Some e \<Rightarrow> State_Monad.return (Some e)) Q s2"
      using v1 v2 tx Q [OF eff'] by (auto intro!: wp_cleanupStickyForNode)
  qed
qed

lemma wp_RemoveNode:
  assumes typed: "typed_sets (st_keys (view s))"
    and Q: "\<And>s' m1. remove_effect node (st_keys (view s)) m1 \<Longrightarrow>
       view s' = (view s)\<lparr>st_keys := unstick m1 (n_ID node)\<rparr> \<Longrightarrow> Q None s'"
  shows "wp (RemoveNode W node) Q s"
proof -
  obtain m1 b where tx: "apply_tx (st_keys (view s)) (RemoveNode_pipe node) = (m1, Inr b)"
    and eff: "remove_effect node (st_keys (view s)) m1"
    using RemoveNode_pipe_effect [OF typed] by blast
  show ?thesis
    unfolding RemoveNode_def wp_bind
    by (rule wp_redis_Exec) (auto simp: tx intro!: wp_cleanupStickyForNode Q [OF eff])
qed

end

text \<open>Deleting sticky keys touches no node, no index and no other key.\<close>

lemma drop_sticky:
  assumes "\<And>k. k \<in> D \<Longrightarrow> HasPrefix k ''sticky:''"
  shows "(m |` (- D)) (NodeKey j) = m (NodeKey j)"
    and "index_key k \<or> k = ''healthy_nodes'' \<Longrightarrow> (m |` (- D)) k = m k"
  using assms [of "NodeKey j"] assms [of k]
  by (auto simp: restrict_map_def HasPrefix_iff NodeKey_def index_key_def)

lemma cache_inv_cong:
  assumes "\<And>j. m' (NodeKey j) = m (NodeKey j)"
    and "\<And>k. index_key k \<or> k = ''healthy_nodes'' \<Longrightarrow> m' k = m k"
  shows "cache_inv J m' = cache_inv J m"
proof -
  have "indexed J m' i = indexed J m i" for i
    by (rule indexed_cong) (simp_all add: assms members_def)
  moreover have "typed_sets m' = typed_sets m"
    using assms(2) by (simp add: typed_sets_def set_key_def)
  moreover have "canonical m' = canonical m"
    unfolding canonical_def by (metis assms(2) members_def)
  ultimately show ?thesis by (simp add: cache_inv_def)
qed

lemma cache_inv_drop_sticky:
  assumes "\<And>k. k \<in> D \<Longrightarrow> HasPrefix k ''sticky:''"
  shows "cache_inv J (m |` (- D)) = cache_inv J m"
  by (rule cache_inv_cong; rule drop_sticky; use assms in blast)

lemma cached_drop_sticky:
  "(\<And>k. k \<in> D \<Longrightarrow> HasPrefix k ''sticky:'') \<Longrightarrow> cached J (m |` (- D)) i = cached J m i"
  by (rule cached_cong) (rule drop_sticky(1))

lemma from_to_cached: "from_cached ((to_cached n)\<lparr>c_ProxyNode := hide_secrets n\<rparr>) = n"
  by (simp add: from_cached_def to_cached_def hide_secrets_def)

lemma remove_effect_inv:
  assumes inv: "cache_inv J m" and eff: "remove_effect node m m'"
    and same: "\<And>p. cached J m (n_ID node) = Some p \<Longrightarrow> set (nodeIndexKeys p) \<subseteq> set (nodeIndexKeys node)"
  shows "cache_inv J m'"
proof -
  have gone: "cached J m' (n_ID node) = None"
    using eff by (simp add: cached_def get_answer_def remove_effect_def)
  have "indexed J m' i" for i
  proof (cases "i = n_ID node")
    case True
    have "indexed J m (n_ID node)" using inv by (simp add: cache_inv_def)
    with True eff gone same show ?thesis
      by (auto simp: indexed_def remove_effect_def split: option.splits)
  next
    case False
    have "m' (NodeKey i) = m (NodeKey i)"
      using eff False by (simp add: remove_effect_def)
    with eff False have "indexed J m' i = indexed J m i"
      by (intro indexed_cong) (auto simp: remove_effect_def)
    with inv show ?thesis by (simp add: cache_inv_def)
  qed
  moreover have "canonical m'"
    using inv eff unfolding cache_inv_def canonical_def remove_effect_def by metis
  ultimately show ?thesis using eff by (simp add: cache_inv_def remove_effect_def)
qed

context node_codec
begin

lemma cached_after:
  "json_safe n \<Longrightarrow> m (NodeKey i) = Some (VStr (Marshal J (to_cached n)) ttl) \<Longrightarrow> cached J m i = Some n"
  by (simp add: cached_def get_answer_def round_trip from_to_cached)

lemma cache_effect_inv:
  assumes inv: "cache_inv J m" and safe: "json_safe node"
    and eff: "cache_effect node (case cached J m (n_ID node) of None \<Rightarrow> [] | Some p \<Rightarrow> nodeIndexKeys p)
        (Marshal J (to_cached node)) m m'"
  shows "cache_inv J m'"
proof -
  have new: "cached J m' (n_ID node) = Some node"
    using eff safe by (auto simp: cache_effect_def intro: cached_after)
  have "indexed J m' i" for i
  proof (cases "i = n_ID node")
    case True
    have "indexed J m (n_ID node)" using inv by (simp add: cache_inv_def)
    with True eff new show ?thesis
      by (auto simp: indexed_def cache_effect_def split: option.splits)
  next
    case False
    with eff have "indexed J m' i = indexed J m i"
      by (intro indexed_cong) (auto simp: cache_effect_def)
    with inv show ?thesis by (simp add: cache_inv_def)
  qed
  moreover have "canonical m'"
    using inv eff safe unfolding cache_inv_def canonical_def cache_effect_def json_safe_def by metis
  ultimately show ?thesis using eff by (simp add: cache_inv_def cache_effect_def)
qed

end

section \<open>A coding that keeps the contract\<close>

text \<open>
  The fields in the order of the record, each as its length, a colon and its bytes.
\<close>

fun frames :: "string list \<Rightarrow> string" where
  "frames [] = []"
| "frames (x # xs) = show_nat (length x) @ '':'' @ x @ frames xs"

primrec unframes :: "nat \<Rightarrow> string \<Rightarrow> string list" where
  "unframes 0 s = []"
| "unframes (Suc n) s =
     (let (len, body, _) = Cut s '':'';
          k = (case parse_nat len of None \<Rightarrow> 0 | Some k \<Rightarrow> k)
      in take k body # unframes n (drop k body))"

definition read_nat :: "string \<Rightarrow> nat" where
  "read_nat s = (case parse_nat s of None \<Rightarrow> 0 | Some n \<Rightarrow> n)"

definition read_int :: "string \<Rightarrow> int" where
  "read_int s = (if HasPrefix s ''-'' then - int (read_nat (tl s)) else int (read_nat s))"

definition show_flag :: "bool \<Rightarrow> string" where
  "show_flag b = (if b then ''true'' else ''false'')"

definition write_fields :: "cachedNode \<Rightarrow> string list" where
  "write_fields c = (let n = c_ProxyNode c in
     [show_nat (n_ID n), n_NodeKey n, n_Protocol n, n_Host n, Itoa (n_Port n),
      show_flag (n_TLSEnabled n), show_flag (n_TLSSkipVerify n), n_ServerName n, n_Tag n,
      n_ExpectedRegion n, n_DetectedRegion n, n_City n, n_Country n, n_ASN n, n_Org n, n_ISP n,
      n_ExitIP n, Itoa (n_LatencyMS n), show_flag (n_Healthy n), show_flag (n_Disabled n),
      Itoa (n_FailCount n), (case n_LastCheckAt n of None \<Rightarrow> ''null'' | Some t \<Rightarrow> Itoa t),
      show_nat (n_SubscriptionID n), n_RawJSON n, Itoa (n_UploadBytes n),
      Itoa (n_DownloadBytes n), Itoa (n_TotalRequests n),
      c_UpstreamUsernameEnc c, c_UpstreamPasswordEnc c])"

definition read_fields :: "string list \<Rightarrow> cachedNode" where
  "read_fields f = \<lparr>c_ProxyNode = \<lparr>n_ID = read_nat (f ! 0), n_NodeKey = f ! 1, n_Protocol = f ! 2,
       n_Host = f ! 3, n_Port = read_int (f ! 4), n_UpstreamUsernameEnc = [],
       n_UpstreamPasswordEnc = [], n_TLSEnabled = (f ! 5 = ''true''),
       n_TLSSkipVerify = (f ! 6 = ''true''), n_ServerName = f ! 7, n_Tag = f ! 8,
       n_ExpectedRegion = f ! 9, n_DetectedRegion = f ! 10, n_City = f ! 11, n_Country = f ! 12,
       n_ASN = f ! 13, n_Org = f ! 14, n_ISP = f ! 15, n_ExitIP = f ! 16,
       n_LatencyMS = read_int (f ! 17), n_Healthy = (f ! 18 = ''true''),
       n_Disabled = (f ! 19 = ''true''), n_FailCount = read_int (f ! 20),
       n_LastCheckAt = (if f ! 21 = ''null'' then None else Some (read_int (f ! 21))),
       n_SubscriptionID = read_nat (f ! 22), n_RawJSON = f ! 23, n_UploadBytes = read_int (f ! 24),
       n_DownloadBytes = read_int (f ! 25), n_TotalRequests = read_int (f ! 26)\<rparr>,
     c_UpstreamUsernameEnc = f ! 27, c_UpstreamPasswordEnc = f ! 28\<rparr>"

definition mem_json :: node_json where
  "mem_json = \<lparr>Marshal = (\<lambda>c. frames (write_fields c)),
     Unmarshal = (\<lambda>s. if HasPrefix s ''{'' then Inl (ExtErr ''json: not a node'')
                      else Inr (read_fields (unframes 29 s)))\<rparr>"

lemma colon_not_digit: "CHR '':'' \<notin> set (show_nat n)"
  using show_nat_digits not_is_digit_sign(3) by blast

lemma unframes_frames: "unframes (length xs) (frames xs) = xs"
proof (induction xs)
  case (Cons x xs)
  have "cut_at (show_nat (length x) @ '':'' @ x @ frames xs) '':'' = Some (show_nat (length x), x @ frames xs)"
    using cut_at_first [OF colon_not_digit, of "length x" "[]"] by simp
  then show ?case by (simp add: Cut_def Cons.IH)
qed simp

lemma read_nat_show [simp]: "read_nat (show_nat n) = n"
  by (simp add: read_nat_def)

lemma read_int_Itoa [simp]: "read_int (Itoa i) = i"
proof (cases "i < 0")
  case False
  obtain c t where "show_nat (nat i) = c # t" "is_digit c" using show_nat_hd by blast
  then have "\<not> HasPrefix (show_nat (nat i)) ''-''" by (auto simp: HasPrefix_def)
  then show ?thesis using False by (simp add: read_int_def Itoa_def)
qed (simp add: read_int_def Itoa_def HasPrefix_def)

lemma show_flag_eq [simp]: "show_flag b = ''true'' \<longleftrightarrow> b"
  by (simp add: show_flag_def)

lemma Itoa_not_null [simp]: "Itoa i \<noteq> ''null''"
proof -
  obtain c t where "show_nat (nat i) = c # t" "is_digit c" using show_nat_hd by blast
  then show ?thesis by (auto simp: Itoa_def is_digit_def byte_of_def)
qed

lemma frames_head: "\<not> HasPrefix (frames (show_nat n # xs)) ''{''"
proof -
  obtain c t where "show_nat (length (show_nat n)) = c # t" "is_digit c" using show_nat_hd by blast
  then show ?thesis by (auto simp: HasPrefix_def is_digit_def byte_of_def)
qed

lemma read_write: "read_fields (write_fields (to_cached n)) = (to_cached n)\<lparr>c_ProxyNode := hide_secrets n\<rparr>"
  by (cases n)
    (simp add: read_fields_def write_fields_def to_cached_def hide_secrets_def split: option.splits)

interpretation mem_codec: node_codec mem_json
proof unfold_locales
  fix n
  have "length (write_fields (to_cached n)) = 29" by (simp add: write_fields_def Let_def)
  moreover have "\<not> HasPrefix (frames (write_fields (to_cached n))) ''{''"
    using frames_head by (simp add: write_fields_def Let_def del: frames.simps)
  ultimately show "Unmarshal mem_json (Marshal mem_json (to_cached n)) = Inr ((to_cached n)\<lparr>c_ProxyNode := hide_secrets n\<rparr>)"
    using unframes_frames [of "write_fields (to_cached n)"]
    by (simp add: mem_json_def read_write)
qed

section \<open>The cache touches no table\<close>

context backend
begin

lemma redis_calls_keep_tables:
  "keeps (tables view) (redis_Get W k)" "keeps (tables view) (redis_Keys W p)"
  "keeps (tables view) (redis_Set W k v ttl)"
  "keeps (tables view) (redis_Del W ks)" "keeps (tables view) (redis_Exec W cs)"
  unfolding redis_Get_def redis_Keys_def redis_Set_def redis_Del_def redis_Exec_def
  by (auto intro!: keeps_bind redis_keeps_tables)

lemma sticky_keys_of_keeps_tables: "keeps (tables view) (sticky_keys_of W i ks)"
  by (induction ks) (auto intro!: keeps_bind redis_calls_keep_tables)

lemma cleanupStickyForNode_keeps_tables: "keeps (tables view) (cleanupStickyForNode W i)"
  unfolding cleanupStickyForNode_def
  by (auto intro!: keeps_bind redis_calls_keep_tables sticky_keys_of_keeps_tables simp del: sticky_keys_of.simps
      split: sum.splits list.splits)

lemma LoadNode_keeps_tables: "keeps (tables view) (LoadNode W J i)"
  unfolding LoadNode_def by (auto intro!: keeps_bind redis_calls_keep_tables)

lemma cache_keeps_tables:
  "keeps (tables view) (CacheNode W J node)" "keeps (tables view) (RemoveNode W node)"
  unfolding CacheNode_def RemoveNode_def Let_def
  by (auto intro!: keeps_bind redis_calls_keep_tables cleanupStickyForNode_keeps_tables LoadNode_keeps_tables
      split: option.splits)

lemma wp_keeps_tables:
  assumes "keeps (tables view) m" and "\<And>r s'. tables view s' = tables view s \<Longrightarrow> Q r s'"
  shows "wp m Q s"
  by (rule wp_keeps [OF assms(1)]) (rule assms(2))

end

section \<open>The cache of the nodes is coherent\<close>

lemma sticky_gone [simp]: "\<not> sticky_on (unstick m i) i k"
proof (cases "sticky_on m i k")
  case True
  then show ?thesis by (simp add: unstick_def sticky_on_def get_answer_def restrict_map_def)
next
  case False
  then show ?thesis by (simp add: unstick_def sticky_on_def get_answer_def restrict_map_def)
qed

lemma unstick [simp]:
  "cache_inv J (unstick m i) = cache_inv J m" "cached J (unstick m i) j = cached J m j"
  unfolding unstick_def
  by (rule cache_inv_drop_sticky cached_drop_sticky; simp add: sticky_on_def)+

lemma restrict_only: "[k \<mapsto> v] |` (- {k}) = Map.empty"
  by (rule ext) (simp add: restrict_map_def)

definition mem0 :: mem where
  "mem0 = \<lparr>mem_dom = [], mem_map = Map.empty, mem_users = [], mem_nodes = [], mem_subs = [],
     mem_links = [], mem_audit = [], mem_now = 0, mem_seed = 0, mem_conns = []\<rparr>"

lemma mem0_view [simp]: "st_keys (mem_view mem0) = Map.empty"
  by (simp add: mem0_def mem_view_def mem_keys_def)

lemma cache_inv_empty [simp]: "cache_inv J Map.empty"
  by (simp add: cache_inv_def canonical_def typed_sets_def set_key_def indexed_def members_def cached_def
      get_answer_def)

definition node7 :: ProxyNode where
  "node7 = zero_node\<lparr>n_ID := 7, n_Host := ''h'', n_Port := 1080, n_ExpectedRegion := ''JP'',
     n_UpstreamPasswordEnc := ''enc'', n_Healthy := True\<rparr>"

lemma node7_safe [simp]: "json_safe node7"
  by (simp add: node7_def zero_node_def json_safe_def node_strings_def node_ints_def int64_range_def byte_of_def)

lemma wp_CacheNode_coherent:
  assumes "reliable W view" and "node_codec J" and "json_safe node" and "cache_inv J (st_keys (view s))"
    and Q: "\<And>s'. \<exists>m. view s' = (view s)\<lparr>st_keys := m\<rparr> \<Longrightarrow> cache_inv J (st_keys (view s')) \<Longrightarrow>
      cached J (st_keys (view s')) (n_ID node) = Some node \<Longrightarrow>
      (\<And>i. i \<noteq> n_ID node \<Longrightarrow> cached J (st_keys (view s')) i = cached J (st_keys (view s)) i) \<Longrightarrow>
      (\<not> n_Healthy node \<or> n_Disabled node \<longrightarrow> (\<forall>k. \<not> sticky_on (st_keys (view s')) (n_ID node) k)) \<Longrightarrow> Q None s'"
  shows "wp (CacheNode W J node) Q s"
proof (rule reliable.wp_CacheNode [OF assms(1)])
  show "typed_sets (st_keys (view s))" using assms(4) by (simp add: cache_inv_def)
next
  fix s' m1
  assume eff: "cache_effect node
      (case cached J (st_keys (view s)) (n_ID node) of None \<Rightarrow> [] | Some p \<Rightarrow> nodeIndexKeys p)
      (Marshal J (to_cached node)) (st_keys (view s)) m1"
    and v: "view s' = (view s)\<lparr>st_keys := (if n_Healthy node \<and> \<not> n_Disabled node then m1
      else unstick m1 (n_ID node))\<rparr>"
  have inv: "cache_inv J m1" by (rule node_codec.cache_effect_inv [OF assms(2,4,3) eff])
  have own: "cached J m1 (n_ID node) = Some node"
    using eff by (auto simp: cache_effect_def intro: node_codec.cached_after [OF assms(2,3)])
  have other: "cached J m1 i = cached J (st_keys (view s)) i" if "i \<noteq> n_ID node" for i
    using eff that by (intro cached_cong) (simp add: cache_effect_def)
  show "Q None s'"
    by (rule Q) (use inv own other in \<open>auto simp: v\<close>)
qed

text \<open>
  C10: Caching a node succeeds, keeps the indexes coherent (an id is in exactly the index sets of
  its cached node, and in \<^verbatim>\<open>healthy_nodes\<close> exactly when that node is healthy and enabled), leaves
  the cached nodes of the other ids alone, and a node cached as unhealthy or disabled is the
  target of no sticky session.
\<close>

theorem CacheNode_coherent:
  assumes "reliable W view" and "node_codec J" and "json_safe node"
    and "cache_inv J (st_keys (view s))"
  shows "wp (CacheNode W J node) (\<lambda>err s'. err = None \<and>
     cache_inv J (st_keys (view s')) \<and>
     cached J (st_keys (view s')) (n_ID node) = Some node \<and>
     (\<forall>i. i \<noteq> n_ID node \<longrightarrow> cached J (st_keys (view s')) i = cached J (st_keys (view s)) i) \<and>
     (\<not> n_Healthy node \<or> n_Disabled node \<longrightarrow> (\<forall>k. \<not> sticky_on (st_keys (view s')) (n_ID node) k))) s"
  by (rule wp_CacheNode_coherent [OF assms]) simp

theorem CacheNode_coherent_witness:
  "wp (CacheNode mem_world mem_json (node7\<lparr>n_Healthy := False\<rparr>)) (\<lambda>err s'. err = None \<and>
     cached mem_json (st_keys (mem_view s')) 7 = Some (node7\<lparr>n_Healthy := False\<rparr>)) mem0"
proof -
  have "json_safe (node7\<lparr>n_Healthy := False\<rparr>)"
    using node7_safe by (simp add: json_safe_def node_strings_def node_ints_def)
  then have "wp (CacheNode mem_world mem_json (node7\<lparr>n_Healthy := False\<rparr>)) (\<lambda>err s'. err = None \<and>
     cached mem_json (st_keys (mem_view s')) (n_ID (node7\<lparr>n_Healthy := False\<rparr>)) = Some (node7\<lparr>n_Healthy := False\<rparr>)) mem0"
    by (intro wp_mono [OF CacheNode_coherent [OF mem.reliable_axioms mem_codec.node_codec_axioms]]) auto
  then show ?thesis by (simp add: node7_def)
qed


lemma one_sticky:
  assumes "HasPrefix k ''sticky:''"
  shows "cache_inv J [k \<mapsto> v]" and "cached J [k \<mapsto> v] i = None"
  using cache_inv_drop_sticky [of "{k}" J "[k \<mapsto> v]"] cached_drop_sticky [of "{k}" J "[k \<mapsto> v]" i] assms
  by (simp_all add: restrict_only cached_def get_answer_def)

definition mem1 :: "string \<Rightarrow> rval \<Rightarrow> mem" where
  "mem1 k v = mem0\<lparr>mem_dom := [k], mem_map := [k \<mapsto> v]\<rparr>"

lemma mem1_view [simp]: "st_keys (mem_view (mem1 k v)) = [k \<mapsto> v]"
  by (simp add: mem1_def mem0_def mem_view_def mem_keys_def restrict_map_def fun_eq_iff)


text \<open>
  C39: What was cached is what is loaded, the upstream credentials (which \<^verbatim>\<open>model.ProxyNode\<close> hides
  from JSON) included.
\<close>

theorem CacheNode_LoadNode:
  assumes "reliable W view" and "node_codec J" and "json_safe node" and "typed_sets (st_keys (view s))"
  shows "wp (do { _ \<leftarrow> CacheNode W J node; LoadNode W J (n_ID node) }) (\<lambda>r s'. r = Inr node) s"
  unfolding wp_bind
proof (rule reliable.wp_CacheNode [OF assms(1,4)])
  fix s1 m1 keys
  assume eff: "cache_effect node keys (Marshal J (to_cached node)) (st_keys (view s)) m1"
    and v: "view s1 = (view s)\<lparr>st_keys := (if n_Healthy node \<and> \<not> n_Disabled node then m1
      else unstick m1 (n_ID node))\<rparr>"
  have "cached J m1 (n_ID node) = Some node"
    using eff by (auto simp: cache_effect_def intro: node_codec.cached_after [OF assms(2,3)])
  then have "cached J (st_keys (view s1)) (n_ID node) = Some node" by (simp add: v)
  then show "wp (LoadNode W J (n_ID node)) (\<lambda>r s'. r = Inr node) s1"
    by (intro reliable.wp_LoadNode [OF assms(1)]) (auto split: sum.splits)
qed

theorem CacheNode_LoadNode_witness:
  "wp (do { _ \<leftarrow> CacheNode mem_world mem_json node7; LoadNode mem_world mem_json 7 }) (\<lambda>r s'. r = Inr node7) mem0"
  using CacheNode_LoadNode [OF mem.reliable_axioms mem_codec.node_codec_axioms node7_safe, of mem0]
  by (simp add: typed_sets_def set_key_def node7_def)

lemma members_unstick: "index_key k \<Longrightarrow> members (unstick m i) k = members m k"
  unfolding unstick_def members_def
  by (subst drop_sticky(2)) (auto simp: sticky_on_def)

text \<open>
  The cache entry of a node lives a day, its index memberships for ever.  Once the entry is
  gone, caching the node again removes none of the old memberships: the node stays in the set of
  a region (city, ASN, ISP) it has left.
\<close>

theorem CacheNode_keeps_stale_index:
  assumes "reliable W view" and "typed_sets (st_keys (view s))"
    and "cached J (st_keys (view s)) (n_ID node) = None"
    and "index_key k" and "show_nat (n_ID node) \<in> members (st_keys (view s)) k"
  shows "wp (CacheNode W J node)
    (\<lambda>err s'. err = None \<and> show_nat (n_ID node) \<in> members (st_keys (view s')) k) s"
proof (rule reliable.wp_CacheNode [OF assms(1,2)])
  fix s' m1
  assume "cache_effect node (case cached J (st_keys (view s)) (n_ID node) of None \<Rightarrow> [] | Some p \<Rightarrow> nodeIndexKeys p)
      (Marshal J (to_cached node)) (st_keys (view s)) m1"
    and v: "view s' = (view s)\<lparr>st_keys := (if n_Healthy node \<and> \<not> n_Disabled node then m1
      else unstick m1 (n_ID node))\<rparr>"
  with assms(3-5) have "show_nat (n_ID node) \<in> members m1 k" by (simp add: cache_effect_def)
  then show "None = None \<and> show_nat (n_ID node) \<in> members (st_keys (view s')) k"
    using assms(4) by (simp add: v members_unstick)
qed

lemma one_set:
  assumes "index_key k"
  shows "typed_sets [k \<mapsto> VSet xs]" and "cached J [k \<mapsto> VSet xs] i = None"
  using assms by (auto simp: typed_sets_def set_key_def cached_def get_answer_def)

theorem CacheNode_keeps_stale_index_witness:
  "wp (CacheNode mem_world mem_json node7)
     (\<lambda>err s'. err = None \<and> show_nat 7 \<in> members (st_keys (mem_view s')) (RegionKey ''US''))
     (mem1 (RegionKey ''US'') (VSet [show_nat 7]))"
proof -
  have index: "index_key (RegionKey ''US'')" by (simp add: index_key_def RegionKey_def HasPrefix_def)
  then show ?thesis
    using CacheNode_keeps_stale_index [OF mem.reliable_axioms, of "mem1 (RegionKey ''US'') (VSet [show_nat 7])"
        mem_json node7 "RegionKey ''US''"] one_set [OF index]
    by (simp add: members_def node7_def)
qed

end
