(* ===== verification/Base64.thy ===== *)
theory Base64
  imports GoLib
begin

text \<open>
  Package \<^verbatim>\<open>encoding/base64\<close> of the Go library, as the code uses it: the standard and the URL
  alphabet, with padding (\<^verbatim>\<open>StdEncoding\<close>, \<^verbatim>\<open>URLEncoding\<close>) and without (\<^verbatim>\<open>RawStdEncoding\<close>,
  \<^verbatim>\<open>RawURLEncoding\<close>).  Decoding is not strict: line ends are skipped, the unused bits of the last
  character ignored.  \<open>None\<close> is a \<^verbatim>\<open>CorruptInputError\<close>.
\<close>

section \<open>The alphabets\<close>

record b64_encoding =
  b64_alphabet :: string
  b64_padded :: bool

abbreviation b64_common :: string where
  "b64_common \<equiv> ''ABCDEFGHIJKLMNOPQRSTUVWXYZabcdefghijklmnopqrstuvwxyz0123456789''"

definition StdEncoding :: b64_encoding where
  "StdEncoding = \<lparr>b64_alphabet = b64_common @ ''+/'', b64_padded = True\<rparr>"

definition RawStdEncoding :: b64_encoding where
  "RawStdEncoding = \<lparr>b64_alphabet = b64_common @ ''+/'', b64_padded = False\<rparr>"

definition URLEncoding :: b64_encoding where
  "URLEncoding = \<lparr>b64_alphabet = b64_common @ ''-_'', b64_padded = True\<rparr>"

definition RawURLEncoding :: b64_encoding where
  "RawURLEncoding = \<lparr>b64_alphabet = b64_common @ ''-_'', b64_padded = False\<rparr>"

definition b64_char :: "b64_encoding \<Rightarrow> nat \<Rightarrow> char" where
  "b64_char E n = b64_alphabet E ! n"

fun position :: "char \<Rightarrow> string \<Rightarrow> nat option" where
  "position c [] = None"
| "position c (d # s) = (if c = d then Some 0 else map_option Suc (position c s))"

definition b64_val :: "b64_encoding \<Rightarrow> char \<Rightarrow> nat option" where
  "b64_val E c = position c (b64_alphabet E)"

section \<open>Coding\<close>

definition b64_pad :: "b64_encoding \<Rightarrow> string \<Rightarrow> string" where
  "b64_pad E s = (if b64_padded E then s else [])"

fun EncodeToString :: "b64_encoding \<Rightarrow> string \<Rightarrow> string" where
  "EncodeToString E (x # y # z # s) =
     (let v = byte_of x * 65536 + byte_of y * 256 + byte_of z
      in b64_char E (v div 262144) # b64_char E (v div 4096 mod 64) # b64_char E (v div 64 mod 64)
         # b64_char E (v mod 64) # EncodeToString E s)"
| "EncodeToString E [x, y] =
     (let v = byte_of x * 65536 + byte_of y * 256
      in [b64_char E (v div 262144), b64_char E (v div 4096 mod 64), b64_char E (v div 64 mod 64)]
         @ b64_pad E ''='')"
| "EncodeToString E [x] =
     (let v = byte_of x * 65536
      in [b64_char E (v div 262144), b64_char E (v div 4096 mod 64)] @ b64_pad E ''=='')"
| "EncodeToString E [] = []"

definition quantum :: "nat \<Rightarrow> nat \<Rightarrow> nat \<Rightarrow> nat \<Rightarrow> string" where
  "quantum a b c d =
     (let v = a * 262144 + b * 4096 + c * 64 + d
      in [char_of (v div 65536), char_of (v div 256 mod 256), char_of (v mod 256)])"

fun decode_chars :: "b64_encoding \<Rightarrow> string \<Rightarrow> string option" where
  "decode_chars E (a # b # c # d # s) =
     (case (b64_val E a, b64_val E b, b64_val E c, b64_val E d) of
        (Some i, Some j, Some k, Some l) \<Rightarrow> map_option (\<lambda>t. quantum i j k l @ t) (decode_chars E s)
      | (Some i, Some j, Some k, None) \<Rightarrow>
          if b64_padded E \<and> d = CHR ''='' \<and> s = [] then Some (take 2 (quantum i j k 0)) else None
      | (Some i, Some j, None, None) \<Rightarrow>
          if b64_padded E \<and> c = CHR ''='' \<and> d = CHR ''='' \<and> s = [] then Some (take 1 (quantum i j 0 0))
          else None
      | _ \<Rightarrow> None)"
| "decode_chars E [a, b, c] =
     (case (b64_val E a, b64_val E b, b64_val E c) of
        (Some i, Some j, Some k) \<Rightarrow> if b64_padded E then None else Some (take 2 (quantum i j k 0))
      | _ \<Rightarrow> None)"
| "decode_chars E [a, b] =
     (case (b64_val E a, b64_val E b) of
        (Some i, Some j) \<Rightarrow> if b64_padded E then None else Some (take 1 (quantum i j 0 0))
      | _ \<Rightarrow> None)"
| "decode_chars E [a] = None"
| "decode_chars E [] = Some []"

definition DecodeString :: "b64_encoding \<Rightarrow> string \<Rightarrow> string option" where
  "DecodeString E s = decode_chars E (filter (\<lambda>c. c \<noteq> CHR 0x0A \<and> c \<noteq> CHR 0x0D) s)"

section \<open>Decoding what was encoded\<close>

definition b64_ok :: "b64_encoding \<Rightarrow> bool" where
  "b64_ok E \<longleftrightarrow> length (b64_alphabet E) = 64 \<and> distinct (b64_alphabet E) \<and>
     list_all (\<lambda>c. c \<noteq> CHR ''='' \<and> c \<noteq> CHR 0x0A \<and> c \<noteq> CHR 0x0D) (b64_alphabet E)"

lemma b64_ok [simp]: "b64_ok StdEncoding" "b64_ok RawStdEncoding" "b64_ok URLEncoding" "b64_ok RawURLEncoding"
  by (simp_all add: b64_ok_def StdEncoding_def RawStdEncoding_def URLEncoding_def RawURLEncoding_def)

lemma position_nth: "distinct s \<Longrightarrow> n < length s \<Longrightarrow> position (s ! n) s = Some n"
  by (induction s arbitrary: n) (auto simp: nth_Cons' split: nat.splits)

lemma position_absent: "c \<notin> set s \<Longrightarrow> position c s = None"
  by (induction s) auto

lemma b64_val_char: "b64_ok E \<Longrightarrow> n < 64 \<Longrightarrow> b64_val E (b64_char E n) = Some n"
  by (simp add: b64_val_def b64_char_def b64_ok_def position_nth)

lemma b64_val_pad: "b64_ok E \<Longrightarrow> b64_val E (CHR ''='') = None"
  by (auto simp: b64_val_def b64_ok_def list_all_iff intro: position_absent)

lemma b64_char_plain: "b64_ok E \<Longrightarrow> n < 64 \<Longrightarrow> b64_char E n \<noteq> CHR 0x0A \<and> b64_char E n \<noteq> CHR 0x0D"
  by (auto simp: b64_char_def b64_ok_def list_all_length)

lemma byte_of_less [simp]: "byte_of c < 256"
  by (simp add: byte_of_def)

lemma char_of_byte [simp]: "char_of (byte_of c) = c"
  by (simp add: byte_of_def)

lemma sextet_sum:
  "v div 262144 * 262144 + v div 4096 mod 64 * 4096 + v div 64 mod 64 * 64 + v mod 64 = (v :: nat)"
proof -
  define a b c where "a = v div 64" "b = a div 64" "c = b div 64"
  define r0 r1 r2 where "r0 = v mod 64" "r1 = a mod 64" "r2 = b mod 64"
  have "v div 4096 = b" using div_mult2_eq [of v 64 64] by (simp add: a_b_c_def)
  moreover have "v div 262144 = c" using div_mult2_eq [of v 4096 64] calculation by (simp add: a_b_c_def)
  moreover have v: "v = a * 64 + r0" and a: "a = b * 64 + r1" and b: "b = c * 64 + r2"
    by (simp_all add: a_b_c_def r0_r1_r2_def)
  have "c * 262144 + r2 * 4096 + r1 * 64 + r0 = v" unfolding v a b by simp
  ultimately show ?thesis by (simp flip: a_b_c_def(1) r0_r1_r2_def)
qed

lemma quantum_bytes:
  assumes "x < 256" "y < 256" "z < 256" and v: "v = x * 65536 + y * 256 + (z :: nat)"
  shows "quantum (v div 262144) (v div 4096 mod 64) (v div 64 mod 64) (v mod 64)
    = [char_of x, char_of y, char_of z]"
proof -
  note sum = sextet_sum [of v]
  have d1: "v div 65536 = x" by (rule div_nat_eqI) (use assms in \<open>simp_all\<close>)
  have d2: "v div 256 = x * 256 + y" by (rule div_nat_eqI) (use assms in \<open>simp_all\<close>)
  have d3: "(x * 256 + y) div 256 = x" by (rule div_nat_eqI) (use assms in \<open>simp_all\<close>)
  have "v div 256 mod 256 = y" "v mod 256 = z"
    using d2 d3 v div_mult_mod_eq [of v 256] div_mult_mod_eq [of "x * 256 + y" 256] by simp_all
  with sum d1 show ?thesis by (simp only: quantum_def Let_def)
qed

lemma sextets:
  assumes "x < 256" "y < 256" "z < 256" and v: "v = x * 65536 + y * 256 + (z :: nat)"
  shows "v div 262144 < 64"
  using assms by (intro less_mult_imp_div_less) linarith

text \<open>The last, shorter groups: the bits that are missing are zero in the sum.\<close>

lemma low_sextet: "(x * 65536 + y * 256) mod 64 = (0::nat)" "x * 65536 div 64 mod 64 = (0::nat)"
  "x * 65536 mod 64 = (0::nat)"
proof -
  have "(x * 65536 + y * 256) = 64 * (x * 1024 + y * 4)" "x * 65536 = 64 * (64 * (16 * x))" by simp_all
  then show "(x * 65536 + y * 256) mod 64 = (0::nat)" "x * 65536 div 64 mod 64 = (0::nat)"
    "x * 65536 mod 64 = (0::nat)" by (metis mod_mult_self1_is_0 nonzero_mult_div_cancel_left zero_neq_numeral)+
qed

lemma decode_encode_chars: "b64_ok E \<Longrightarrow> decode_chars E (EncodeToString E s) = Some s"
proof (induction E s rule: EncodeToString.induct)
  case (1 E x y z s)
  let ?v = "byte_of x * 65536 + byte_of y * 256 + byte_of z"
  have "?v div 262144 < 64" by (rule sextets [OF byte_of_less byte_of_less byte_of_less refl])
  with 1 show ?case
    by (simp add: Let_def b64_val_char quantum_bytes [OF byte_of_less byte_of_less byte_of_less refl])
next
  case (2 E x y)
  let ?v = "byte_of x * 65536 + byte_of y * 256"
  have "?v div 262144 < 64" using sextets [of "byte_of x" "byte_of y" 0] by simp
  with 2 show ?case
    using quantum_bytes [of "byte_of x" "byte_of y" 0 ?v]
    by (simp add: Let_def b64_val_char b64_val_pad b64_pad_def low_sextet)
next
  case (3 E x)
  let ?v = "byte_of x * 65536"
  have "?v div 262144 < 64" using sextets [of "byte_of x" 0 0] by simp
  with 3 show ?case
    using quantum_bytes [of "byte_of x" 0 0 ?v]
    by (simp add: Let_def b64_val_char b64_val_pad b64_pad_def low_sextet)
qed simp

lemma encode_plain:
  "b64_ok E \<Longrightarrow> filter (\<lambda>c. c \<noteq> CHR 0x0A \<and> c \<noteq> CHR 0x0D) (EncodeToString E s) = EncodeToString E s"
proof (induction E s rule: EncodeToString.induct)
  case (1 E x y z s)
  have "(byte_of x * 65536 + byte_of y * 256 + byte_of z) div 262144 < 64"
    by (rule sextets [OF byte_of_less byte_of_less byte_of_less refl])
  with 1 show ?case by (simp add: Let_def b64_char_plain)
next
  case (2 E x y)
  have "(byte_of x * 65536 + byte_of y * 256) div 262144 < 64"
    using sextets [of "byte_of x" "byte_of y" 0] by simp
  with 2 show ?case by (simp add: Let_def b64_char_plain b64_pad_def)
next
  case (3 E x)
  have "byte_of x * 65536 div 262144 < 64" using sextets [of "byte_of x" 0 0] by simp
  with 3 show ?case by (simp add: Let_def b64_char_plain b64_pad_def)
qed simp

lemma DecodeString_Encode [simp]: "b64_ok E \<Longrightarrow> DecodeString E (EncodeToString E s) = Some s"
  by (simp add: DecodeString_def encode_plain decode_encode_chars)

lemma EncodeToString_eq_Nil [simp]: "EncodeToString E s = [] \<longleftrightarrow> s = []"
  by (cases "(E, s)" rule: EncodeToString.cases) (auto simp: Let_def)

section \<open>Decoding with another alphabet\<close>

text \<open>
  An encoding reads the characters of another as the same numbers or not at all; so it decodes
  what the other has encoded, or rejects it.
\<close>

definition b64_agree :: "b64_encoding \<Rightarrow> b64_encoding \<Rightarrow> bool" where
  "b64_agree E E' \<longleftrightarrow> b64_ok E \<and> b64_ok E' \<and> (\<forall>n<64. b64_val E (b64_char E' n) \<in> {None, Some n})"

lemma b64_agreeD: "b64_agree E E' \<Longrightarrow> n < 64 \<Longrightarrow> b64_val E (b64_char E' n) = None \<or> b64_val E (b64_char E' n) = Some n"
  by (auto simp: b64_agree_def)

lemma b64_char_no_pad: "b64_agree E E' \<Longrightarrow> n < 64 \<Longrightarrow> b64_char E' n \<noteq> CHR ''=''"
  by (auto simp: b64_agree_def b64_char_def b64_ok_def list_all_length)

lemma decode_four:
  assumes "b64_agree E E'" and n: "a < 64" "b < 64" "c < 64" "d < 64" and "decode_chars E s' \<in> {None, Some s}"
  shows "decode_chars E (b64_char E' a # b64_char E' b # b64_char E' c # b64_char E' d # s')
    \<in> {None, Some (quantum a b c d @ s)}"
  using assms(6) b64_agreeD [OF assms(1) n(1)] b64_agreeD [OF assms(1) n(2)] b64_agreeD [OF assms(1) n(3)]
    b64_agreeD [OF assms(1) n(4)] b64_char_no_pad [OF assms(1) n(3)] b64_char_no_pad [OF assms(1) n(4)]
  by (elim disjE) simp_all

lemma decode_three:
  assumes "b64_agree E E'" and n: "a < 64" "b < 64" "c < 64"
  shows "decode_chars E ([b64_char E' a, b64_char E' b, b64_char E' c] @ b64_pad E' ''='')
    \<in> {None, Some (take 2 (quantum a b c 0))}"
proof -
  have "b64_val E (CHR ''='') = None" using assms(1) by (simp add: b64_agree_def b64_val_pad)
  then show ?thesis
    using b64_agreeD [OF assms(1) n(1)] b64_agreeD [OF assms(1) n(2)] b64_agreeD [OF assms(1) n(3)]
      b64_char_no_pad [OF assms(1) n(3)]
    by (elim disjE) (simp_all add: b64_pad_def)
qed

lemma decode_two:
  assumes "b64_agree E E'" and n: "a < 64" "b < 64"
  shows "decode_chars E ([b64_char E' a, b64_char E' b] @ b64_pad E' ''=='')
    \<in> {None, Some (take 1 (quantum a b 0 0))}"
proof -
  have "b64_val E (CHR ''='') = None" using assms(1) by (simp add: b64_agree_def b64_val_pad)
  then show ?thesis
    using b64_agreeD [OF assms(1) n(1)] b64_agreeD [OF assms(1) n(2)]
    by (elim disjE) (simp_all add: b64_pad_def)
qed

lemma decode_other: "b64_agree E E' \<Longrightarrow> decode_chars E (EncodeToString E' s) \<in> {None, Some s}"
proof (induction E' s rule: EncodeToString.induct)
  case (1 E' x y z s)
  let ?v = "byte_of x * 65536 + byte_of y * 256 + byte_of z"
  have "?v div 262144 < 64" by (rule sextets [OF byte_of_less byte_of_less byte_of_less refl])
  then have "decode_chars E (EncodeToString E' (x # y # z # s)) \<in> {None,
      Some (quantum (?v div 262144) (?v div 4096 mod 64) (?v div 64 mod 64) (?v mod 64) @ s)}"
    unfolding EncodeToString.simps Let_def using 1 by (intro decode_four) simp_all
  then show ?case
    by (simp add: quantum_bytes [OF byte_of_less byte_of_less byte_of_less refl])
next
  case (2 E' x y)
  let ?v = "byte_of x * 65536 + byte_of y * 256"
  have "?v div 262144 < 64" using sextets [of "byte_of x" "byte_of y" 0] by simp
  then have "decode_chars E (EncodeToString E' [x, y]) \<in> {None,
      Some (take 2 (quantum (?v div 262144) (?v div 4096 mod 64) (?v div 64 mod 64) 0))}"
    unfolding EncodeToString.simps Let_def using 2 by (intro decode_three) simp_all
  then show ?case
    using quantum_bytes [of "byte_of x" "byte_of y" 0 ?v] by (simp add: low_sextet)
next
  case (3 E' x)
  let ?v = "byte_of x * 65536"
  have "?v div 262144 < 64" using sextets [of "byte_of x" 0 0] by simp
  then have "decode_chars E (EncodeToString E' [x]) \<in> {None,
      Some (take 1 (quantum (?v div 262144) (?v div 4096 mod 64) 0 0))}"
    unfolding EncodeToString.simps Let_def using 3 by (intro decode_two) simp_all
  then show ?case
    using quantum_bytes [of "byte_of x" 0 0 ?v] by (simp add: low_sextet)
qed simp

text \<open>The four encodings agree.\<close>

definition b64_standard :: "b64_encoding list" where
  "b64_standard = [StdEncoding, RawStdEncoding, URLEncoding, RawURLEncoding]"

lemma position_append: "position c (s @ t) = (case position c s of Some n \<Rightarrow> Some n
    | None \<Rightarrow> map_option (\<lambda>n. length s + n) (position c t))"
  by (cases "position c t"; induction s) (auto split: option.splits)

lemma position_common: "c \<in> {CHR ''+'', CHR ''/'', CHR ''-'', CHR ''_''} \<Longrightarrow> position c b64_common = None"
  by (elim insertE emptyE; hypsubst; code_simp)

lemma alphabets_agree:
  assumes E: "b64_alphabet E = K @ [a, b]" and E': "b64_alphabet E' = K @ [c, d]" and ok: "b64_ok E" "b64_ok E'"
    and "length K = 62" and new: "position c K = None" "position d K = None"
    and last: "c \<noteq> b" "d \<noteq> a"
  shows "b64_agree E E'"
proof -
  have "b64_val E (b64_char E' n) \<in> {None, Some n}" if "n < 64" for n
  proof -
    consider "n < 62" | "n = 62" | "n = 63" using \<open>n < 64\<close> by linarith
    then show ?thesis
    proof cases
      case 1
      then have "b64_char E' n = b64_char E n"
        by (simp add: b64_char_def E E' nth_append assms(5))
      then show ?thesis using ok \<open>n < 64\<close> b64_val_char by simp
    next
      case 2
      then show ?thesis using assms by (simp add: b64_char_def b64_val_def nth_append position_append)
    next
      case 3
      then show ?thesis using assms by (simp add: b64_char_def b64_val_def nth_append position_append)
    qed
  qed
  then show ?thesis using ok by (simp add: b64_agree_def)
qed

lemma standard_alphabets:
  "b64_alphabet StdEncoding = b64_common @ [CHR ''+'', CHR ''/'']"
  "b64_alphabet RawStdEncoding = b64_common @ [CHR ''+'', CHR ''/'']"
  "b64_alphabet URLEncoding = b64_common @ [CHR ''-'', CHR ''_'']"
  "b64_alphabet RawURLEncoding = b64_common @ [CHR ''-'', CHR ''_'']"
  by (simp_all only: StdEncoding_def RawStdEncoding_def URLEncoding_def RawURLEncoding_def b64_encoding.simps)

lemma length_common: "length b64_common = 62"
  by simp

lemma b64_standard_agree:
  assumes "E \<in> set b64_standard" and "E' \<in> set b64_standard"
  shows "b64_agree E E'"
proof -
  have pair: "b64_agree X Y"
    if "b64_alphabet X = b64_common @ [a, b]" "b64_alphabet Y = b64_common @ [c, d]" "b64_ok X" "b64_ok Y"
      "c \<in> {CHR ''+'', CHR ''-''}" "d \<in> {CHR ''/'', CHR ''_''}" "a \<in> {CHR ''+'', CHR ''-''}" "b \<in> {CHR ''/'', CHR ''_''}"
    for X Y a b c d
    by (rule alphabets_agree [OF that(1-4) length_common position_common position_common])
      (use that(5-8) in auto)
  have two: "\<exists>a\<in>{CHR ''+'', CHR ''-''}. \<exists>b\<in>{CHR ''/'', CHR ''_''}. b64_alphabet X = b64_common @ [a, b] \<and> b64_ok X"
    if "X \<in> set b64_standard" for X
    using that standard_alphabets b64_ok unfolding b64_standard_def list.set by blast
  show ?thesis using two [OF assms(1)] two [OF assms(2)] pair by meson
qed

end
