(* ===== verification/Auth.thy ===== *)
theory Auth
  imports RedisStore Base64
begin

text \<open>
  Package \<^verbatim>\<open>auth\<close> (\<^verbatim>\<open>internal/auth/auth.go\<close>): password hashes, the cipher that keeps the
  upstream credentials, the sessions of the administrators and the bootstrap administrator.
  Cryptography is the parameter \<open>C\<close>: the hash SHA-256, the block cipher AES, GCM, the random
  bytes, UUIDs and bcrypt; the locale \<open>crypto_law\<close> states what the code relies on.
\<close>

record aead =
  NonceSize :: nat
  Seal :: "string \<Rightarrow> string \<Rightarrow> string"
  Open :: "string \<Rightarrow> string \<Rightarrow> error + string"

text \<open>A block cipher is the function that encrypts one block under its key.\<close>

record 's crypto =
  Sum256 :: "string \<Rightarrow> string"
  aes_NewCipher :: "string \<Rightarrow> error + (string \<Rightarrow> string)"
  NewGCM :: "(string \<Rightarrow> string) \<Rightarrow> error + aead"
  rand_Reader :: "nat \<Rightarrow> ('s, error + string) state"
  uuid_NewString :: "('s, string) state"
  GenerateFromPassword :: "string \<Rightarrow> ('s, error + string) state"
  CompareHashAndPassword :: "string \<Rightarrow> string \<Rightarrow> error option"

section \<open>Passwords\<close>

definition HashPassword :: "'s crypto \<Rightarrow> string \<Rightarrow> ('s, error + string) state" where
  "HashPassword C password = GenerateFromPassword C password"

definition CheckPassword :: "'s crypto \<Rightarrow> string \<Rightarrow> string \<Rightarrow> error option" where
  "CheckPassword C hash password = CompareHashAndPassword C hash password"

section \<open>The cipher\<close>

definition NewCipher :: "'s crypto \<Rightarrow> string \<Rightarrow> error + aead" where
  "NewCipher C secret =
     (case aes_NewCipher C (Sum256 C secret) of
        Inl err \<Rightarrow> Inl err
      | Inr block \<Rightarrow> NewGCM C block)"

definition Encrypt :: "'s crypto \<Rightarrow> aead \<Rightarrow> string \<Rightarrow> ('s, error + string) state" where
  "Encrypt C c raw =
     (if raw = [] then State_Monad.return (Inr [])
      else do {
        nonce \<leftarrow> rand_Reader C (NonceSize c);
        State_Monad.return (case nonce of
            Inl err \<Rightarrow> Inl err
          | Inr nonce \<Rightarrow> Inr (EncodeToString StdEncoding (nonce @ Seal c nonce raw)))
      })"

definition Decrypt :: "aead \<Rightarrow> string \<Rightarrow> error + string" where
  "Decrypt c enc =
     (if enc = [] then Inr []
      else case DecodeString StdEncoding enc of
        None \<Rightarrow> Inl (ExtErr ''illegal base64 data'')
      | Some raw \<Rightarrow>
          let size = NonceSize c
          in if length raw < size then Inl (Errorf ''invalid ciphertext'')
             else Open c (take size raw) (drop size raw))"

section \<open>Sessions of the administrators\<close>

definition session_key :: "string \<Rightarrow> string" where
  "session_key token = ''admin:sess:'' @ token"

definition Create_session :: "'s world \<Rightarrow> 's crypto \<Rightarrow> duration \<Rightarrow> string \<Rightarrow> ('s, string \<times> error option) state" where
  "Create_session W C ttl username = do {
     token \<leftarrow> uuid_NewString C;
     err \<leftarrow> redis_Set W (session_key token) username ttl;
     State_Monad.return (token, err)
   }"

definition Get_session :: "'s world \<Rightarrow> string \<Rightarrow> ('s, error + string) state" where
  "Get_session W token = redis_Get W (session_key token)"

definition Delete_session :: "'s world \<Rightarrow> string \<Rightarrow> ('s, error option) state" where
  "Delete_session W token = redis_Del W [session_key token]"

section \<open>The bootstrap administrator\<close>

definition EnsureDefaultAdmin :: "'s world \<Rightarrow> 's crypto \<Rightarrow> string \<Rightarrow> string \<Rightarrow> ('s, error option) state" where
  "EnsureDefaultAdmin W C username password = do {
     count \<leftarrow> db_Count (users_tbl W) (\<lambda>u. u_UID u = AdminUIDPrefix @ username);
     case count of
       Inl err \<Rightarrow> State_Monad.return (Some err)
     | Inr n \<Rightarrow>
         if n > 0 then State_Monad.return None
         else do {
           hash \<leftarrow> HashPassword C password;
           case hash of
             Inl err \<Rightarrow> State_Monad.return (Some err)
           | Inr h \<Rightarrow> do {
               created \<leftarrow> db_Create (users_tbl W) (zero_user\<lparr>u_UID := AdminUIDPrefix @ username,
                 u_PasswordHash := h, u_Enabled := True, u_Remark := ''bootstrap admin '' @ username\<rparr>);
               State_Monad.return (case created of Inl err \<Rightarrow> Some err | Inr _ \<Rightarrow> None)
             }
         }
   }"

section \<open>The contract of the cryptography\<close>

text \<open>
  GCM opens what it sealed under a nonce of its size; the random source delivers the bytes asked
  for or an error; bcrypt accepts the password it hashed; none of them touches the stores.
\<close>

definition aead_opens :: "aead \<Rightarrow> bool" where
  "aead_opens c \<longleftrightarrow> (\<forall>nonce p. length nonce = NonceSize c \<longrightarrow> Open c nonce (Seal c nonce p) = Inr p)"

locale crypto_law =
  fixes C :: "'s crypto" and view :: "'s \<Rightarrow> store"
  assumes gcm: "NewGCM C block = Inr c \<Longrightarrow> aead_opens c"
    and random: "run_state (rand_Reader C n) s = (r, s') \<Longrightarrow>
      view s' = view s \<and> (\<forall>bytes. r = Inr bytes \<longrightarrow> length bytes = n)"
    and uuid: "run_state (uuid_NewString C) s = (t, s') \<Longrightarrow> view s' = view s"
    and bcrypt: "run_state (GenerateFromPassword C p) s = (g, s') \<Longrightarrow>
      view s' = view s \<and> (\<forall>h. g = Inr h \<longrightarrow> CompareHashAndPassword C h p = None)"
begin

lemma wp_rand_Reader:
  assumes "\<And>r s'. view s' = view s \<Longrightarrow> (\<And>bytes. r = Inr bytes \<Longrightarrow> length bytes = n) \<Longrightarrow> Q r s'"
  shows "wp (rand_Reader C n) Q s"
  using random assms by (blast intro!: wp_runI)

lemma wp_uuid: "(\<And>t s'. view s' = view s \<Longrightarrow> Q t s') \<Longrightarrow> wp (uuid_NewString C) Q s"
  using uuid by (blast intro!: wp_runI)

lemma wp_HashPassword:
  assumes "\<And>r s'. view s' = view s \<Longrightarrow> (\<And>h. r = Inr h \<Longrightarrow> CheckPassword C h p = None) \<Longrightarrow> Q r s'"
  shows "wp (HashPassword C p) Q s"
proof (rule wp_runI)
  fix r s' assume "run_state (HashPassword C p) s = (r, s')"
  then have "view s' = view s" "\<And>h. r = Inr h \<Longrightarrow> CheckPassword C h p = None"
    using bcrypt [of p s r s'] by (simp_all add: HashPassword_def CheckPassword_def)
  then show "Q r s'" by (rule assms)
qed

lemma Decrypt_sealed:
  assumes "aead_opens c" and "length nonce = NonceSize c" and "Seal c nonce raw \<noteq> [] \<or> nonce \<noteq> []"
  shows "Decrypt c (EncodeToString StdEncoding (nonce @ Seal c nonce raw)) = Inr raw"
  using assms by (auto simp: Decrypt_def Let_def aead_opens_def)

lemma wp_Encrypt:
  assumes "aead_opens c" and "0 < NonceSize c"
    and "\<And>r s'. view s' = view s \<Longrightarrow> (\<And>enc. r = Inr enc \<Longrightarrow> Decrypt c enc = Inr raw) \<Longrightarrow> Q r s'"
  shows "wp (Encrypt C c raw) Q s"
proof (cases "raw = []")
  case True
  have "Q (Inr []) s" by (rule assms(3)) (use True in \<open>simp_all add: Decrypt_def\<close>)
  then show ?thesis using True by (simp add: Encrypt_def)
next
  case False
  show ?thesis
    unfolding Encrypt_def if_not_P [OF False] wp_bind wp_return
  proof (rule wp_rand_Reader)
    fix r :: "error + string" and s' assume v: "view s' = view s" and len: "\<And>bytes. r = Inr bytes \<Longrightarrow> length bytes = NonceSize c"
    show "Q (case r of Inl err \<Rightarrow> Inl err
        | Inr nonce \<Rightarrow> Inr (EncodeToString StdEncoding (nonce @ Seal c nonce raw))) s'"
    proof (rule assms(3) [OF v])
      fix enc
      assume "(case r of Inl err \<Rightarrow> Inl err
        | Inr nonce \<Rightarrow> Inr (EncodeToString StdEncoding (nonce @ Seal c nonce raw))) = Inr enc"
      then obtain nonce where n: "r = Inr nonce"
        and enc: "enc = EncodeToString StdEncoding (nonce @ Seal c nonce raw)"
        by (cases r) auto
      have "nonce \<noteq> []" using len [OF n] assms(2) by auto
      then show "Decrypt c enc = Inr raw" using Decrypt_sealed [OF assms(1) len [OF n]] enc by simp
    qed
  qed
qed

end

section \<open>An instance\<close>

text \<open>
  A cipher that appends its nonce to the text, random bytes that are zero, hashes that show the
  password.
\<close>

definition mem_crypto :: "mem crypto" where
  "mem_crypto = \<lparr>Sum256 = (\<lambda>s. take 32 (s @ replicate 32 (CHR 0x00))),
     aes_NewCipher = (\<lambda>key. if length key \<in> {16, 24, 32} then Inr (\<lambda>block. block)
       else Inl (ExtErr ''crypto/aes: invalid key size'')),
     NewGCM = (\<lambda>_. Inr \<lparr>NonceSize = 12, Seal = (\<lambda>nonce p. p @ nonce),
       Open = (\<lambda>nonce s. if drop (length s - length nonce) s = nonce then Inr (take (length s - length nonce) s)
                 else Inl (ExtErr ''cipher: message authentication failed''))\<rparr>),
     rand_Reader = (\<lambda>n. State_Monad.return (Inr (replicate n (CHR 0x00)))),
     uuid_NewString = State_Monad.return ''00000000-0000-4000-8000-000000000000'',
     GenerateFromPassword = (\<lambda>p. State_Monad.return (Inr (''$2a$'' @ p))),
     CompareHashAndPassword = (\<lambda>h p. if h = ''$2a$'' @ p then None
       else Some (ExtErr ''crypto/bcrypt: hashedPassword is not the hash of the given password''))\<rparr>"

interpretation mem_crypto: crypto_law mem_crypto mem_view
  by unfold_locales (auto simp: mem_crypto_def aead_opens_def)

definition mem_aead :: aead where
  "mem_aead = \<lparr>NonceSize = 12, Seal = (\<lambda>nonce p. p @ nonce),
     Open = (\<lambda>nonce s. if drop (length s - length nonce) s = nonce then Inr (take (length s - length nonce) s)
               else Inl (ExtErr ''cipher: message authentication failed''))\<rparr>"

lemma mem_NewCipher: "length secret \<le> 32 \<Longrightarrow> NewCipher mem_crypto secret = Inr mem_aead"
  by (simp add: NewCipher_def mem_crypto_def mem_aead_def)

section \<open>Properties\<close>

text \<open>
  What the cipher encrypts it decrypts: an upstream credential comes back from the database as
  it was given, the empty one included, or the encryption has reported an error.
\<close>

theorem Encrypt_Decrypt:
  assumes "crypto_law C view" and "NewCipher C secret = Inr c" and "0 < NonceSize c"
  shows "wp (Encrypt C c raw) (\<lambda>r s'. view s' = view s \<and>
    (case r of Inl _ \<Rightarrow> raw \<noteq> [] | Inr enc \<Rightarrow> Decrypt c enc = Inr raw)) s"
proof -
  have gcm: "aead_opens c"
    using assms(1,2) by (auto simp: NewCipher_def crypto_law_def split: sum.splits)
  show ?thesis
  proof (cases "raw = []")
    case True
    then show ?thesis by (simp add: Encrypt_def Decrypt_def)
  next
    case False
    then show ?thesis
      by (intro crypto_law.wp_Encrypt [OF assms(1) gcm assms(3)]) (auto split: sum.splits)
  qed
qed

theorem Encrypt_Decrypt_witness:
  "\<exists>c. NewCipher mem_crypto ''secret'' = Inr c \<and>
     wp (Encrypt mem_crypto c ''password'') (\<lambda>r s'. mem_view s' = mem_view mem0 \<and>
       (case r of Inl _ \<Rightarrow> ''password'' \<noteq> [] | Inr enc \<Rightarrow> Decrypt c enc = Inr ''password'')) mem0"
proof -
  obtain c where c: "NewCipher mem_crypto ''secret'' = Inr c" and n: "0 < NonceSize c"
    by (simp add: NewCipher_def mem_crypto_def)
  show ?thesis
    by (rule exI [of _ c], rule conjI [OF c])
      (rule Encrypt_Decrypt [OF mem_crypto.crypto_law_axioms c n])
qed

text \<open>
  The life of a session: the token that Create returns names its user until Delete, and
  nobody after it.
\<close>

theorem session_life:
  assumes "reliable W view" and "crypto_law C view"
  shows "wp (do {
      (token, err) \<leftarrow> Create_session W C ttl username;
      name \<leftarrow> Get_session W token;
      err' \<leftarrow> Delete_session W token;
      gone \<leftarrow> Get_session W token;
      State_Monad.return (err, name, err', gone)
    }) (\<lambda>r s'. r = (None, Inr username, None, Inl RedisNil)) s"
  unfolding Create_session_def Get_session_def Delete_session_def wp_bind wp_return
  by (rule crypto_law.wp_uuid [OF assms(2)], rule reliable.wp_redis_Set [OF assms(1)],
      simp only: prod.case wp_bind wp_return,
      rule reliable.wp_redis_Get [OF assms(1)], rule reliable.wp_redis_Del [OF assms(1)],
      rule reliable.wp_redis_Get [OF assms(1)]) (simp add: get_answer_def)

theorem session_life_witness:
  "wp (do {
      (token, err) \<leftarrow> Create_session mem_world mem_crypto 86400 ''admin'';
      name \<leftarrow> Get_session mem_world token;
      err' \<leftarrow> Delete_session mem_world token;
      gone \<leftarrow> Get_session mem_world token;
      State_Monad.return (err, name, err', gone)
    }) (\<lambda>r s'. r = (None, Inr ''admin'', None, Inl RedisNil)) mem0"
  by (rule session_life [OF mem.reliable_axioms mem_crypto.crypto_law_axioms])

lemma wp_EnsureDefaultAdmin_new:
  assumes "reliable W view" and "crypto_law C view"
    and new: "\<forall>u\<in>set (st_users (view s)). u_UID u \<noteq> AdminUIDPrefix @ username"
    and err: "\<And>e s'. Q (Some e) s'"
    and ok: "\<And>u s'. u_UID u = AdminUIDPrefix @ username \<Longrightarrow> u_Enabled u \<Longrightarrow>
      CheckPassword C (u_PasswordHash u) password = None \<Longrightarrow>
      view s' = (view s)\<lparr>st_users := st_users (view s) @ [u]\<rparr> \<Longrightarrow> Q None s'"
  shows "wp (EnsureDefaultAdmin W C username password) Q s"
  unfolding EnsureDefaultAdmin_def wp_bind
proof (rule reliable.wp_Count_users [OF assms(1)])
  fix s1
  assume v1: "view s1 = view s"
  have none: "filter (\<lambda>u. u_UID u = AdminUIDPrefix @ username) (st_users (view s)) = []"
    using new by (simp add: filter_empty_conv)
  let ?user = "\<lambda>h i. zero_user\<lparr>u_UID := AdminUIDPrefix @ username, u_PasswordHash := h, u_Enabled := True,
    u_Remark := ''bootstrap admin '' @ username, u_ID := i\<rparr>"
  have created: "wp (db_Create (users_tbl W) (zero_user\<lparr>u_UID := AdminUIDPrefix @ username, u_PasswordHash := h,
        u_Enabled := True, u_Remark := ''bootstrap admin '' @ username\<rparr>))
      (\<lambda>r. Q (case r of Inl err \<Rightarrow> Some err | Inr _ \<Rightarrow> None)) s2"
    if "view s2 = view s" and "CheckPassword C h password = None" for h s2
    by (rule reliable.wp_Create_users [OF assms(1)])
      (use that err ok [of "?user h _"] in auto)
  show "wp (case Inr (length (filter (\<lambda>u. u_UID u = AdminUIDPrefix @ username) (st_users (view s)))) of
      Inl err \<Rightarrow> State_Monad.return (Some err)
    | Inr n \<Rightarrow>
        if n > 0 then State_Monad.return None
        else do {
          hash \<leftarrow> HashPassword C password;
          case hash of
            Inl err \<Rightarrow> State_Monad.return (Some err)
          | Inr h \<Rightarrow> do {
              created \<leftarrow> db_Create (users_tbl W) (zero_user\<lparr>u_UID := AdminUIDPrefix @ username,
                u_PasswordHash := h, u_Enabled := True, u_Remark := ''bootstrap admin '' @ username\<rparr>);
              State_Monad.return (case created of Inl err \<Rightarrow> Some err | Inr _ \<Rightarrow> None)
            }
        }) Q s1"
    unfolding none sum.case list.size if_not_P [OF less_irrefl] wp_bind
    by (rule crypto_law.wp_HashPassword [OF assms(2)]) (use created v1 err in \<open>auto split: sum.split\<close>)
qed

text \<open>
  When EnsureDefaultAdmin reports no error there is an administrator of that name; an existing
  one is kept as it is, with its password, and one that is created is enabled and has the
  password given.
\<close>

theorem EnsureDefaultAdmin_correct:
  assumes "reliable W view" and "crypto_law C view"
  shows "wp (EnsureDefaultAdmin W C username password) (\<lambda>err s'. err = None \<longrightarrow>
    (if \<exists>u\<in>set (st_users (view s)). u_UID u = AdminUIDPrefix @ username then view s' = view s
     else \<exists>u. u_UID u = AdminUIDPrefix @ username \<and> u_Enabled u \<and>
            CheckPassword C (u_PasswordHash u) password = None \<and>
            view s' = (view s)\<lparr>st_users := st_users (view s) @ [u]\<rparr>)) s"
proof (cases "\<exists>u\<in>set (st_users (view s)). u_UID u = AdminUIDPrefix @ username")
  case True
  then have "0 < length (filter (\<lambda>u. u_UID u = AdminUIDPrefix @ username) (st_users (view s)))"
    by (simp add: filter_empty_conv)
  then show ?thesis
    unfolding EnsureDefaultAdmin_def wp_bind
    by (intro reliable.wp_Count_users [OF assms(1)]) (simp add: True)
next
  case False
  then show ?thesis
    by (intro wp_EnsureDefaultAdmin_new [OF assms]) auto
qed

theorem EnsureDefaultAdmin_correct_witness:
  "wp (EnsureDefaultAdmin mem_world mem_crypto ''root'' ''pw'') (\<lambda>err s'. err = None \<longrightarrow>
    (if \<exists>u\<in>set (st_users (mem_view mem0)). u_UID u = AdminUIDPrefix @ ''root'' then mem_view s' = mem_view mem0
     else \<exists>u. u_UID u = AdminUIDPrefix @ ''root'' \<and> u_Enabled u \<and>
            CheckPassword mem_crypto (u_PasswordHash u) ''pw'' = None \<and>
            mem_view s' = (mem_view mem0)\<lparr>st_users := st_users (mem_view mem0) @ [u]\<rparr>)) mem0"
  by (rule EnsureDefaultAdmin_correct [OF mem.reliable_axioms mem_crypto.crypto_law_axioms])

end
