(* ===== verification/Quota.thy ===== *)
theory Quota
  imports Auth
begin

text \<open>
  Package \<^verbatim>\<open>quota\<close> (\<^verbatim>\<open>internal/quota/service.go\<close>): who may use the gateway (Authenticate), the
  counter of the connections a user has open (Acquire, Release, CurrentConcurrency) and the
  removal of what Redis keeps of a user (CleanupUserRuntime).  The locale \<open>slot_service\<close> is the
  contract of the counter that the gateway relies on.  Each operation is taken here as one piece;
  theory \<open>QuotaRace\<close> interleaves their commands.
\<close>

section \<open>Operations\<close>

definition Authenticate ::
  "'s world \<Rightarrow> 's crypto \<Rightarrow> string \<Rightarrow> string \<Rightarrow> ('s, error + User) state" where
  "Authenticate W C uid password = do {
     found \<leftarrow> db_First (users_tbl W) (\<lambda>u. u_UID u = uid);
     case found of
       Inl err \<Rightarrow> State_Monad.return (Inl err)
     | Inr user \<Rightarrow>
         if \<not> u_Enabled user then State_Monad.return (Inl ErrUserDisabled)
         else do {
           expired \<leftarrow> (case u_ExpiredAt user of
               None \<Rightarrow> State_Monad.return False
             | Some t \<Rightarrow> do { now \<leftarrow> time_Now W; State_Monad.return (now > t) });
           if expired then State_Monad.return (Inl ErrUserExpired)
           else case CheckPassword C (u_PasswordHash user) password of
             Some err \<Rightarrow> State_Monad.return (Inl err)
           | None \<Rightarrow> do {
               pendingUsage \<leftarrow> UserPendingUsage W uid;
               State_Monad.return
                 (if u_QuotaBytes user > 0 \<and> wrap64 (u_UsedBytes user + pendingUsage) \<ge> u_QuotaBytes user
                  then Inl ErrQuotaExceeded else Inr user)
             }
         }
   }"

definition Acquire :: "'s world \<Rightarrow> User \<Rightarrow> ('s, error option) state" where
  "Acquire W user = do {
     current \<leftarrow> redis_Incr W (ConnKey (u_UID user));
     case current of
       Inl err \<Rightarrow> State_Monad.return (Some err)
     | Inr current \<Rightarrow>
         if u_MaxConcurrency user > 0 \<and> current > u_MaxConcurrency user
         then do {
           _ \<leftarrow> redis_Decr W (ConnKey (u_UID user));
           State_Monad.return (Some ErrConcurrencyExceeded)
         }
         else State_Monad.return None
   }"

definition Release :: "'s world \<Rightarrow> string \<Rightarrow> ('s, unit) state" where
  "Release W uid = do {
     r \<leftarrow> redis_Get W (ConnKey uid);
     if (case Int64 r of Inl _ \<Rightarrow> True | Inr current \<Rightarrow> current \<le> 1)
     then do { _ \<leftarrow> redis_Del W [ConnKey uid]; State_Monad.return () }
     else do { _ \<leftarrow> redis_Decr W (ConnKey uid); State_Monad.return () }
   }"

definition CurrentConcurrency :: "'s world \<Rightarrow> string \<Rightarrow> ('s, int) state" where
  "CurrentConcurrency W uid = do {
     r \<leftarrow> redis_Get W (ConnKey uid);
     State_Monad.return (case Int64 r of Inl _ \<Rightarrow> 0 | Inr value \<Rightarrow> value)
   }"

definition CleanupUserRuntime :: "'s world \<Rightarrow> string \<Rightarrow> ('s, error option) state" where
  "CleanupUserRuntime W uid = do {
     stickyKeys \<leftarrow> redis_Keys W (''sticky:'' @ uid @ '':*'');
     case stickyKeys of
       Inl err \<Rightarrow> State_Monad.return (Some err)
     | Inr ks \<Rightarrow> redis_Del W
         ([ConnKey uid, UsageKey uid ''upload'', UsageKey uid ''download'', RequestsKey uid] @ ks)
   }"

section \<open>The counter of the connections\<close>

text \<open>The number a user's key holds: no key is 0, \<open>None\<close> is a value that is not a number.\<close>

definition slots :: "keyspace \<Rightarrow> string \<Rightarrow> int option" where
  "slots m uid = (case m (ConnKey uid) of None \<Rightarrow> Some 0 | Some (VStr v _) \<Rightarrow> ParseInt v | Some _ \<Rightarrow> None)"

definition keeps_other_keys :: "string \<Rightarrow> store \<Rightarrow> store \<Rightarrow> bool" where
  "keeps_other_keys k v v' \<longleftrightarrow>
     (\<exists>m. v' = v\<lparr>st_keys := m\<rparr> \<and> (\<forall>j. j \<noteq> k \<longrightarrow> m j = st_keys v j))"

lemma keeps_other_keys [simp]:
  "keeps_other_keys k v (v\<lparr>st_keys := m\<rparr>) \<longleftrightarrow> (\<forall>j. j \<noteq> k \<longrightarrow> m j = st_keys v j)"
proof -
  have "v\<lparr>st_keys := m\<rparr> = v\<lparr>st_keys := m'\<rparr> \<longleftrightarrow> m = m'" for m' by (cases v) auto
  then show ?thesis by (auto simp: keeps_other_keys_def)
qed

text \<open>
  A history of one user's connections: \<open>True\<close> opens one, \<open>False\<close> closes one of those open.  The
  run returns how many are open.
\<close>

primrec history ::
  "(User \<Rightarrow> ('s, error option) state) \<Rightarrow> (string \<Rightarrow> ('s, unit) state) \<Rightarrow> User \<Rightarrow> nat \<Rightarrow> bool list \<Rightarrow> ('s, nat) state" where
  "history acquire release u k [] = State_Monad.return k"
| "history acquire release u k (b # bs) =
     (if b then acquire u \<bind> (\<lambda>r. history acquire release u (if r = None then Suc k else k) bs)
      else if k = 0 then history acquire release u k bs
      else release (u_UID u) \<bind> (\<lambda>_. history acquire release u (k - 1) bs))"

locale slot_service =
  fixes view :: "'s \<Rightarrow> store"
    and acquire :: "User \<Rightarrow> ('s, error option) state"
    and release :: "string \<Rightarrow> ('s, unit) state"
  assumes acquire_law:
    "slots (st_keys (view s)) (u_UID u) = Some n \<Longrightarrow> 0 \<le> n \<Longrightarrow> n < 2 ^ 63 - 1 \<Longrightarrow>
     wp (acquire u) (\<lambda>r s'. keeps_other_keys (ConnKey (u_UID u)) (view s) (view s') \<and>
       (if u_MaxConcurrency u > 0 \<and> n \<ge> u_MaxConcurrency u
        then r = Some ErrConcurrencyExceeded \<and> slots (st_keys (view s')) (u_UID u) = Some n
        else r = None \<and> slots (st_keys (view s')) (u_UID u) = Some (n + 1))) s"
    and release_law:
    "slots (st_keys (view s)) uid = Some n \<Longrightarrow> 0 \<le> n \<Longrightarrow>
     wp (release uid) (\<lambda>_ s'. keeps_other_keys (ConnKey uid) (view s) (view s') \<and>
       slots (st_keys (view s')) uid = Some (max 0 (n - 1))) s"
begin

lemma wp_history:
  assumes "slots (st_keys (view s)) (u_UID u) = Some (int k)"
    and "u_MaxConcurrency u > 0" and "int k \<le> u_MaxConcurrency u" and "u_MaxConcurrency u < 2 ^ 63 - 1"
  shows "wp (history acquire release u k bs) (\<lambda>n s'. int n \<le> u_MaxConcurrency u \<and>
     slots (st_keys (view s')) (u_UID u) = Some (int n)) s"
  using assms(1,3)
proof (induction bs arbitrary: k s)
  case (Cons b bs)
  have k: "int k < 2 ^ 63 - 1" using Cons.prems(2) assms(4) by linarith
  consider "b" | "\<not> b" "k = 0" | j where "\<not> b" "k = Suc j" by (cases k) auto
  then show ?case
  proof cases
    case 1
    have "wp (acquire u) (\<lambda>r. wp (history acquire release u (if r = None then Suc k else k) bs) (\<lambda>n s'.
        int n \<le> u_MaxConcurrency u \<and> slots (st_keys (view s')) (u_UID u) = Some (int n))) s"
    proof (rule wp_mono [OF acquire_law [OF Cons.prems(1) _ k]], simp)
      fix r s'
      assume "keeps_other_keys (ConnKey (u_UID u)) (view s) (view s') \<and>
        (if u_MaxConcurrency u > 0 \<and> int k \<ge> u_MaxConcurrency u
         then r = Some ErrConcurrencyExceeded \<and> slots (st_keys (view s')) (u_UID u) = Some (int k)
         else r = None \<and> slots (st_keys (view s')) (u_UID u) = Some (int k + 1))"
      then show "wp (history acquire release u (if r = None then Suc k else k) bs) (\<lambda>n s'.
          int n \<le> u_MaxConcurrency u \<and> slots (st_keys (view s')) (u_UID u) = Some (int n)) s'"
        using Cons.prems(2) assms(2) by (intro Cons.IH) (simp_all split: if_splits add: add.commute)
    qed
    with 1 show ?thesis by simp
  next
    case 2
    then show ?thesis using Cons.IH [OF Cons.prems] by simp
  next
    case 3
    have "wp (release (u_UID u)) (\<lambda>_. wp (history acquire release u j bs) (\<lambda>n s'.
        int n \<le> u_MaxConcurrency u \<and> slots (st_keys (view s')) (u_UID u) = Some (int n))) s"
      by (rule wp_mono [OF release_law [OF Cons.prems(1)]])
        (use 3 Cons.prems in \<open>auto intro!: Cons.IH\<close>)
    with 3 show ?thesis by simp
  qed
qed simp

end

section \<open>The operations keep the contract\<close>

lemma ConnKey_uid [simp]: "ConnKey uid = ConnKey uid' \<longleftrightarrow> uid = uid'"
  by (simp add: ConnKey_def)

context reliable
begin

lemma wp_Acquire:
  assumes n: "slots (st_keys (view s)) (u_UID u) = Some n" "0 \<le> n" "n < 2 ^ 63 - 1"
  shows "wp (Acquire W u) (\<lambda>r s'. keeps_other_keys (ConnKey (u_UID u)) (view s) (view s') \<and>
       (if u_MaxConcurrency u > 0 \<and> n \<ge> u_MaxConcurrency u
        then r = Some ErrConcurrencyExceeded \<and> slots (st_keys (view s')) (u_UID u) = Some n
        else r = None \<and> slots (st_keys (view s')) (u_UID u) = Some (n + 1))) s"
proof -
  let ?k = "ConnKey (u_UID u)" and ?m = "st_keys (view s)"
  have range: "int64_range n" "int64_range (n + 1)" using n by (auto simp: int64_range_def)
  obtain ttl where incr: "apply_w ?m (INCRBY ?k 1) = (?m(?k \<mapsto> VStr (Itoa (n + 1)) ttl), Inr (RInt (n + 1)))"
    using n(1) range by (auto simp: slots_def split: option.splits rval.splits)
  show ?thesis
    unfolding Acquire_def wp_bind
  proof (rule wp_redis_Incr, simp only: incr fst_conv snd_conv as_int.simps sum.case)
    fix s1 assume v1: "view s1 = (view s)\<lparr>st_keys := ?m(?k \<mapsto> VStr (Itoa (n + 1)) ttl)\<rparr>"
    have decr: "apply_w (st_keys (view s1)) (INCRBY ?k (- 1)) =
        (?m(?k \<mapsto> VStr (Itoa n) ttl), Inr (RInt n))"
      using range by (simp add: v1)
    let ?Q = "\<lambda>r s'. keeps_other_keys ?k (view s) (view s') \<and>
       (if u_MaxConcurrency u > 0 \<and> n \<ge> u_MaxConcurrency u
        then r = Some ErrConcurrencyExceeded \<and> slots (st_keys (view s')) (u_UID u) = Some n
        else r = None \<and> slots (st_keys (view s')) (u_UID u) = Some (n + 1))"
    show "wp (if u_MaxConcurrency u > 0 \<and> n + 1 > u_MaxConcurrency u
         then redis_Decr W ?k \<bind> (\<lambda>_. State_Monad.return (Some ErrConcurrencyExceeded))
         else State_Monad.return None) ?Q s1"
    proof (cases "u_MaxConcurrency u > 0 \<and> n \<ge> u_MaxConcurrency u")
      case True
      then have "u_MaxConcurrency u > 0 \<and> n + 1 > u_MaxConcurrency u" by simp
      then show ?thesis
        unfolding if_P [OF \<open>u_MaxConcurrency u > 0 \<and> n + 1 > u_MaxConcurrency u\<close>] wp_bind wp_return
        by (intro wp_redis_Decr)
          (use True range in \<open>simp add: decr v1 slots_def\<close>)
    next
      case False
      then have l: "\<not> (u_MaxConcurrency u > 0 \<and> n + 1 > u_MaxConcurrency u)" by auto
      show ?thesis
        unfolding if_not_P [OF l] wp_return using False range by (auto simp: v1 slots_def)
    qed
  qed
qed

lemma wp_Release:
  assumes n: "slots (st_keys (view s)) uid = Some n" "0 \<le> n"
  shows "wp (Release W uid) (\<lambda>_ s'. keeps_other_keys (ConnKey uid) (view s) (view s') \<and>
       slots (st_keys (view s')) uid = Some (max 0 (n - 1))) s"
proof -
  let ?k = "ConnKey uid" and ?m = "st_keys (view s)"
  let ?Q = "\<lambda>_ s'. keeps_other_keys ?k (view s) (view s') \<and>
       slots (st_keys (view s')) uid = Some (max 0 (n - 1))"
  show ?thesis
    unfolding Release_def wp_bind
  proof (rule wp_redis_Get)
    fix s1 assume v1: "view s1 = view s"
    let ?low = "case Int64 (get_answer ?m ?k) of Inl _ \<Rightarrow> True | Inr current \<Rightarrow> current \<le> 1"
    have low: "?low \<longleftrightarrow> n \<le> 1"
      using n by (auto simp: slots_def get_answer_def split: option.splits rval.splits)
    show "wp (if ?low then redis_Del W [?k] \<bind> (\<lambda>_. State_Monad.return ())
         else redis_Decr W ?k \<bind> (\<lambda>_. State_Monad.return ())) ?Q s1"
    proof (cases "n \<le> 1")
      case True
      then have l: ?low using low by blast
      show ?thesis
        unfolding if_P [OF l] wp_bind wp_return
        by (rule wp_redis_Del)
          (use True n(2) v1 in \<open>simp add: slots_def restrict_map_def\<close>)
    next
      case False
      then have l: "\<not> ?low" using low by blast
      obtain v ttl where mk: "?m ?k = Some (VStr v ttl)" "ParseInt v = Some n"
        using n(1) False by (auto simp: slots_def split: option.splits rval.splits)
      then have range: "int64_range (n - 1)"
        using False ParseInt_range [OF mk(2)] by (simp add: int64_range_def)
      show ?thesis
        unfolding if_not_P [OF l] wp_bind wp_return
        by (rule wp_redis_Decr)
          (use mk range False v1 in \<open>simp add: slots_def\<close>)
    qed
  qed
qed

lemma slot_service_axioms: "slot_service view (Acquire W) (Release W)"
  by unfold_locales (rule wp_Acquire wp_Release; assumption)+

end

interpretation mem_slots: slot_service mem_view "Acquire mem_world" "Release mem_world"
  by (rule mem.slot_service_axioms)

section \<open>Properties\<close>

text \<open>
  C11: Whatever the history of a user's connections, one operation after the other, the user never
  has more open than MaxConcurrency allows, and the counter in Redis is their number.
\<close>

theorem connections_bounded:
  assumes "reliable W view" and "slots (st_keys (view s)) (u_UID u) = Some 0"
    and "0 < u_MaxConcurrency u" and "u_MaxConcurrency u < 2 ^ 63 - 1"
  shows "wp (history (Acquire W) (Release W) u 0 bs) (\<lambda>n s'. int n \<le> u_MaxConcurrency u \<and>
     slots (st_keys (view s')) (u_UID u) = Some (int n)) s"
  by (rule slot_service.wp_history [OF reliable.slot_service_axioms [OF assms(1)]])
    (use assms(2-4) in simp_all)

theorem connections_bounded_witness:
  "wp (history (Acquire mem_world) (Release mem_world) (zero_user\<lparr>u_MaxConcurrency := 2\<rparr>) 0
       [True, True, True, False, True]) (\<lambda>n s'. n \<le> 2) mem0"
  by (rule wp_mono [OF connections_bounded [OF mem.reliable_axioms]])
    (simp_all add: zero_user_def slots_def)

definition pending :: "keyspace \<Rightarrow> string \<Rightarrow> int" where
  "pending m uid = wrap64 (or_zero (Int64 (get_answer m (UsageKey uid ''upload''))) +
     or_zero (Int64 (get_answer m (UsageKey uid ''download''))))"

context reliable
begin

lemma wp_UserPendingUsage:
  "(\<And>s'. view s' = view s \<Longrightarrow> Q (pending (st_keys (view s)) uid) s') \<Longrightarrow> wp (UserPendingUsage W uid) Q s"
  unfolding UserPendingUsage_def wp_bind wp_return pending_def
  by (rule wp_redis_Get, rule wp_redis_Get) simp

end

text \<open>The decision of Authenticate at a time \<open>now\<close>, on the row of the user and the pending usage.\<close>

definition may_use :: "'s crypto \<Rightarrow> string \<Rightarrow> time \<Rightarrow> int \<Rightarrow> User \<Rightarrow> error option" where
  "may_use C password now p u =
     (if \<not> u_Enabled u then Some ErrUserDisabled
      else if \<exists>t. u_ExpiredAt u = Some t \<and> t < now then Some ErrUserExpired
      else if CheckPassword C (u_PasswordHash u) password \<noteq> None
      then CheckPassword C (u_PasswordHash u) password
      else if 0 < u_QuotaBytes u \<and> u_QuotaBytes u \<le> wrap64 (u_UsedBytes u + p)
      then Some ErrQuotaExceeded else None)"

lemma wp_Authenticate:
  assumes "reliable W view"
    and unknown: "\<And>s'. find (\<lambda>u. u_UID u = uid) (st_users (view s)) = None \<Longrightarrow> view s' = view s \<Longrightarrow>
      Q (Inl ErrRecordNotFound) s'"
    and known: "\<And>u now s'. find (\<lambda>u. u_UID u = uid) (st_users (view s)) = Some u \<Longrightarrow> view s' = view s \<Longrightarrow>
      Q (case may_use C password now (pending (st_keys (view s)) uid) u of None \<Rightarrow> Inr u | Some err \<Rightarrow> Inl err) s'"
  shows "wp (Authenticate W C uid password) Q s"
proof (cases "find (\<lambda>u. u_UID u = uid) (st_users (view s))")
  case None
  then show ?thesis
    unfolding Authenticate_def wp_bind
    by (intro reliable.wp_First_users [OF assms(1)]) (simp add: first_answer_def unknown)
next
  case (Some u)
  note known = known [OF Some, unfolded may_use_def]
  show ?thesis
    unfolding Authenticate_def wp_bind
    by (rule reliable.wp_First_users [OF assms(1)])
      (use known in \<open>fastforce simp: Some first_answer_def split: option.splits if_splits
        intro!: reliable.wp_time_Now [OF assms(1)] reliable.wp_UserPendingUsage [OF assms(1)]\<close>)
qed


definition mem_user :: mem where
  "mem_user = mem0\<lparr>mem_users := [zero_user\<lparr>u_ID := 1, u_UID := ''alice'', u_PasswordHash := ''$2a$pw'',
     u_Enabled := True, u_QuotaBytes := 10, u_UsedBytes := 12\<rparr>]\<rparr>"


text \<open>What Redis keeps of a user, for an identifier that holds no pattern characters.\<close>

definition runtime_keys :: "string \<Rightarrow> string set" where
  "runtime_keys uid =
     {ConnKey uid, UsageKey uid ''upload'', UsageKey uid ''download'', RequestsKey uid}
     \<union> {k. HasPrefix k (''sticky:'' @ uid @ '':'')}"

lemma glob_uid:
  "list_all glob_char uid \<Longrightarrow> glob (''sticky:'' @ uid @ '':*'') k \<longleftrightarrow> HasPrefix k (''sticky:'' @ uid @ '':'')"
  using glob_prefix_star [of "''sticky:'' @ uid @ '':''" k] by (simp add: glob_char_def)

context reliable
begin

lemma wp_CleanupUserRuntime:
  assumes "\<And>s'. view s' = (view s)\<lparr>st_keys := st_keys (view s) |` (-
      ({ConnKey uid, UsageKey uid ''upload'', UsageKey uid ''download'', RequestsKey uid}
       \<union> {k. glob (''sticky:'' @ uid @ '':*'') k}))\<rparr> \<Longrightarrow> Q None s'"
  shows "wp (CleanupUserRuntime W uid) Q s"
  unfolding CleanupUserRuntime_def wp_bind
proof (rule wp_redis_Keys, simp only: sum.case, rule wp_redis_Del, rule assms)
  fix ks s1 s2
  let ?m = "st_keys (view s)" and ?pat = "''sticky:'' @ uid @ '':*''"
  let ?fix = "[ConnKey uid, UsageKey uid ''upload'', UsageKey uid ''download'', RequestsKey uid]"
  assume "view s1 = view s" "set ks = {k. ?m k \<noteq> None \<and> glob ?pat k}"
    and "view s2 = (view s1)\<lparr>st_keys := st_keys (view s1) |` (- set (?fix @ ks))\<rparr>"
  moreover have "?m |` (- (set ?fix \<union> {k. ?m k \<noteq> None \<and> glob p k})) = ?m |` (- (set ?fix \<union> {k. glob p k}))" for p
    by (rule ext) (auto simp: restrict_map_def)
  ultimately show "view s2 = (view s)\<lparr>st_keys := ?m |` (- ({ConnKey uid, UsageKey uid ''upload'',
      UsageKey uid ''download'', RequestsKey uid} \<union> {k. glob ?pat k}))\<rparr>"
    by (simp only: set_append) simp
qed

end

text \<open>
  For a user whose identifier has no pattern character, CleanupUserRuntime deletes the user's
  counters and the sticky sessions under the identifier and leaves every other key as it is.
\<close>

theorem CleanupUserRuntime_exact:
  assumes "reliable W view" and "list_all glob_char uid"
  shows "wp (CleanupUserRuntime W uid) (\<lambda>err s'. err = None \<and>
     view s' = (view s)\<lparr>st_keys := st_keys (view s) |` (- runtime_keys uid)\<rparr>) s"
  by (rule reliable.wp_CleanupUserRuntime [OF assms(1)])
    (simp add: runtime_keys_def glob_uid [OF assms(2)] del: append.simps)

theorem CleanupUserRuntime_exact_witness:
  "wp (CleanupUserRuntime mem_world ''bob'') (\<lambda>err s'. err = None \<and>
     st_keys (mem_view s') (ConnKey ''alice'') = Some (VStr ''2'' 0)) (mem1 (ConnKey ''alice'') (VStr ''2'' 0))"
  by (rule wp_mono [OF CleanupUserRuntime_exact [OF mem.reliable_axioms]])
    (simp_all add: glob_char_def runtime_keys_def ConnKey_def UsageKey_def RequestsKey_def HasPrefix_def)

lemma deleted_key: "k \<in> K \<Longrightarrow> v' = v\<lparr>st_keys := st_keys v |` (- K)\<rparr> \<Longrightarrow> st_keys v' k = None"
  by simp

lemma glob_all_sticky: "glob ''sticky:*:*'' (''sticky:'' @ s) \<longleftrightarrow> CHR '':'' \<in> set s"
proof -
  have "glob '':*'' t \<longleftrightarrow> (\<exists>b. t = CHR '':'' # b)" for t
    using glob_prefix_star [of "'':''" t] by (auto simp: glob_char_def HasPrefix_iff)
  then have "glob (CHR ''*'' # '':*'') s \<longleftrightarrow> (\<exists>a b. s = a @ CHR '':'' # b)"
    using glob_star [of "'':*''" s] by metis
  then show ?thesis
    using glob_literal [of "''sticky:''" "''*:*''" "''sticky:'' @ s"]
    by (auto simp: glob_char_def in_set_conv_decomp)
qed

text \<open>
  The identifier is put into the pattern as it is: removing the user whose identifier is
  \<^verbatim>\<open>*\<close> removes the sticky sessions of every user.
\<close>

theorem CleanupUserRuntime_pattern:
  assumes "reliable W view"
  shows "wp (CleanupUserRuntime W ''*'') (\<lambda>err s'. err = None \<and>
     (\<forall>uid h sid. st_keys (view s') (StickyKey uid h sid) = None)) s"
proof (rule reliable.wp_CleanupUserRuntime [OF assms])
  fix s' let ?K = "{ConnKey ''*'', UsageKey ''*'' ''upload'', UsageKey ''*'' ''download'', RequestsKey ''*''}
    \<union> {k. glob (''sticky:'' @ ''*'' @ '':*'') k}"
  assume v: "view s' = (view s)\<lparr>st_keys := st_keys (view s) |` (- ?K)\<rparr>"
  have "StickyKey uid h sid \<in> ?K" for uid h sid
    using glob_all_sticky [of "uid @ '':'' @ h @ '':'' @ sid"] by (simp add: StickyKey_def)
  then have "st_keys (view s') (StickyKey uid h sid) = None" for uid h sid
    by (rule deleted_key [OF _ v])
  then show "None = None \<and> (\<forall>uid h sid. st_keys (view s') (StickyKey uid h sid) = None)" by simp
qed

theorem CleanupUserRuntime_pattern_witness:
  "wp (CleanupUserRuntime mem_world ''*'') (\<lambda>err s'.
     st_keys (mem_view s') (StickyKey ''alice'' ''default'' ''s1'') = None)
   (mem1 (StickyKey ''alice'' ''default'' ''s1'') (VStr ''7'' 0))"
  by (rule wp_mono [OF CleanupUserRuntime_pattern [OF mem.reliable_axioms]]) simp

end
