(* ===== verification/QuotaRace.thy ===== *)
theory QuotaRace
  imports Quota
begin

text \<open>
  The connection counter of \<^verbatim>\<open>internal/quota/service.go\<close> with several requests of one user in
  flight: the commands of Acquire (INCR, then DECR when over the limit) and Release (GET, then DEL
  or DECR) as the steps of an interleaving.  A request is a program counter, the shared state the
  counter in Redis (\<open>None\<close>: no key).
\<close>

datatype pc =
    Idle
  | Counted int
  | Admitted
  | Closing int

type_synonym shared = "int option \<times> pc list"

definition conn_count :: "int option \<Rightarrow> int" where
  "conn_count c = (case c of None \<Rightarrow> 0 | Some n \<Rightarrow> n)"

definition over :: "int \<Rightarrow> int \<Rightarrow> bool" where
  "over limit current \<longleftrightarrow> limit > 0 \<and> current > limit"

inductive acquire_step :: "int \<Rightarrow> shared \<Rightarrow> shared \<Rightarrow> bool" for limit where
  incr: "i < length ps \<Longrightarrow> ps ! i = Idle \<Longrightarrow>
    acquire_step limit (c, ps) (Some (conn_count c + 1), ps[i := Counted (conn_count c + 1)])"
| admit: "i < length ps \<Longrightarrow> ps ! i = Counted n \<Longrightarrow> \<not> over limit n \<Longrightarrow>
    acquire_step limit (c, ps) (c, ps[i := Admitted])"
| reject: "i < length ps \<Longrightarrow> ps ! i = Counted n \<Longrightarrow> over limit n \<Longrightarrow>
    acquire_step limit (c, ps) (Some (conn_count c - 1), ps[i := Idle])"

inductive release_step :: "shared \<Rightarrow> shared \<Rightarrow> bool" where
  get: "i < length ps \<Longrightarrow> ps ! i = Admitted \<Longrightarrow>
    release_step (c, ps) (c, ps[i := Closing (conn_count c)])"
| del: "i < length ps \<Longrightarrow> ps ! i = Closing n \<Longrightarrow> n \<le> 1 \<Longrightarrow>
    release_step (c, ps) (None, ps[i := Idle])"
| decr: "i < length ps \<Longrightarrow> ps ! i = Closing n \<Longrightarrow> n > 1 \<Longrightarrow>
    release_step (c, ps) (Some (conn_count c - 1), ps[i := Idle])"

definition system_step :: "int \<Rightarrow> shared \<Rightarrow> shared \<Rightarrow> bool" where
  "system_step limit s s' \<longleftrightarrow> acquire_step limit s s' \<or> release_step s s'"

text \<open>Release in one step: what the three steps do when no other step comes between.\<close>

inductive atomic_release :: "shared \<Rightarrow> shared \<Rightarrow> bool" where
  atomic: "i < length ps \<Longrightarrow> ps ! i = Admitted \<Longrightarrow>
    atomic_release (c, ps) (if conn_count c \<le> 1 then None else Some (conn_count c - 1), ps[i := Idle])"

definition atomic_step :: "int \<Rightarrow> shared \<Rightarrow> shared \<Rightarrow> bool" where
  "atomic_step limit s s' \<longleftrightarrow> acquire_step limit s s' \<or> atomic_release s s'"

definition start :: "nat \<Rightarrow> shared" where
  "start n = (None, replicate n Idle)"

definition admitted :: "pc list \<Rightarrow> nat" where
  "admitted ps = length (filter (\<lambda>p. p = Admitted \<or> (\<exists>n. p = Closing n)) ps)"

lemma release_alone:
  assumes "atomic_release s s'"
  shows "\<exists>t. release_step s t \<and> release_step t s'"
  using assms
proof cases
  case (atomic i ps c)
  let ?t = "(c, ps[i := Closing (conn_count c)])"
  have "release_step s ?t" using atomic by (auto intro: release_step.get)
  moreover have "release_step ?t s'"
    using atomic release_step.del [of i "ps[i := Closing (conn_count c)]" "conn_count c" c]
      release_step.decr [of i "ps[i := Closing (conn_count c)]" "conn_count c" c]
    by (auto split: if_splits)
  ultimately show ?thesis by blast
qed

section \<open>Releases in one step\<close>

text \<open>Requests that hold a count, and those of them that have passed or will pass the check.\<close>

definition holds :: "pc \<Rightarrow> bool" where
  "holds p \<longleftrightarrow> p \<noteq> Idle"

definition passes :: "int \<Rightarrow> pc \<Rightarrow> bool" where
  "passes limit p \<longleftrightarrow> (case p of Counted n \<Rightarrow> \<not> over limit n | Idle \<Rightarrow> False | _ \<Rightarrow> True)"

abbreviation number :: "(pc \<Rightarrow> bool) \<Rightarrow> pc list \<Rightarrow> int" where
  "number P ps \<equiv> int (length (filter P ps))"

lemma number_update:
  "i < length ps \<Longrightarrow> number P (ps[i := p]) = number P ps + of_bool (P p) - of_bool (P (ps ! i))"
proof (induction ps arbitrary: i)
  case (Cons q ps)
  then show ?case by (cases i) auto
qed simp

lemma number_mono: "(\<And>p. P p \<Longrightarrow> Q p) \<Longrightarrow> number P ps \<le> number Q ps"
  by (induction ps) auto

definition counter_inv :: "int \<Rightarrow> shared \<Rightarrow> bool" where
  "counter_inv limit s \<longleftrightarrow> (case s of (c, ps) \<Rightarrow>
     conn_count c = number holds ps \<and> number (passes limit) ps \<le> limit \<and> (\<forall>p\<in>set ps. \<forall>n. p \<noteq> Closing n))"

lemma counter_inv_acquire:
  assumes "counter_inv limit (c, ps)" and "0 < limit" and "acquire_step limit (c, ps) s'"
  shows "counter_inv limit s'"
  using assms(3)
proof cases
  case (incr i)
  have "number (passes limit) (ps[i := Counted (conn_count c + 1)]) \<le> limit"
  proof (cases "over limit (conn_count c + 1)")
    case True
    then show ?thesis using incr assms(1) by (simp add: number_update counter_inv_def passes_def)
  next
    case False
    have "number (passes limit) ps \<le> number holds ps"
      by (rule number_mono) (simp add: passes_def holds_def split: pc.splits)
    then show ?thesis
      using incr False assms(1,2) by (simp add: number_update counter_inv_def passes_def over_def)
  qed
  then show ?thesis
    using incr assms(1) set_update_subset_insert [of ps i "Counted (conn_count c + 1)"]
    by (auto simp: counter_inv_def number_update holds_def conn_count_def [of "Some _"])
next
  case (admit i n)
  then have "number holds (ps[i := Admitted]) = number holds ps"
    by (simp only: number_update) (simp add: holds_def)
  then show ?thesis
    using admit assms(1) set_update_subset_insert [of ps i Admitted]
    by (auto simp del: of_nat_eq_iff simp: counter_inv_def number_update holds_def passes_def)
next
  case (reject i n)
  then show ?thesis
    using assms(1) set_update_subset_insert [of ps i Idle]
    by (auto simp: counter_inv_def number_update holds_def passes_def conn_count_def [of "Some _"])
qed

lemma counter_inv_release:
  assumes "counter_inv limit (c, ps)" and "atomic_release (c, ps) s'"
  shows "counter_inv limit s'"
  using assms(2)
proof cases
  case (atomic i)
  have "1 \<le> number holds ps"
    using atomic by (metis (mono_tags, lifting) filter_empty_conv holds_def length_0_conv nth_mem
        of_nat_1 of_nat_le_iff One_nat_def Suc_leI length_greater_0_conv pc.distinct(3))
  then show ?thesis
    using atomic assms(1) set_update_subset_insert [of ps i Idle]
    by (auto simp: counter_inv_def number_update holds_def passes_def conn_count_def split: if_splits option.splits)
qed

lemma counter_inv_reachable:
  assumes "(atomic_step limit)\<^sup>*\<^sup>* (start n) s" and "0 < limit"
  shows "counter_inv limit s"
  using assms(1)
proof (induction rule: rtranclp_induct)
  case base
  then show ?case using assms(2) by (simp add: counter_inv_def start_def conn_count_def holds_def passes_def)
next
  case (step s s')
  then show ?case
    using counter_inv_acquire counter_inv_release assms(2) unfolding atomic_step_def
    by (metis surj_pair)
qed

section \<open>Properties\<close>

text \<open>
  C12: If Release were one step, every interleaving of any number of requests of a user would keep
  the connections admitted within MaxConcurrency: the INCR, check and DECR of Acquire are safe.
\<close>

theorem acquire_interleaves_safely:
  assumes "(atomic_step limit)\<^sup>*\<^sup>* (start n) (c, ps)" and "0 < limit"
  shows "int (admitted ps) \<le> limit"
proof -
  have "number (\<lambda>p. p = Admitted \<or> (\<exists>n. p = Closing n)) ps \<le> number (passes limit) ps"
    by (rule number_mono) (auto simp: passes_def)
  with counter_inv_reachable [OF assms] show ?thesis by (simp add: counter_inv_def admitted_def)
qed

lemma admit_first: "(atomic_step 2)\<^sup>*\<^sup>* (start 1) (Some 1, [Admitted])"
proof -
  have "atomic_step 2 (start 1) (Some 1, [Counted 1])"
    using acquire_step.incr [of 0 "[Idle]" 2 None] by (simp add: start_def atomic_step_def conn_count_def)
  moreover have "atomic_step 2 (Some 1, [Counted 1]) (Some 1, [Admitted])"
    using acquire_step.admit [of 0 "[Counted 1]" 1 2 "Some 1"] by (simp add: atomic_step_def over_def)
  ultimately show ?thesis by (meson converse_rtranclp_into_rtranclp rtranclp.rtrancl_refl)
qed

theorem acquire_interleaves_safely_witness: "int (admitted [Admitted]) \<le> 2"
  by (rule acquire_interleaves_safely [OF admit_first]) simp

text \<open>Steps of request \<open>i\<close>, as rewriting of the state.\<close>

lemma step_incr: "i < length ps \<Longrightarrow> ps ! i = Idle \<Longrightarrow> (system_step l)\<^sup>*\<^sup>* (Some (conn_count c + 1), ps[i := Counted (conn_count c + 1)]) t
    \<Longrightarrow> (system_step l)\<^sup>*\<^sup>* (c, ps) t"
  by (meson acquire_step.incr converse_rtranclp_into_rtranclp system_step_def)

lemma step_admit: "i < length ps \<Longrightarrow> ps ! i = Counted n \<Longrightarrow> \<not> over l n \<Longrightarrow>
    (system_step l)\<^sup>*\<^sup>* (c, ps[i := Admitted]) t \<Longrightarrow> (system_step l)\<^sup>*\<^sup>* (c, ps) t"
  by (meson acquire_step.admit converse_rtranclp_into_rtranclp system_step_def)

lemma step_get: "i < length ps \<Longrightarrow> ps ! i = Admitted \<Longrightarrow>
    (system_step l)\<^sup>*\<^sup>* (c, ps[i := Closing (conn_count c)]) t \<Longrightarrow> (system_step l)\<^sup>*\<^sup>* (c, ps) t"
  by (meson release_step.get converse_rtranclp_into_rtranclp system_step_def)

lemma step_del: "i < length ps \<Longrightarrow> ps ! i = Closing n \<Longrightarrow> n \<le> 1 \<Longrightarrow>
    (system_step l)\<^sup>*\<^sup>* (None, ps[i := Idle]) t \<Longrightarrow> (system_step l)\<^sup>*\<^sup>* (c, ps) t"
  by (meson release_step.del converse_rtranclp_into_rtranclp system_step_def)

lemma step_decr: "i < length ps \<Longrightarrow> ps ! i = Closing n \<Longrightarrow> n > 1 \<Longrightarrow>
    (system_step l)\<^sup>*\<^sup>* (Some (conn_count c - 1), ps[i := Idle]) t \<Longrightarrow> (system_step l)\<^sup>*\<^sup>* (c, ps) t"
  by (meson release_step.decr converse_rtranclp_into_rtranclp system_step_def)

text \<open>
  C35: Release is not one step: a request that reads the count 1 and deletes the key after another
  was admitted makes the counter forget that other one, and a user of at most 2 connections gets 3.
\<close>

theorem release_race_over_admits:
  "\<exists>c ps. (system_step 2)\<^sup>*\<^sup>* (start 4) (c, ps) \<and> admitted ps = 3"
proof -
  have "(system_step 2)\<^sup>*\<^sup>* (start 4) (Some 2, [Idle, Admitted, Admitted, Admitted])"
    unfolding start_def
    apply (rule step_incr [of 0], simp_all add: conn_count_def numeral_eq_Suc)
    apply (rule step_admit [of 0 _ 1], simp_all add: conn_count_def over_def)
    apply (rule step_get [of 0], simp_all add: conn_count_def)
    apply (rule step_incr [of 1], simp_all add: conn_count_def)
    apply (rule step_admit [of 1 _ 2], simp_all add: conn_count_def over_def)
    apply (rule step_del [of 0 _ 1], simp_all add: conn_count_def)
    apply (rule step_incr [of 2], simp_all add: conn_count_def)
    apply (rule step_admit [of 2 _ 1], simp_all add: conn_count_def over_def)
    apply (rule step_incr [of 3], simp_all add: conn_count_def)
    apply (rule step_admit [of 3 _ 2], simp_all add: conn_count_def over_def)
    done
  then show ?thesis by (intro exI conjI) (assumption, simp add: admitted_def)
qed

text \<open>
  The counter can drift: with every connection closed it can hold -1, and then admits one
  more than the limit without any further race.
\<close>

theorem release_race_drifts:
  "(system_step 2)\<^sup>*\<^sup>* (start 2) (Some (- 1), [Idle, Idle])"
  unfolding start_def
  apply (rule step_incr [of 0], simp_all add: conn_count_def numeral_eq_Suc)
  apply (rule step_admit [of 0 _ 1], simp_all add: conn_count_def over_def)
  apply (rule step_get [of 0], simp_all add: conn_count_def)
  apply (rule step_incr [of 1], simp_all add: conn_count_def)
  apply (rule step_admit [of 1 _ 2], simp_all add: conn_count_def over_def)
  apply (rule step_get [of 1], simp_all add: conn_count_def)
  apply (rule step_del [of 0 _ 1], simp_all add: conn_count_def)
  apply (rule step_decr [of 1 _ 2], simp_all add: conn_count_def)
  done

end
