(* ===== verification/Stats.thy ===== *)
theory Stats
  imports RedisStore
begin

text \<open>
  Package \<^verbatim>\<open>stats\<close> (\<^verbatim>\<open>internal/stats/service.go\<close>): traffic is counted in Redis
  (RecordTraffic) and moved to the rows of users and nodes by FlushUsage; the figures of the
  admin pages are read from both.  The sums of the SQL statements are those of unbounded
  integers, the scores of the sorted set integers.  The times of the audit log are left out.
\<close>

section \<open>Hours\<close>

abbreviation hour_ns :: int where
  "hour_ns \<equiv> 3600 * 1000000000"

definition pad :: "nat \<Rightarrow> int \<Rightarrow> string" where
  "pad w i = (let s = show_nat (nat i) in replicate (w - length s) (CHR ''0'') @ s)"

text \<open>Year, month and day of the proleptic Gregorian calendar from the days since 1970-01-01.\<close>

definition civil :: "int \<Rightarrow> int \<times> int \<times> int" where
  "civil days =
     (let z = days + 719468;
          era = z div 146097;
          doe = z mod 146097;
          yoe = (doe - doe div 1460 + doe div 36524 - doe div 146096) div 365;
          doy = doe - (365 * yoe + yoe div 4 - yoe div 100);
          mp = (5 * doy + 2) div 153;
          d = doy - (153 * mp + 2) div 5 + 1;
          m = (if mp < 10 then mp + 3 else mp - 9);
          y = yoe + era * 400 + (if m \<le> 2 then 1 else 0)
      in (y, m, d))"

definition hour_of_day :: "time \<Rightarrow> int" where
  "hour_of_day t = t div hour_ns mod 24"

text \<open>\<^verbatim>\<open>t.UTC().Format("2006010215")\<close>\<close>

definition format_hour :: "time \<Rightarrow> string" where
  "format_hour t = (let (y, m, d) = civil (t div hour_ns div 24)
     in pad 4 y @ pad 2 m @ pad 2 d @ pad 2 (hour_of_day t))"

definition truncate_hour :: "time \<Rightarrow> time" where
  "truncate_hour t = t - t mod hour_ns"

section \<open>Recording traffic\<close>

record TrafficRecord =
  t_UID :: string
  t_NodeID :: nat
  t_Region :: string
  t_Upload :: int
  t_Download :: int
  t_Requests :: int

definition maxInt64 :: "int \<Rightarrow> int \<Rightarrow> int" where
  "maxInt64 value fallback = (if value \<le> 0 then fallback else value)"

definition RecordTraffic_pipe :: "TrafficRecord \<Rightarrow> time \<Rightarrow> wcmd list" where
  "RecordTraffic_pipe r now =
     [INCRBY (UsageKey (t_UID r) ''upload'') (t_Upload r),
      INCRBY (UsageKey (t_UID r) ''download'') (t_Download r),
      INCRBY (RequestsKey (t_UID r)) (maxInt64 (t_Requests r) 1)] @
     (if t_NodeID r > 0
      then [INCRBY (NodeUsageKey (t_NodeID r) ''upload'') (t_Upload r),
            INCRBY (NodeUsageKey (t_NodeID r) ''download'') (t_Download r),
            INCRBY (NodeRequestsKey (t_NodeID r)) (maxInt64 (t_Requests r) 1)]
      else []) @
     [ZINCRBY (RegionUsageKey (t_Region r)) (wrap64 (t_Upload r + t_Download r)) (RegionMember (t_Region r)),
      INCRBY (HourlyUsageKey (format_hour now)) (wrap64 (t_Upload r + t_Download r))]"

definition RecordTraffic :: "'s world \<Rightarrow> TrafficRecord \<Rightarrow> ('s, error option) state" where
  "RecordTraffic W r = do {
     now \<leftarrow> time_Now W;
     redis_Exec W (RecordTraffic_pipe r now)
   }"

section \<open>Moving the counters to the database\<close>

definition requestCount :: "'s world \<Rightarrow> string \<Rightarrow> ('s, int) state" where
  "requestCount W uid = do {
     requests \<leftarrow> redis_Get W (RequestsKey uid);
     State_Monad.return (or_zero (Int64 requests))
   }"

text \<open>\<^verbatim>\<open>key[len("usage:") : len(key)-len(":upload")]\<close>\<close>

definition usage_uid :: "string \<Rightarrow> string" where
  "usage_uid key = drop 6 (take (length key - 7) key)"

primrec flush_users :: "'s world \<Rightarrow> string list \<Rightarrow> ('s, error option) state" where
  "flush_users W [] = State_Monad.return None"
| "flush_users W (key # keys) =
     (if HasPrefix key ''usage:node:'' then flush_users W keys
      else do {
        let uid = usage_uid key;
        up \<leftarrow> redis_Get W (UsageKey uid ''upload'');
        down \<leftarrow> redis_Get W (UsageKey uid ''download'');
        let up = or_zero (Int64 up);
        let down = or_zero (Int64 down);
        let total = wrap64 (up + down);
        if total = 0 then flush_users W keys
        else do {
          counted \<leftarrow> requestCount W uid;
          err \<leftarrow> db_Updates (users_tbl W) (\<lambda>u. u_UID u = uid)
            (\<lambda>u. u\<lparr>u_UsedBytes := u_UsedBytes u + total, u_TotalRequests := u_TotalRequests u + counted\<rparr>);
          case err of
            Some e \<Rightarrow> State_Monad.return (Some e)
          | None \<Rightarrow> do {
              requests \<leftarrow> redis_Get W (RequestsKey uid);
              let requests = or_zero (Int64 requests);
              err' \<leftarrow> redis_Exec W
                [INCRBY (UsageKey uid ''upload'') (- up), INCRBY (UsageKey uid ''download'') (- down),
                 INCRBY (RequestsKey uid) (- requests)];
              case err' of
                Some e \<Rightarrow> State_Monad.return (Some e)
              | None \<Rightarrow> flush_users W keys
            }
        }
      })"

text \<open>
  \<^verbatim>\<open>fmt.Sscanf(key, "usage:node:%d:upload", &nodeID)\<close>: white space before the digits is skipped
  (a line end is an error), what follows the format is ignored.
\<close>

definition scan_node_key :: "string \<Rightarrow> nat option" where
  "scan_node_key key =
     (if \<not> HasPrefix key ''usage:node:'' then None
      else
        let rest = drop 11 key; body = TrimLeft rest;
            skipped = take (length rest - length body) rest;
            digits = takeWhile is_digit body
        in if CHR 0x0A \<in> set skipped then None
           else case ParseUint digits of
             None \<Rightarrow> None
           | Some i \<Rightarrow> if HasPrefix (drop (length digits) body) '':upload'' then Some i else None)"

primrec flush_nodes :: "'s world \<Rightarrow> string list \<Rightarrow> ('s, error option) state" where
  "flush_nodes W [] = State_Monad.return None"
| "flush_nodes W (key # keys) =
     (case scan_node_key key of
        None \<Rightarrow> flush_nodes W keys
      | Some nodeID \<Rightarrow> do {
          upload \<leftarrow> redis_Get W (NodeUsageKey nodeID ''upload'');
          download \<leftarrow> redis_Get W (NodeUsageKey nodeID ''download'');
          requests \<leftarrow> redis_Get W (NodeRequestsKey nodeID);
          let upload = or_zero (Int64 upload);
          let download = or_zero (Int64 download);
          let requests = or_zero (Int64 requests);
          if upload = 0 \<and> download = 0 \<and> requests = 0 then flush_nodes W keys
          else do {
            err \<leftarrow> db_Updates (nodes_tbl W) (\<lambda>n. n_ID n = nodeID)
              (\<lambda>n. n\<lparr>n_UploadBytes := n_UploadBytes n + upload,
                      n_DownloadBytes := n_DownloadBytes n + download,
                      n_TotalRequests := n_TotalRequests n + requests\<rparr>);
            case err of
              Some e \<Rightarrow> State_Monad.return (Some e)
            | None \<Rightarrow> do {
                err' \<leftarrow> redis_Exec W
                  [INCRBY (NodeUsageKey nodeID ''upload'') (- upload),
                   INCRBY (NodeUsageKey nodeID ''download'') (- download),
                   INCRBY (NodeRequestsKey nodeID) (- requests)];
                case err' of
                  Some e \<Rightarrow> State_Monad.return (Some e)
                | None \<Rightarrow> flush_nodes W keys
              }
          }
        })"

definition flushNodeUsage :: "'s world \<Rightarrow> ('s, error option) state" where
  "flushNodeUsage W = do {
     keys \<leftarrow> redis_Keys W ''usage:node:*:upload'';
     case keys of
       Inl err \<Rightarrow> State_Monad.return (Some err)
     | Inr keys \<Rightarrow> flush_nodes W keys
   }"

definition FlushUsage :: "'s world \<Rightarrow> ('s, error option) state" where
  "FlushUsage W = do {
     keys \<leftarrow> redis_Keys W ''usage:*:upload'';
     case keys of
       Inl err \<Rightarrow> State_Monad.return (Some err)
     | Inr keys \<Rightarrow> do {
         err \<leftarrow> flush_users W keys;
         case err of
           Some e \<Rightarrow> State_Monad.return (Some e)
         | None \<Rightarrow> flushNodeUsage W
       }
   }"

section \<open>Figures\<close>

definition trafficNodeTag :: "string \<Rightarrow> string \<Rightarrow> string \<Rightarrow> string \<Rightarrow> string \<Rightarrow> string" where
  "trafficNodeTag rawTag region city asn exitIP =
     (let parts = filter (\<lambda>s. s \<noteq> []) [region, city, asn, exitIP]
      in if parts = [] then rawTag else Join parts '' | '')"

primrec hours_total :: "'s world \<Rightarrow> time \<Rightarrow> nat \<Rightarrow> ('s, int) state" where
  "hours_total W now 0 = State_Monad.return 0"
| "hours_total W now (Suc n) = do {
     total \<leftarrow> hours_total W now n;
     value \<leftarrow> redis_Get W (HourlyUsageKey (format_hour (now - int n * hour_ns)));
     State_Monad.return (wrap64 (total + or_zero (Int64 value)))
   }"

definition todayTraffic :: "'s world \<Rightarrow> ('s, int) state" where
  "todayTraffic W = do {
     t \<leftarrow> time_Now W;
     let now = truncate_hour t;
     hours_total W now (Suc (nat (hour_of_day now)))
   }"

definition topRegions :: "'s world \<Rightarrow> ('s, (string \<times> int) list) state" where
  "topRegions W = do {
     r \<leftarrow> redis_cl W (ZREVRANGE (RegionUsageKey []) 10);
     State_Monad.return (case r of
         Inr (RScored values) \<Rightarrow> sort_key (\<lambda>z. - snd z) values
       | _ \<Rightarrow> [])
   }"

text \<open>The condition \<^verbatim>\<open>uid NOT LIKE '\_\_admin\_\_:%'\<close>; LIKE ignores the case of ASCII letters.\<close>

definition not_admin :: "User \<Rightarrow> bool" where
  "not_admin u \<longleftrightarrow> \<not> HasPrefix (map lower_char (u_UID u)) AdminUIDPrefix"

text \<open>\<^verbatim>\<open>action LIKE '%error%'\<close>\<close>

definition error_action :: "AuditLog \<Rightarrow> bool" where
  "error_action a \<longleftrightarrow> Contains (map lower_char (a_Action a)) ''error''"

record Overview =
  o_TotalUsers :: nat
  o_ActiveUsers :: nat
  o_TotalNodes :: nat
  o_HealthyNodes :: nat
  o_UnhealthyNodes :: int
  o_TotalTraffic :: int
  o_ActiveConnections :: int
  o_TotalRequests :: int
  o_TodayTraffic :: int
  o_RegionCounts :: "(string \<times> nat) list"
  o_RecentErrors :: "(string \<times> string \<times> string) list"

primrec connections :: "'s world \<Rightarrow> string list \<Rightarrow> ('s, nat \<times> int) state" where
  "connections W [] = State_Monad.return (0, 0)"
| "connections W (key # keys) = do {
     r \<leftarrow> redis_Get W key;
     let n = or_zero (Int64 r);
     (users, conns) \<leftarrow> connections W keys;
     State_Monad.return (if n > 0 then Suc users else users, wrap64 (n + conns))
   }"

definition rows_or_empty :: "error + 'r list \<Rightarrow> 'r list" where
  "rows_or_empty r = (case r of Inl _ \<Rightarrow> [] | Inr rows \<Rightarrow> rows)"

definition count_or_zero :: "error + nat \<Rightarrow> nat" where
  "count_or_zero r = (case r of Inl _ \<Rightarrow> 0 | Inr n \<Rightarrow> n)"

definition OverviewOf :: "'s world \<Rightarrow> ('s, Overview) state" where
  "OverviewOf W = do {
     totalUsers \<leftarrow> db_Count (users_tbl W) not_admin;
     totalNodes \<leftarrow> db_Count (nodes_tbl W) (\<lambda>_. True);
     healthyNodes \<leftarrow> db_Count (nodes_tbl W) n_Healthy;
     traffic \<leftarrow> db_Find (users_tbl W) not_admin;
     requests \<leftarrow> db_Find (users_tbl W) not_admin;
     keys \<leftarrow> redis_Keys W ''conn:*:current'';
     (activeUsers, activeConns) \<leftarrow> connections W (case keys of Inl _ \<Rightarrow> [] | Inr ks \<Rightarrow> ks);
     regions \<leftarrow> db_Find (nodes_tbl W) (\<lambda>n. n_DetectedRegion n \<noteq> []);
     today \<leftarrow> todayTraffic W;
     audit \<leftarrow> db_Find (audit_tbl W) error_action;
     let names = map n_DetectedRegion (rows_or_empty regions);
     State_Monad.return \<lparr>
       o_TotalUsers = count_or_zero totalUsers, o_ActiveUsers = activeUsers,
       o_TotalNodes = count_or_zero totalNodes, o_HealthyNodes = count_or_zero healthyNodes,
       o_UnhealthyNodes = int (count_or_zero totalNodes) - int (count_or_zero healthyNodes),
       o_TotalTraffic = sum_list (map u_UsedBytes (rows_or_empty traffic)),
       o_ActiveConnections = activeConns,
       o_TotalRequests = sum_list (map u_TotalRequests (rows_or_empty requests)),
       o_TodayTraffic = today,
       o_RegionCounts = map (\<lambda>r. (r, length (filter (\<lambda>x. x = r) names))) (remdups names),
       o_RecentErrors = map (\<lambda>a. (a_Action a, a_TargetType a @ ''#'' @ a_TargetID a, a_Detail a))
         (take 5 (rev (sort_key a_ID (rows_or_empty audit))))\<rparr>
   }"

record TrafficSummary =
  ts_TopUsers :: "(string \<times> int \<times> int) list"
  ts_TopNodes :: "(string \<times> string \<times> string \<times> int \<times> int \<times> int) list"
  ts_TopRegions :: "(string \<times> int) list"
  ts_Recent24H :: "(string \<times> int) list"

text \<open>\<^verbatim>\<open>ts.Format("15:00")\<close> in the zone of the process, \<open>zone\<close> nanoseconds east of UTC.\<close>

primrec recent_hours :: "'s world \<Rightarrow> int \<Rightarrow> time \<Rightarrow> nat \<Rightarrow> ('s, (string \<times> int) list) state" where
  "recent_hours W zone now 0 = State_Monad.return []"
| "recent_hours W zone now (Suc i) = do {
     let ts = now - int i * hour_ns;
     r \<leftarrow> redis_Get W (HourlyUsageKey (format_hour ts));
     points \<leftarrow> recent_hours W zone now i;
     State_Monad.return ((pad 2 (hour_of_day (ts + zone)) @ '':00'', or_zero (Int64 r)) # points)
   }"

definition TrafficSummaryOf :: "'s world \<Rightarrow> int \<Rightarrow> ('s, TrafficSummary) state" where
  "TrafficSummaryOf W zone = do {
     users \<leftarrow> db_Find (users_tbl W) not_admin;
     nodes \<leftarrow> db_Find (nodes_tbl W) (\<lambda>_. True);
     regions \<leftarrow> topRegions W;
     t \<leftarrow> time_Now W;
     points \<leftarrow> recent_hours W zone (truncate_hour t) 24;
     State_Monad.return \<lparr>
       ts_TopUsers = map (\<lambda>u. (u_UID u, u_UsedBytes u, u_TotalRequests u))
         (take 10 (sort_key (\<lambda>u. - u_UsedBytes u) (rows_or_empty users))),
       ts_TopNodes = map (\<lambda>n. (trafficNodeTag (n_Tag n) (n_DetectedRegion n) (n_City n) (n_ASN n) (n_ExitIP n),
             n_Tag n, n_ExitIP n, n_LatencyMS n, n_UploadBytes n + n_DownloadBytes n, n_TotalRequests n))
         (take 10 (sort_key (\<lambda>n. - (n_UploadBytes n + n_DownloadBytes n)) (rows_or_empty nodes))),
       ts_TopRegions = regions,
       ts_Recent24H = points\<rparr>
   }"

text \<open>\<^verbatim>\<open>UpsertAudit\<close>: a conflict leaves the row there is.\<close>

definition UpsertAudit :: "'s world \<Rightarrow> AuditLog \<Rightarrow> ('s, error option) state" where
  "UpsertAudit W log = db_Upsert (audit_tbl W) (\<lambda>old new. a_ID new \<noteq> 0 \<and> a_ID old = a_ID new) (\<lambda>old new. old) log"

section \<open>Counters\<close>

definition num :: "keyspace \<Rightarrow> string \<Rightarrow> int" where
  "num m k = or_zero (Int64 (get_answer m k))"

definition numeric :: "keyspace \<Rightarrow> string \<Rightarrow> bool" where
  "numeric m k \<longleftrightarrow> (case m k of None \<Rightarrow> True | Some (VStr v _) \<Rightarrow> ParseInt v \<noteq> None | Some _ \<Rightarrow> False)"

lemma num_upd [simp]:
  "int64_range i \<Longrightarrow> num (m(k \<mapsto> VStr (Itoa i) ttl)) j = (if j = k then i else num m j)"
  "int64_range i \<Longrightarrow> numeric (m(k \<mapsto> VStr (Itoa i) ttl)) j \<longleftrightarrow> j = k \<or> numeric m j"
  by (simp_all add: num_def numeric_def get_answer_def)

lemma num_cong: "m k = m' k \<Longrightarrow> num m k = num m' k \<and> numeric m k = numeric m' k"
  by (simp add: num_def numeric_def get_answer_def)

lemma apply_incr:
  assumes "numeric m k" and "int64_range (num m k + n)"
  obtains ttl where "apply_w m (INCRBY k n) = (m(k \<mapsto> VStr (Itoa (num m k + n)) ttl), Inr (RInt (num m k + n)))"
  using assms by (auto simp: numeric_def num_def get_answer_def split: option.splits rval.splits)

text \<open>A transaction of INCRBY on distinct keys.\<close>

definition incr_effect :: "(string \<times> int) list \<Rightarrow> keyspace \<Rightarrow> keyspace \<Rightarrow> bool" where
  "incr_effect kns m m' \<longleftrightarrow> (\<forall>k. k \<notin> fst ` set kns \<longrightarrow> m' k = m k) \<and>
     (\<forall>(k, n)\<in>set kns. num m' k = num m k + n \<and> numeric m' k)"

abbreviation incrs :: "(string \<times> int) list \<Rightarrow> wcmd list" where
  "incrs kns \<equiv> map (\<lambda>(k, n). INCRBY k n) kns"

lemma tx_incr:
  assumes "distinct (map fst kns)" and "\<forall>(k, n)\<in>set kns. numeric m k \<and> int64_range (num m k + n)"
  shows "\<exists>m'. apply_tx m (incrs kns) = (m', Inr RStatus) \<and> incr_effect kns m m'"
  using assms
proof (induction kns arbitrary: m)
  case Nil
  then show ?case by (simp add: incr_effect_def)
next
  case (Cons kn kns)
  obtain k n where kn: "kn = (k, n)" by (cases kn)
  have k: "numeric m k" "int64_range (num m k + n)" using Cons.prems(2) kn by auto
  then obtain ttl where one: "apply_w m (INCRBY k n) = (m(k \<mapsto> VStr (Itoa (num m k + n)) ttl), Inr (RInt (num m k + n)))"
    by (rule apply_incr)
  let ?m1 = "m(k \<mapsto> VStr (Itoa (num m k + n)) ttl)"
  have new: "k \<notin> fst ` set kns" using Cons.prems(1) kn by simp
  have d: "distinct (map fst kns)" using Cons.prems(1) by simp
  have all: "\<forall>(j, i)\<in>set kns. numeric ?m1 j \<and> int64_range (num ?m1 j + i)"
  proof (rule ballI, clarify)
    fix j i assume j: "(j, i) \<in> set kns"
    then have "j \<noteq> k" using new by force
    moreover have "numeric m j \<and> int64_range (num m j + i)" using Cons.prems(2) j by auto
    ultimately show "numeric ?m1 j \<and> int64_range (num ?m1 j + i)" using k(2) by simp
  qed
  obtain m' where m': "apply_tx ?m1 (incrs kns) = (m', Inr RStatus)" "incr_effect kns ?m1 m'"
    using Cons.IH [OF d all] by blast
  have "m' k = ?m1 k" using m'(2) new by (simp add: incr_effect_def)
  then have own: "num m' k = num m k + n" "numeric m' k"
    using num_cong [of m' k ?m1] k(2) by simp_all
  moreover have "num m' j = num m j + i \<and> numeric m' j" if j: "(j, i) \<in> set kns" for j i
  proof -
    have "j \<noteq> k" using new j by force
    moreover have "num m' j = num ?m1 j + i \<and> numeric m' j" using m'(2) j by (auto simp: incr_effect_def)
    ultimately show ?thesis using k(2) by simp
  qed
  moreover have "m' j = m j" if "j \<noteq> k" "j \<notin> fst ` set kns" for j
    using m'(2) that by (simp add: incr_effect_def)
  ultimately have "incr_effect (kn # kns) m m'" by (auto simp: incr_effect_def kn)
  then show ?case using one m'(1) by (auto simp: kn simp del: apply_w.simps)
qed

lemma incr_effect_other: "incr_effect kns m m' \<Longrightarrow> k \<notin> fst ` set kns \<Longrightarrow> num m' k = num m k"
  unfolding incr_effect_def using num_cong by blast

lemma incr_effect_numeric:
  assumes "incr_effect kns m m'" and "numeric m k"
  shows "numeric m' k"
proof (cases "k \<in> fst ` set kns")
  case True
  then show ?thesis using assms(1) by (auto simp: incr_effect_def)
next
  case False
  then have "m' k = m k" using assms(1) unfolding incr_effect_def by blast
  then show ?thesis using assms(2) num_cong [of m' k m] by simp
qed

text \<open>The keys of different users and counters differ.\<close>

lemma split_last:
  "c \<notin> set b \<Longrightarrow> c \<notin> set b' \<Longrightarrow> a @ c # b = a' @ c # b' \<longleftrightarrow> a = a' \<and> b = b'"
proof -
  have rev: "c \<notin> set b \<Longrightarrow> c \<notin> set b' \<Longrightarrow> b @ c # a = b' @ c # a' \<longleftrightarrow> b = b' \<and> a = a'" for a a' b b' :: "'a list"
  proof (induction b arbitrary: b')
    case Nil then show ?case by (cases b') auto
  next
    case (Cons x b) then show ?case by (cases b') auto
  qed
  assume "c \<notin> set b" "c \<notin> set b'"
  then have "rev b @ c # rev a = rev b' @ c # rev a' \<longleftrightarrow> rev b = rev b' \<and> rev a = rev a'"
    by (intro rev) auto
  moreover have "a @ c # b = a' @ c # b' \<longleftrightarrow> rev (a @ c # b) = rev (a' @ c # b')" by (simp only: rev_is_rev_conv)
  ultimately show ?thesis by auto
qed

lemma UsageKey_eq:
  "CHR '':'' \<notin> set d \<Longrightarrow> CHR '':'' \<notin> set d' \<Longrightarrow> UsageKey uid d = UsageKey uid' d' \<longleftrightarrow> uid = uid' \<and> d = d'"
  by (simp add: UsageKey_def split_last)

lemma RequestsKey_eq: "RequestsKey uid = UsageKey uid ''requests''"
  by (simp add: RequestsKey_def UsageKey_def)

lemma NodeUsageKey_eq: "NodeUsageKey i d = UsageKey (''node:'' @ show_nat i) d"
  "NodeRequestsKey i = UsageKey (''node:'' @ show_nat i) ''requests''"
  by (simp_all add: NodeUsageKey_def NodeRequestsKey_def UsageKey_def)

definition counters_ok :: "keyspace \<Rightarrow> bool" where
  "counters_ok m \<longleftrightarrow> (\<forall>k. HasPrefix k ''usage:'' \<longrightarrow> numeric m k) \<and>
     (\<forall>uid. int64_range (num m (UsageKey uid ''upload'') + num m (UsageKey uid ''download'')))"

lemma UsageKey_prefix [simp]: "HasPrefix (UsageKey uid d) ''usage:''"
  by (simp add: UsageKey_def HasPrefix_def)

text \<open>Resetting the three counters of a user or node.\<close>

definition reset :: "string \<Rightarrow> keyspace \<Rightarrow> wcmd list" where
  "reset uid m = [INCRBY (UsageKey uid ''upload'') (- num m (UsageKey uid ''upload'')),
     INCRBY (UsageKey uid ''download'') (- num m (UsageKey uid ''download'')),
     INCRBY (UsageKey uid ''requests'') (- num m (UsageKey uid ''requests''))]"

definition reset_effect :: "string \<Rightarrow> keyspace \<Rightarrow> keyspace \<Rightarrow> bool" where
  "reset_effect uid m m' \<longleftrightarrow> counters_ok m' \<and>
     (\<forall>uid' d. d \<in> {''upload'', ''download'', ''requests''} \<longrightarrow>
        num m' (UsageKey uid' d) = (if uid' = uid then 0 else num m (UsageKey uid' d)))"

lemma reset_tx:
  assumes "counters_ok m"
  shows "\<exists>m'. apply_tx m (reset uid m) = (m', Inr RStatus) \<and> reset_effect uid m m'"
proof -
  let ?ds = "[''upload'', ''download'', ''requests'']"
  let ?kns = "map (\<lambda>d. (UsageKey uid d, - num m (UsageKey uid d))) ?ds"
  have colon: "CHR '':'' \<notin> set d" if "d \<in> set ?ds" for d using that by auto
  have "distinct (map fst ?kns)" by (simp add: UsageKey_eq)
  moreover have "\<forall>(k, n)\<in>set ?kns. numeric m k \<and> int64_range (num m k + n)"
    using assms by (simp add: counters_ok_def)
  ultimately obtain m' where m': "apply_tx m (incrs ?kns) = (m', Inr RStatus)" "incr_effect ?kns m m'"
    using tx_incr by blast
  have val: "num m' (UsageKey uid' d) = (if uid' = uid then 0 else num m (UsageKey uid' d))"
    if "d \<in> set ?ds" for uid' d
  proof (cases "uid' = uid")
    case True
    then show ?thesis using m'(2) that by (auto simp: incr_effect_def)
  next
    case False
    then have "UsageKey uid' d \<notin> fst ` set ?kns" using that by (auto simp: UsageKey_eq)
    then have "m' (UsageKey uid' d) = m (UsageKey uid' d)"
      using m'(2) unfolding incr_effect_def by blast
    then show ?thesis using False num_cong [of m' "UsageKey uid' d" m] by simp
  qed
  have "numeric m' k" if "HasPrefix k ''usage:''" for k
  proof (cases "k \<in> fst ` set ?kns")
    case True
    then show ?thesis using m'(2) by (auto simp: incr_effect_def)
  next
    case False
    then have "m' k = m k" using m'(2) unfolding incr_effect_def by blast
    then show ?thesis using num_cong [of m' k m] assms that by (simp add: counters_ok_def)
  qed
  then have "counters_ok m'" using val assms by (simp add: counters_ok_def)
  moreover have "\<forall>uid' d. d \<in> {''upload'', ''download'', ''requests''} \<longrightarrow>
      num m' (UsageKey uid' d) = (if uid' = uid then 0 else num m (UsageKey uid' d))"
    using val by (simp only: list.set) blast
  ultimately have "reset_effect uid m m'" unfolding reset_effect_def by blast
  then show ?thesis using m'(1) by (auto simp: reset_def)
qed

section \<open>Flushing conserves the usage\<close>

text \<open>
  What users and nodes have used: the bytes and requests of the row and those pending in Redis.
  The keys of an identifier that is \<^verbatim>\<open>node\<close> or starts with \<^verbatim>\<open>node:\<close> look like those of a node;
  such users are apart.
\<close>

definition node_named :: "string \<Rightarrow> bool" where
  "node_named uid \<longleftrightarrow> HasPrefix (uid @ '':'') ''node:''"

lemma node_named_prefix [simp]: "node_named (''node:'' @ s)"
  by (simp add: node_named_def HasPrefix_def)

definition user_view :: "store \<Rightarrow> (string \<times> int \<times> int) list" where
  "user_view v = map (\<lambda>u. (u_UID u,
       u_UsedBytes u + num (st_keys v) (UsageKey (u_UID u) ''upload'') + num (st_keys v) (UsageKey (u_UID u) ''download''),
       u_TotalRequests u + num (st_keys v) (UsageKey (u_UID u) ''requests'')))
     (filter (\<lambda>u. \<not> node_named (u_UID u)) (st_users v))"

definition node_view :: "store \<Rightarrow> (nat \<times> int \<times> int \<times> int) list" where
  "node_view v = map (\<lambda>n. (n_ID n,
       n_UploadBytes n + num (st_keys v) (NodeUsageKey (n_ID n) ''upload''),
       n_DownloadBytes n + num (st_keys v) (NodeUsageKey (n_ID n) ''download''),
       n_TotalRequests n + num (st_keys v) (NodeRequestsKey (n_ID n)))) (st_nodes v)"

definition conserves :: "store \<Rightarrow> store \<Rightarrow> bool" where
  "conserves v v' \<longleftrightarrow> counters_ok (st_keys v') \<and> user_view v' = user_view v \<and> node_view v' = node_view v \<and>
     filter (\<lambda>u. node_named (u_UID u)) (st_users v') = filter (\<lambda>u. node_named (u_UID u)) (st_users v)"

lemma conserves_trans: "conserves v v' \<Longrightarrow> conserves v' v'' \<Longrightarrow> conserves v v''"
  by (simp add: conserves_def)

lemma conserves_refl: "counters_ok (st_keys v) \<Longrightarrow> conserves v v"
  by (simp add: conserves_def)

lemma flush_user_conserves:
  assumes "reset_effect uid (st_keys v) m'" and "\<not> node_named uid"
    and v': "v' = v\<lparr>st_users := map (\<lambda>u. if u_UID u = uid then u\<lparr>
        u_UsedBytes := u_UsedBytes u + (num (st_keys v) (UsageKey uid ''upload'') + num (st_keys v) (UsageKey uid ''download'')),
        u_TotalRequests := u_TotalRequests u + num (st_keys v) (UsageKey uid ''requests'')\<rparr> else u) (st_users v),
      st_keys := m'\<rparr>"
  shows "conserves v v'"
proof -
  have val: "num m' (UsageKey uid' d) = (if uid' = uid then 0 else num (st_keys v) (UsageKey uid' d))"
    if "d \<in> {''upload'', ''download'', ''requests''}" for uid' d
    using assms(1) that unfolding reset_effect_def by blast
  let ?f = "\<lambda>u. if u_UID u = uid then u\<lparr>
        u_UsedBytes := u_UsedBytes u + (num (st_keys v) (UsageKey uid ''upload'') + num (st_keys v) (UsageKey uid ''download'')),
        u_TotalRequests := u_TotalRequests u + num (st_keys v) (UsageKey uid ''requests'')\<rparr> else u"
  have split: "filter (\<lambda>u. P (u_UID u)) (map ?f (st_users v)) = map ?f (filter (\<lambda>u. P (u_UID u)) (st_users v))" for P
    by (subst filter_map) (rule arg_cong [where f = "map ?f"], rule filter_cong, simp_all)
  have "filter (\<lambda>u. node_named (u_UID u)) (st_users v') = filter (\<lambda>u. node_named (u_UID u)) (st_users v)"
    using assms(2) by (simp add: v' split [of node_named]) (rule map_idI, auto)
  moreover note split [of "\<lambda>uid. \<not> node_named uid"]
  then have "user_view v' = user_view v"
    by (simp add: user_view_def v' val)
  moreover have "num m' (UsageKey (''node:'' @ s) d) = num (st_keys v) (UsageKey (''node:'' @ s) d)"
    if "d \<in> {''upload'', ''download'', ''requests''}" for s d
  proof -
    have "''node:'' @ s \<noteq> uid" using assms(2) node_named_prefix by blast
    then show ?thesis using val [OF that, of "''node:'' @ s"] by simp
  qed
  then have "node_view v' = node_view v"
    by (simp only: node_view_def v' NodeUsageKey_eq) simp
  ultimately show ?thesis using assms(1) v' by (simp add: conserves_def reset_effect_def)
qed

lemma flush_node_conserves:
  assumes "reset_effect (''node:'' @ show_nat i) (st_keys v) m'"
    and v': "v' = v\<lparr>st_nodes := map (\<lambda>n. if n_ID n = i then n\<lparr>
        n_UploadBytes := n_UploadBytes n + num (st_keys v) (NodeUsageKey i ''upload''),
        n_DownloadBytes := n_DownloadBytes n + num (st_keys v) (NodeUsageKey i ''download''),
        n_TotalRequests := n_TotalRequests n + num (st_keys v) (NodeRequestsKey i)\<rparr> else n) (st_nodes v),
      st_keys := m'\<rparr>"
  shows "conserves v v'"
proof -
  have val: "num m' (UsageKey uid' d) = (if uid' = ''node:'' @ show_nat i then 0 else num (st_keys v) (UsageKey uid' d))"
    if "d \<in> {''upload'', ''download'', ''requests''}" for uid' d
    using assms(1) that unfolding reset_effect_def by blast
  have "num m' (UsageKey uid' d) = num (st_keys v) (UsageKey uid' d)"
    if "d \<in> {''upload'', ''download'', ''requests''}" "\<not> node_named uid'" for uid' d
    using val [OF that(1), of uid'] that(2) node_named_prefix by metis
  then have "user_view v' = user_view v"
    unfolding user_view_def v' by (intro map_cong) simp_all
  moreover have "node_view v' = node_view v"
    by (simp add: node_view_def v' NodeUsageKey_eq val del: append.simps)
  ultimately show ?thesis using assms(1) v' by (simp add: conserves_def reset_effect_def)
qed

lemma usage_uid_key: "usage_uid (UsageKey x ''upload'') = x"
  by (simp add: usage_uid_def UsageKey_def)

lemma not_node_key: "\<not> HasPrefix (UsageKey x ''upload'') ''usage:node:'' \<Longrightarrow> \<not> node_named x"
proof -
  have "HasPrefix (x @ '':upload'') ''node:''" if "node_named x"
    using that unfolding node_named_def HasPrefix_iff by (metis append.assoc append_Cons append_Nil)
  then show "\<not> HasPrefix (UsageKey x ''upload'') ''usage:node:'' \<Longrightarrow> \<not> node_named x"
    by (auto simp: UsageKey_def HasPrefix_def)
qed

lemma glob_usage: "glob ''usage:*:upload'' k \<Longrightarrow> \<exists>x. k = UsageKey x ''upload''"
proof -
  assume "glob ''usage:*:upload'' k"
  then obtain t where t: "k = ''usage:'' @ t" "glob (CHR ''*'' # '':upload'') t"
    using glob_literal [of "''usage:''" "''*:upload''" k] by (auto simp: glob_char_def)
  have "glob '':upload'' b \<longleftrightarrow> b = '':upload''" for b
    using glob_literal [of "'':upload''" "[]" b] by (simp add: glob_char_def glob.simps(1))
  then obtain a where "t = a @ '':upload''" using t(2) unfolding glob_star by blast
  then show ?thesis using t(1) by (simp add: UsageKey_def)
qed

context reliable
begin

lemma wp_requestCount:
  assumes "\<And>s'. view s' = view s \<Longrightarrow> Q (num (st_keys (view s)) (UsageKey uid ''requests'')) s'"
  shows "wp (requestCount W uid) Q s"
  unfolding requestCount_def wp_bind wp_return RequestsKey_eq
  by (rule wp_redis_Get) (use assms in \<open>simp add: num_def\<close>)

lemma wp_flush_users:
  assumes "counters_ok (st_keys (view s))" and "\<forall>key\<in>set keys. \<exists>x. key = UsageKey x ''upload''"
    and "\<And>r s'. conserves (view s) (view s') \<Longrightarrow> Q r s'"
  shows "wp (flush_users W keys) Q s"
  using assms
proof (induction keys arbitrary: s Q)
  case Nil
  then show ?case by (simp add: conserves_refl)
next
  case (Cons key keys)
  obtain x where key: "key = UsageKey x ''upload''" using Cons.prems(2) by auto
  have rest: "wp (flush_users W keys) Q s1" if "conserves (view s) (view s1)" for s1
    using that Cons.prems by (intro Cons.IH) (auto simp: conserves_def intro: conserves_trans)
  show ?case
  proof (cases "HasPrefix key ''usage:node:''")
    case True
    then show ?thesis using rest [of s] Cons.prems(1) by (simp add: conserves_refl)
  next
    case False
    then have node: "\<not> node_named x" using not_node_key key by blast
    have uid: "usage_uid key = x" using usage_uid_key key by simp
    let ?n = "\<lambda>d. num (st_keys (view s)) (UsageKey x d)"
    have range: "wrap64 (?n ''upload'' + ?n ''download'') = ?n ''upload'' + ?n ''download''"
      using Cons.prems(1) by (simp add: counters_ok_def)
    obtain m' where m': "apply_tx (st_keys (view s)) (reset x (st_keys (view s))) = (m', Inr RStatus)"
      "reset_effect x (st_keys (view s)) m'" using reset_tx [OF Cons.prems(1)] by blast
    have quiet: "Q r s'" if "view s' = view s" for r s'
      using that Cons.prems(1,3) by (simp add: conserves_refl)
    show ?thesis
      using False
      apply (simp add: uid Let_def)
      apply (rule wp_redis_Get)
      apply (rule wp_redis_Get)
      apply (simp flip: num_def add: range)
      apply (intro conjI impI)
       apply (rule rest, simp add: conserves_refl Cons.prems(1))
      apply (rule wp_requestCount)
      apply (rule wp_Updates_users)
       apply (simp only: option.case wp_bind)
       apply (rule wp_redis_Get, rule wp_redis_Exec)
       apply (simp flip: num_def add: RequestsKey_eq m'(1) [unfolded reset_def] del: apply_tx.simps)
       apply (rule rest, rule flush_user_conserves [OF m'(2) node], simp)
      apply (simp add: quiet)
      done
  qed
qed

end

context reliable
begin

lemma wp_flush_nodes:
  assumes "counters_ok (st_keys (view s))"
    and "\<And>r s'. conserves (view s) (view s') \<Longrightarrow> Q r s'"
  shows "wp (flush_nodes W keys) Q s"
  using assms
proof (induction keys arbitrary: s Q)
  case Nil
  then show ?case by (simp add: conserves_refl)
next
  case (Cons key keys)
  have rest: "wp (flush_nodes W keys) Q s1" if "conserves (view s) (view s1)" for s1
    using that Cons.prems by (intro Cons.IH) (auto simp: conserves_def intro: conserves_trans)
  show ?case
  proof (cases "scan_node_key key")
    case None
    then show ?thesis using rest [of s] Cons.prems(1) by (simp add: conserves_refl)
  next
    case (Some i)
    let ?uid = "''node:'' @ show_nat i"
    obtain m' where m': "apply_tx (st_keys (view s)) (reset ?uid (st_keys (view s))) = (m', Inr RStatus)"
      "reset_effect ?uid (st_keys (view s)) m'" using reset_tx [OF Cons.prems(1)] by blast
    note tx = m'(1) [unfolded reset_def, folded NodeUsageKey_eq(2), folded NodeUsageKey_eq(1)]
    have quiet: "Q r s'" if "view s' = view s" for r s'
      using that Cons.prems by (simp add: conserves_refl)
    show ?thesis
      apply (simp add: Some Let_def)
      apply (rule wp_redis_Get)
      apply (rule wp_redis_Get)
      apply (rule wp_redis_Get)
      apply (simp flip: num_def)
      apply (intro conjI impI)
       apply (rule rest, simp add: conserves_refl Cons.prems(1))
      apply (rule wp_Updates_nodes)
       apply (simp only: option.case wp_bind)
       apply (rule wp_redis_Exec)
       apply (simp add: tx del: apply_tx.simps)
       apply (rule rest, rule flush_node_conserves [OF m'(2)], simp)
      apply (simp add: quiet)
      done
  qed
qed

lemma wp_flushNodeUsage:
  assumes "counters_ok (st_keys (view s))"
    and "\<And>r s'. conserves (view s) (view s') \<Longrightarrow> Q r s'"
  shows "wp (flushNodeUsage W) Q s"
  unfolding flushNodeUsage_def wp_bind
  by (rule wp_redis_Keys, simp only: sum.case, rule wp_flush_nodes) (use assms in simp_all)

lemma wp_FlushUsage:
  assumes "counters_ok (st_keys (view s))"
    and "\<And>r s'. conserves (view s) (view s') \<Longrightarrow> Q r s'"
  shows "wp (FlushUsage W) Q s"
  unfolding FlushUsage_def wp_bind
proof (rule wp_redis_Keys, simp only: sum.case wp_bind)
  fix ks s1
  assume v1: "view s1 = view s" and ks: "set ks = {k. st_keys (view s) k \<noteq> None \<and> glob ''usage:*:upload'' k}"
  show "wp (flush_users W ks) (\<lambda>err. wp (case err of None \<Rightarrow> flushNodeUsage W
      | Some e \<Rightarrow> State_Monad.return (Some e)) Q) s1"
  proof (rule wp_flush_users)
    show "counters_ok (st_keys (view s1))" using assms(1) v1 by simp
    show "\<forall>key\<in>set ks. \<exists>x. key = UsageKey x ''upload''" using ks glob_usage by blast
    fix r s2 assume c: "conserves (view s1) (view s2)"
    then have "counters_ok (st_keys (view s2))" by (simp add: conserves_def)
    then show "wp (case r of None \<Rightarrow> flushNodeUsage W | Some e \<Rightarrow> State_Monad.return (Some e)) Q s2"
      using c v1 assms(2) by (auto split: option.split intro!: wp_flushNodeUsage intro: conserves_trans)
  qed
qed

end

lemma counters_empty: "counters_ok Map.empty"
  by (simp add: counters_ok_def numeric_def num_def get_answer_def)

lemma counters_one: "numeric [k \<mapsto> v] k \<Longrightarrow> (\<And>uid. k = UsageKey uid ''upload'' \<Longrightarrow> int64_range (num [k \<mapsto> v] k)) \<Longrightarrow>
    (\<And>uid. k = UsageKey uid ''download'' \<Longrightarrow> int64_range (num [k \<mapsto> v] k)) \<Longrightarrow> counters_ok [k \<mapsto> v]"
  unfolding counters_ok_def
proof (intro conjI allI impI)
  assume v: "numeric [k \<mapsto> v] k" and up: "\<And>uid. k = UsageKey uid ''upload'' \<Longrightarrow> int64_range (num [k \<mapsto> v] k)"
    and down: "\<And>uid. k = UsageKey uid ''download'' \<Longrightarrow> int64_range (num [k \<mapsto> v] k)"
  show "numeric [k \<mapsto> v] j" for j using v by (cases "j = k") (simp_all add: numeric_def)
  have absent: "num [k \<mapsto> v] j = 0" if "j \<noteq> k" for j using that by (simp add: num_def get_answer_def)
  show "int64_range (num [k \<mapsto> v] (UsageKey uid ''upload'') + num [k \<mapsto> v] (UsageKey uid ''download''))" for uid
  proof -
    have "UsageKey uid ''upload'' \<noteq> UsageKey uid ''download''" by (simp add: UsageKey_eq)
    then consider "k = UsageKey uid ''upload''" "k \<noteq> UsageKey uid ''download''"
      | "k \<noteq> UsageKey uid ''upload''" "k = UsageKey uid ''download''"
      | "k \<noteq> UsageKey uid ''upload''" "k \<noteq> UsageKey uid ''download''" by metis
    then show ?thesis by cases (use up down absent in auto)
  qed
qed

section \<open>Properties\<close>


definition mem_usage :: "string \<Rightarrow> mem" where
  "mem_usage uid = (mem1 (UsageKey uid ''upload'') (VStr ''70'' 0))\<lparr>mem_users := [zero_user\<lparr>u_UID := uid, u_UsedBytes := 5\<rparr>]\<rparr>"

lemma mem_usage [simp]: "st_keys (mem_view (mem_usage uid)) = [UsageKey uid ''upload'' \<mapsto> VStr ''70'' 0]"
  "st_users (mem_view (mem_usage uid)) = [zero_user\<lparr>u_UID := uid, u_UsedBytes := 5\<rparr>]"
proof -
  have "mem_keys (mem_usage uid) = mem_keys (mem1 (UsageKey uid ''upload'') (VStr ''70'' 0))"
    by (simp add: mem_usage_def mem_keys_def)
  moreover have "st_keys (mem_view s) = mem_keys s" for s by (simp add: mem_view_def)
  ultimately show "st_keys (mem_view (mem_usage uid)) = [UsageKey uid ''upload'' \<mapsto> VStr ''70'' 0]"
    using mem1_view by metis
qed (simp add: mem_usage_def mem_view_def)

lemma parse_70: "ParseInt ''70'' = Some 70"
  by (simp add: ParseInt_def parse_nat_def digit_val_def byte_of_def int64_range_def)

lemma counters_usage: "counters_ok [UsageKey uid ''upload'' \<mapsto> VStr ''70'' 0]"
  by (rule counters_one) (simp_all add: numeric_def num_def get_answer_def parse_70 int64_range_def)


text \<open>
  The traffic of a user whose identifier is \<^verbatim>\<open>node\<close> or starts with \<^verbatim>\<open>node:\<close> never reaches the
  row of the user: the keys are taken for those of a node.
\<close>

theorem FlushUsage_skips_node_names:
  assumes "reliable W view" and "counters_ok (st_keys (view s))"
  shows "wp (FlushUsage W) (\<lambda>_ s'. filter (\<lambda>u. node_named (u_UID u)) (st_users (view s')) =
     filter (\<lambda>u. node_named (u_UID u)) (st_users (view s))) s"
  by (rule reliable.wp_FlushUsage [OF assms]) (simp add: conserves_def)

theorem FlushUsage_skips_node_names_witness:
  "wp (FlushUsage mem_world) (\<lambda>_ s'. map u_UsedBytes (filter (\<lambda>u. node_named (u_UID u)) (st_users (mem_view s'))) = [5])
     (mem_usage ''node:7'')"
  by (rule wp_mono [OF FlushUsage_skips_node_names [OF mem.reliable_axioms]])
    (simp_all add: counters_usage node_named_def HasPrefix_def zero_user_def)

end
