(* ===== verification/StatsRace.thy ===== *)
theory StatsRace
  imports Stats
begin

text \<open>
  The flush of \<^verbatim>\<open>internal/stats/service.go\<close> while the gateway serves: requests that end record their
  traffic between any two commands of the flush.  \<open>interleaved W\<close> is the world \<open>W\<close> in which every
  command is preceded by the next batch of a schedule of records, each recorded by the code's own
  \<open>RecordTraffic\<close> (one MULTI/EXEC); its state is that of \<open>W\<close> with the batches still to come.  The
  counters are read and lowered by separate commands, and the bytes recorded in between survive.
\<close>

section \<open>The interleaving\<close>

type_synonym schedule = "TrafficRecord list list"

primrec record_all :: "'s world \<Rightarrow> TrafficRecord list \<Rightarrow> ('s, unit) state" where
  "record_all W [] = State_Monad.return ()"
| "record_all W (r # rs) = do { _ \<leftarrow> RecordTraffic W r; record_all W rs }"

fun after_batch :: "'s world \<Rightarrow> ('s, 'a) state \<Rightarrow> 's \<times> schedule \<Rightarrow> 'a \<times> 's \<times> schedule" where
  "after_batch W m (s, []) = (case run_state m s of (a, s') \<Rightarrow> (a, s', []))"
| "after_batch W m (s, rs # sched) =
     (case run_state (do { _ \<leftarrow> record_all W rs; m }) s of (a, s') \<Rightarrow> (a, s', sched))"

definition between :: "'s world \<Rightarrow> ('s, 'a) state \<Rightarrow> ('s \<times> schedule, 'a) state" where
  "between W m = State (after_batch W m)"

definition interleaved :: "'s world \<Rightarrow> ('s \<times> schedule) world" where
  "interleaved W = \<lparr>
     redis_cl = (\<lambda>c. between W (redis_cl W c)),
     users_tbl = (\<lambda>q. between W (users_tbl W q)),
     nodes_tbl = (\<lambda>q. between W (nodes_tbl W q)),
     subs_tbl = (\<lambda>q. between W (subs_tbl W q)),
     links_tbl = (\<lambda>q. between W (links_tbl W q)),
     audit_tbl = (\<lambda>q. between W (audit_tbl W q)),
     time_Now = between W (time_Now W),
     rand_Intn = (\<lambda>n. between W (rand_Intn W n))\<rparr>"

section \<open>What a record adds to the counters\<close>

text \<open>
  The counters of a record are named after its user and, where it has one, its node: \<open>names r\<close>.
  \<open>recorded x d rs\<close> is what the records \<open>rs\<close> add to the counter \<open>d\<close> of \<open>x\<close>.
\<close>

abbreviation node_name :: "nat \<Rightarrow> string" where
  "node_name i \<equiv> ''node:'' @ show_nat i"

abbreviation kinds :: "string list" where
  "kinds \<equiv> [''upload'', ''download'', ''requests'']"

definition names :: "TrafficRecord \<Rightarrow> string list" where
  "names r = t_UID r # (if t_NodeID r > 0 then [node_name (t_NodeID r)] else [])"

definition field :: "TrafficRecord \<Rightarrow> string \<Rightarrow> int" where
  "field r d = (if d = ''upload'' then t_Upload r else if d = ''download'' then t_Download r
     else maxInt64 (t_Requests r) 1)"

definition recorded :: "string \<Rightarrow> string \<Rightarrow> TrafficRecord list \<Rightarrow> int" where
  "recorded x d rs = (\<Sum>r\<leftarrow>rs. if x \<in> set (names r) then field r d else 0)"

definition bytes_recorded :: "string \<Rightarrow> TrafficRecord list \<Rightarrow> int" where
  "bytes_recorded x rs = recorded x ''upload'' rs + recorded x ''download'' rs"

text \<open>A record the gateway makes, of a user that is not named like a node.\<close>

definition record_ok :: "TrafficRecord \<Rightarrow> bool" where
  "record_ok r \<longleftrightarrow> 0 \<le> t_Upload r \<and> 0 \<le> t_Download r \<and> \<not> node_named (t_UID r)"

text \<open>
  The counters are numbers, none is negative, and what is recorded and what is still to come fit
  in 64 bits.
\<close>

definition room :: "keyspace \<Rightarrow> TrafficRecord list \<Rightarrow> bool" where
  "room m rs \<longleftrightarrow> (\<forall>r\<in>set rs. record_ok r) \<and> (\<forall>k. HasPrefix k ''usage:'' \<longrightarrow> numeric m k) \<and>
     (\<forall>x. \<forall>d\<in>set kinds. 0 \<le> num m (UsageKey x d)) \<and>
     (\<forall>x. num m (UsageKey x ''upload'') + num m (UsageKey x ''download'') + bytes_recorded x rs < 2 ^ 63) \<and>
     (\<forall>x. num m (UsageKey x ''requests'') + recorded x ''requests'' rs < 2 ^ 63)"

lemma recorded_simps [simp]:
  "recorded x d [] = 0"
  "recorded x d (rs @ rs') = recorded x d rs + recorded x d rs'"
  "bytes_recorded x [] = 0"
  "bytes_recorded x (rs @ rs') = bytes_recorded x rs + bytes_recorded x rs'"
  by (simp_all add: recorded_def bytes_recorded_def)

lemma field_nonneg: "record_ok r \<Longrightarrow> 0 \<le> field r d"
  by (simp add: field_def record_ok_def maxInt64_def)

lemma recorded_nonneg: "\<forall>r\<in>set rs. record_ok r \<Longrightarrow> 0 \<le> recorded x d rs"
  by (induction rs) (simp_all add: recorded_def field_nonneg)

lemma recorded_Cons: "recorded x d (r # rs) = (if x \<in> set (names r) then field r d else 0) + recorded x d rs"
  by (simp add: recorded_def)

text \<open>
  From \<open>v\<close> to \<open>v'\<close> the records \<open>rs\<close> up to \<open>rs'\<close> have been recorded: only counters have changed, and
  they have grown by what the records say.
\<close>

definition grown :: "store \<Rightarrow> TrafficRecord list \<Rightarrow> store \<Rightarrow> TrafficRecord list \<Rightarrow> bool" where
  "grown v rs v' rs' \<longleftrightarrow> room (st_keys v') rs' \<and> (\<exists>taken. rs = taken @ rs') \<and>
     v' = v\<lparr>st_keys := st_keys v'\<rparr> \<and>
     (\<forall>x. \<forall>d\<in>set kinds. num (st_keys v') (UsageKey x d) + recorded x d rs' =
        num (st_keys v) (UsageKey x d) + recorded x d rs)"

lemma grown_refl: "room (st_keys v) rs \<Longrightarrow> grown v rs v rs"
  by (simp add: grown_def)

lemma grown_trans: "grown v rs v' rs' \<Longrightarrow> grown v' rs' v'' rs'' \<Longrightarrow> grown v rs v'' rs''"
  unfolding grown_def
proof (elim conjE exE, intro conjI)
  fix taken taken'
  assume "rs = taken @ rs'" and "rs' = taken' @ rs''"
  then show "\<exists>taken. rs = taken @ rs''" by simp
next
  assume "v' = v\<lparr>st_keys := st_keys v'\<rparr>" and "v'' = v'\<lparr>st_keys := st_keys v''\<rparr>"
  then show "v'' = v\<lparr>st_keys := st_keys v''\<rparr>" by (metis store.update_convs(1) store.surjective store.ext_inject)
qed simp_all

lemma grown_mono:
  assumes "grown v rs v' rs'" and "\<forall>r\<in>set rs. record_ok r" and "d \<in> set kinds"
  shows "num (st_keys v) (UsageKey x d) \<le> num (st_keys v') (UsageKey x d)"
proof -
  obtain taken where taken: "rs = taken @ rs'" using assms(1) unfolding grown_def by blast
  then have "0 \<le> recorded x d taken" using assms(2) by (intro recorded_nonneg) simp
  moreover have "num (st_keys v') (UsageKey x d) + recorded x d rs' = num (st_keys v) (UsageKey x d) + recorded x d rs"
    using assms(1,3) unfolding grown_def by blast
  ultimately show ?thesis using taken by simp
qed

section \<open>Recording\<close>

lemma node_name_differs: "\<not> node_named x \<Longrightarrow> x \<noteq> node_name i"
  using node_named_prefix by blast

definition record_counters :: "TrafficRecord \<Rightarrow> (string \<times> int) list" where
  "record_counters r = concat (map (\<lambda>x. map (\<lambda>d. (UsageKey x d, field r d)) kinds) (names r))"

lemma pipe_counters:
  "RecordTraffic_pipe r now = incrs (record_counters r) @
     [ZINCRBY (RegionUsageKey (t_Region r)) (wrap64 (t_Upload r + t_Download r)) (RegionMember (t_Region r)),
      INCRBY (HourlyUsageKey (format_hour now)) (wrap64 (t_Upload r + t_Download r))]"
  by (simp add: RecordTraffic_pipe_def record_counters_def names_def field_def RequestsKey_eq NodeUsageKey_eq
      del: append.simps append_assoc)

lemma record_counters_distinct: "record_ok r \<Longrightarrow> distinct (map fst (record_counters r))"
  using node_name_differs [of "t_UID r"]
  by (simp add: record_counters_def names_def record_ok_def UsageKey_eq)

lemma record_counters_set: "d \<in> set kinds \<Longrightarrow>
    (UsageKey x d, n) \<in> set (record_counters r) \<longleftrightarrow> x \<in> set (names r) \<and> n = field r d"
  by (auto simp: record_counters_def UsageKey_eq)

lemma fst_record_counters: "k \<in> fst ` set (record_counters r) \<longleftrightarrow> (\<exists>x\<in>set (names r). \<exists>d\<in>set kinds. k = UsageKey x d)"
  by (auto simp: record_counters_def image_UN)

lemma record_room: "room m (r # rs) \<Longrightarrow> x \<in> set (names r) \<Longrightarrow> d \<in> set kinds \<Longrightarrow>
    0 \<le> num m (UsageKey x d) \<and> num m (UsageKey x d) + field r d < 2 ^ 63"
proof -
  assume room: "room m (r # rs)" and x: "x \<in> set (names r)" and d: "d \<in> set kinds"
  have nonneg: "0 \<le> num m (UsageKey x e)" if "e \<in> set kinds" for e using room that unfolding room_def by blast
  have ok: "\<forall>r\<in>set (r # rs). record_ok r" using room unfolding room_def by blast
  then have "0 \<le> recorded x e rs" "0 \<le> field r e" for e
    by (auto intro: recorded_nonneg field_nonneg)
  note pos = nonneg [of "''upload''"] nonneg [of "''download''"] nonneg [of "''requests''"]
    this [of "''upload''"] this [of "''download''"] this [of "''requests''"]
  have "num m (UsageKey x ''upload'') + num m (UsageKey x ''download'') + bytes_recorded x (r # rs) < 2 ^ 63"
    "num m (UsageKey x ''requests'') + recorded x ''requests'' (r # rs) < 2 ^ 63"
    using room unfolding room_def by blast+
  then show ?thesis using d pos nonneg [OF d] x by (auto simp: recorded_Cons bytes_recorded_def)
qed

text \<open>One record takes effect on its counters, whatever becomes of the figures after them.\<close>

lemma record_tx:
  assumes "room m (r # rs)" and "m' = fst (apply_tx m (RecordTraffic_pipe r now))"
  shows "d \<in> set kinds \<Longrightarrow> num m' (UsageKey x d) = num m (UsageKey x d) + (if x \<in> set (names r) then field r d else 0)"
    and "HasPrefix k ''usage:'' \<Longrightarrow> numeric m' k"
proof -
  have ok: "record_ok r" and num: "\<And>k. HasPrefix k ''usage:'' \<Longrightarrow> numeric m k"
    using assms(1) unfolding room_def by auto
  have "\<forall>(k, n)\<in>set (record_counters r). numeric m k \<and> int64_range (num m k + n)"
  proof (rule ballI, clarify)
    fix k n assume "(k, n) \<in> set (record_counters r)"
    then obtain x d where x: "x \<in> set (names r)" "d \<in> set kinds" "k = UsageKey x d" "n = field r d"
      by (auto simp: record_counters_def)
    then show "numeric m k \<and> int64_range (num m k + n)"
      using record_room [OF assms(1) x(1,2)] field_nonneg [OF ok, of d] num [of k]
      by (simp add: int64_range_def)
  qed
  then obtain m1 where m1: "apply_tx m (incrs (record_counters r)) = (m1, Inr RStatus)"
      "incr_effect (record_counters r) m m1"
    using tx_incr [OF record_counters_distinct [OF ok]] by blast
  have same: "m' k = m1 k" if "HasPrefix k ''usage:''" for k
    unfolding assms(2) pipe_counters run_tx_append m1(1) fst_conv
    by (rule apply_tx_other) (use that in \<open>auto simp: RegionUsageKey_def HourlyUsageKey_def HasPrefix_def\<close>)
  note same_num = num_cong [of m' _ m1, OF same]
  show "num m' (UsageKey x d) = num m (UsageKey x d) + (if x \<in> set (names r) then field r d else 0)"
    if d: "d \<in> set kinds"
  proof (cases "x \<in> set (names r)")
    case True
    then show ?thesis using m1(2) record_counters_set [OF d, of x "field r d" r] same_num [of "UsageKey x d"]
      by (auto simp: incr_effect_def)
  next
    case False
    then have "UsageKey x d \<notin> fst ` set (record_counters r)"
      using d record_counters_set [OF d, of x _ r] by auto
    then show ?thesis using False same_num [of "UsageKey x d"] incr_effect_other [OF m1(2)] by simp
  qed
  show "numeric m' k" if k: "HasPrefix k ''usage:''"
    using incr_effect_numeric [OF m1(2) num [OF k]] same_num [OF k] by simp
qed

lemma record_grows:
  assumes "room (st_keys v) (r # rs)"
    and "v' = v\<lparr>st_keys := fst (apply_tx (st_keys v) (RecordTraffic_pipe r now))\<rparr>"
  shows "grown v (r # rs) v' rs"
proof -
  let ?m' = "fst (apply_tx (st_keys v) (RecordTraffic_pipe r now))"
  note step = record_tx [OF assms(1) refl, of _ now]
  have ok: "record_ok r" using assms(1) unfolding room_def by simp
  have eq: "num ?m' (UsageKey x d) + recorded x d rs = num (st_keys v) (UsageKey x d) + recorded x d (r # rs)"
    if "d \<in> set kinds" for x d using step(1) [OF that, of x] by (simp add: recorded_Cons)
  note sums = eq [of "''upload''"] eq [of "''download''"] eq [of "''requests''"]
  have "room ?m' rs"
    unfolding room_def
  proof (intro conjI allI ballI impI)
    show "record_ok r'" if "r' \<in> set rs" for r' using assms(1) that unfolding room_def by simp
    show "numeric ?m' k" if "HasPrefix k ''usage:''" for k using step(2) that by simp
    show "0 \<le> num ?m' (UsageKey x d)" if d: "d \<in> set kinds" for x d
    proof -
      have "0 \<le> num (st_keys v) (UsageKey x d)" using assms(1) d unfolding room_def by blast
      then show ?thesis using step(1) [OF d, of x] field_nonneg [OF ok, of d] by simp
    qed
    fix x
    have "num (st_keys v) (UsageKey x ''upload'') + num (st_keys v) (UsageKey x ''download'') + bytes_recorded x (r # rs) < 2 ^ 63"
      "num (st_keys v) (UsageKey x ''requests'') + recorded x ''requests'' (r # rs) < 2 ^ 63"
      using assms(1) unfolding room_def by blast+
    moreover note sums [of x]
    ultimately show "num ?m' (UsageKey x ''upload'') + num ?m' (UsageKey x ''download'') + bytes_recorded x rs < 2 ^ 63"
      "num ?m' (UsageKey x ''requests'') + recorded x ''requests'' rs < 2 ^ 63"
      unfolding bytes_recorded_def by simp_all
  qed
  then show ?thesis using eq unfolding grown_def assms(2) by simp
qed

context reliable
begin

lemma wp_RecordTraffic:
  assumes "room (st_keys (view s)) (r # rs)"
    and "\<And>e s'. grown (view s) (r # rs) (view s') rs \<Longrightarrow> Q e s'"
  shows "wp (RecordTraffic W r) Q s"
  unfolding RecordTraffic_def wp_bind
  by (rule wp_time_Now, rule wp_redis_Exec, rule assms(2), rule record_grows) (use assms(1) in simp_all)

lemma wp_record_all:
  assumes "room (st_keys (view s)) (rs @ rest)"
    and "\<And>s'. grown (view s) (rs @ rest) (view s') rest \<Longrightarrow> Q () s'"
  shows "wp (record_all W rs) Q s"
  using assms
proof (induction rs arbitrary: s)
  case Nil
  then show ?case by (simp add: grown_refl)
next
  case (Cons r rs)
  have "room (st_keys (view s)) (r # rs @ rest)" using Cons.prems(1) by simp
  then show ?case
    unfolding record_all.simps wp_bind
  proof (rule wp_RecordTraffic)
    fix e s' assume g: "grown (view s) (r # rs @ rest) (view s') (rs @ rest)"
    then have "room (st_keys (view s')) (rs @ rest)" by (simp add: grown_def)
    then show "wp (record_all W rs) Q s'"
      by (rule Cons.IH) (use g Cons.prems(2) grown_trans in \<open>fastforce\<close>)
  qed
qed

lemma wp_between:
  assumes "room (st_keys (view s)) (concat sched)"
    and "\<And>s1 left. grown (view s) (concat sched) (view s1) (concat left) \<Longrightarrow> \<exists>used. sched = used @ left \<Longrightarrow>
      wp m (\<lambda>a s2. Q a (s2, left)) s1"
  shows "wp (between W m) Q (s, sched)"
proof (cases sched)
  case Nil
  then have "wp m (\<lambda>a s2. Q a (s2, [])) s" using assms grown_refl by simp
  then show ?thesis by (simp add: Nil wp_def between_def split: prod.splits)
next
  case (Cons rs left)
  have "wp (record_all W rs) (\<lambda>_. wp m (\<lambda>a s2. Q a (s2, left))) s"
    by (rule wp_record_all [where rest = "concat left"]) (use assms Cons in simp_all)
  then have "wp (do { _ \<leftarrow> record_all W rs; m }) (\<lambda>a s2. Q a (s2, left)) s" by simp
  then show ?thesis by (simp add: Cons wp_def between_def del: wp_bind split: prod.splits)
qed

end

section \<open>What is accounted for\<close>

text \<open>
  The bytes of a user, and the figures of a node: those of the row, those pending in Redis, and
  those the records \<open>rs\<close> will bring.
\<close>

definition user_total :: "store \<Rightarrow> TrafficRecord list \<Rightarrow> (string \<times> int) list" where
  "user_total v rs = map (\<lambda>u. (u_UID u,
       u_UsedBytes u + num (st_keys v) (UsageKey (u_UID u) ''upload'') + num (st_keys v) (UsageKey (u_UID u) ''download'')
       + bytes_recorded (u_UID u) rs))
     (filter (\<lambda>u. \<not> node_named (u_UID u)) (st_users v))"

definition node_total :: "store \<Rightarrow> TrafficRecord list \<Rightarrow> (nat \<times> int \<times> int \<times> int) list" where
  "node_total v rs = map (\<lambda>n. (n_ID n,
       n_UploadBytes n + num (st_keys v) (NodeUsageKey (n_ID n) ''upload'') + recorded (node_name (n_ID n)) ''upload'' rs,
       n_DownloadBytes n + num (st_keys v) (NodeUsageKey (n_ID n) ''download'') + recorded (node_name (n_ID n)) ''download'' rs,
       n_TotalRequests n + num (st_keys v) (NodeRequestsKey (n_ID n)) + recorded (node_name (n_ID n)) ''requests'' rs))
     (st_nodes v)"

definition accounts :: "store \<Rightarrow> TrafficRecord list \<Rightarrow> store \<Rightarrow> TrafficRecord list \<Rightarrow> bool" where
  "accounts v rs v' rs' \<longleftrightarrow> room (st_keys v') rs' \<and>
     user_total v' rs' = user_total v rs \<and> node_total v' rs' = node_total v rs"

lemma accounts_refl: "room (st_keys v) rs \<Longrightarrow> accounts v rs v rs"
  by (simp add: accounts_def)

lemma accounts_trans: "accounts v rs v' rs' \<Longrightarrow> accounts v' rs' v'' rs'' \<Longrightarrow> accounts v rs v'' rs''"
  by (simp add: accounts_def)

lemma user_total_eq:
  assumes "st_users v' = map f (st_users v)" and "\<And>u. u_UID (f u) = u_UID u"
    and "\<And>u. \<not> node_named (u_UID u) \<Longrightarrow>
      u_UsedBytes (f u) + num (st_keys v') (UsageKey (u_UID u) ''upload'') + num (st_keys v') (UsageKey (u_UID u) ''download'')
        + bytes_recorded (u_UID u) rs' =
      u_UsedBytes u + num (st_keys v) (UsageKey (u_UID u) ''upload'') + num (st_keys v) (UsageKey (u_UID u) ''download'')
        + bytes_recorded (u_UID u) rs"
  shows "user_total v' rs' = user_total v rs"
proof -
  have "filter (\<lambda>u. \<not> node_named (u_UID u)) (st_users v') = map f (filter (\<lambda>u. \<not> node_named (u_UID u)) (st_users v))"
    by (simp add: assms(1,2) filter_map o_def)
  then show ?thesis by (simp add: user_total_def assms(2,3))
qed

lemma node_total_eq:
  assumes "st_nodes v' = map f (st_nodes v)" and "\<And>n. n_ID (f n) = n_ID n"
    and "\<And>n. n_UploadBytes (f n) + num (st_keys v') (UsageKey (node_name (n_ID n)) ''upload'') + recorded (node_name (n_ID n)) ''upload'' rs' =
      n_UploadBytes n + num (st_keys v) (UsageKey (node_name (n_ID n)) ''upload'') + recorded (node_name (n_ID n)) ''upload'' rs"
    and "\<And>n. n_DownloadBytes (f n) + num (st_keys v') (UsageKey (node_name (n_ID n)) ''download'') + recorded (node_name (n_ID n)) ''download'' rs' =
      n_DownloadBytes n + num (st_keys v) (UsageKey (node_name (n_ID n)) ''download'') + recorded (node_name (n_ID n)) ''download'' rs"
    and "\<And>n. n_TotalRequests (f n) + num (st_keys v') (UsageKey (node_name (n_ID n)) ''requests'') + recorded (node_name (n_ID n)) ''requests'' rs' =
      n_TotalRequests n + num (st_keys v) (UsageKey (node_name (n_ID n)) ''requests'') + recorded (node_name (n_ID n)) ''requests'' rs"
  shows "node_total v' rs' = node_total v rs"
  unfolding node_total_def assms(1) NodeUsageKey_eq by (simp add: assms(2-) del: append.simps)

text \<open>Records that arrive between two commands of the flush are accounted for.\<close>

lemma grown_num: "grown v rs v' rs' \<Longrightarrow> d \<in> set kinds \<Longrightarrow>
    num (st_keys v') (UsageKey x d) + recorded x d rs' = num (st_keys v) (UsageKey x d) + recorded x d rs"
  unfolding grown_def by blast

lemma grown_bytes: "grown v rs v' rs' \<Longrightarrow>
    num (st_keys v') (UsageKey x ''upload'') + num (st_keys v') (UsageKey x ''download'') + bytes_recorded x rs' =
    num (st_keys v) (UsageKey x ''upload'') + num (st_keys v) (UsageKey x ''download'') + bytes_recorded x rs"
  using grown_num [of v rs v' rs' "''upload''" x] grown_num [of v rs v' rs' "''download''" x]
  by (simp add: bytes_recorded_def)

lemma grown_room: "grown v rs v' rs' \<Longrightarrow> room (st_keys v') rs'"
  by (simp add: grown_def)

lemma grown_tables: "grown v rs v' rs' \<Longrightarrow> st_users v' = st_users v \<and> st_nodes v' = st_nodes v"
  unfolding grown_def by (metis store.select_convs(2,3) store.surjective store.update_convs(1))

lemma grown_accounts:
  assumes "grown v rs v' rs'"
  shows "accounts v rs v' rs'"
proof -
  note num = grown_num [OF assms]
  have "user_total v' rs' = user_total v rs"
    by (rule user_total_eq [where f = id]) (use grown_bytes [OF assms] grown_tables [OF assms] in \<open>simp_all add: add.assoc\<close>)
  moreover have "node_total v' rs' = node_total v rs"
    by (rule node_total_eq [where f = id])
      (use num [of "''upload''"] num [of "''download''"] num [of "''requests''"] grown_tables [OF assms]
        in \<open>simp_all add: add.assoc del: append.simps\<close>)
  ultimately show ?thesis using grown_room [OF assms] by (simp add: accounts_def)
qed

text \<open>The counters of \<open>x\<close> lowered by what was read of them earlier.\<close>

definition lower :: "string \<Rightarrow> (string \<Rightarrow> int) \<Rightarrow> wcmd list" where
  "lower x n = [INCRBY (UsageKey x ''upload'') (- n ''upload''), INCRBY (UsageKey x ''download'') (- n ''download''),
     INCRBY (UsageKey x ''requests'') (- n ''requests'')]"

lemma lower_tx:
  assumes "room m rs" and n: "\<forall>d\<in>set kinds. 0 \<le> n d \<and> n d \<le> num m (UsageKey x d)"
  shows "\<exists>m'. apply_tx m (lower x n) = (m', Inr RStatus) \<and> room m' rs \<and>
    (\<forall>y. \<forall>d\<in>set kinds. num m' (UsageKey y d) = num m (UsageKey y d) - (if y = x then n d else 0))"
proof -
  let ?kns = "map (\<lambda>d. (UsageKey x d, - n d)) kinds"
  have pos: "0 \<le> num m (UsageKey y d)" if "d \<in> set kinds" for y d using assms(1) that unfolding room_def by blast
  have recs: "\<forall>r\<in>set rs. record_ok r" and num: "\<And>k. HasPrefix k ''usage:'' \<Longrightarrow> numeric m k"
    and bytes: "num m (UsageKey y ''upload'') + num m (UsageKey y ''download'') + bytes_recorded y rs < 2 ^ 63"
    and reqs: "num m (UsageKey y ''requests'') + recorded y ''requests'' rs < 2 ^ 63" for y
    using assms(1) unfolding room_def by blast+
  have "0 \<le> recorded y d rs" for y d by (rule recorded_nonneg [OF recs])
  then have small: "num m (UsageKey y d) < 2 ^ 63" if "d \<in> set kinds" for y d
    using that bytes [of y] reqs [of y] pos [of "''upload''" y] pos [of "''download''" y]
    unfolding bytes_recorded_def by (auto simp: add_increasing2 intro: le_less_trans [rotated])
  have "distinct (map fst ?kns)" by (simp add: UsageKey_eq)
  moreover have "\<forall>(k, i)\<in>set ?kns. numeric m k \<and> int64_range (num m k + i)"
    using n small [of "''upload''" x] small [of "''download''" x] small [of "''requests''" x] num
    by (simp add: int64_range_def)
  ultimately obtain m' where m': "apply_tx m (incrs ?kns) = (m', Inr RStatus)" "incr_effect ?kns m m'"
    using tx_incr by blast
  have val: "num m' (UsageKey y d) = num m (UsageKey y d) - (if y = x then n d else 0)"
    if d: "d \<in> set kinds" for y d
  proof (cases "y = x")
    case True
    then show ?thesis using m'(2) d by (auto simp: incr_effect_def)
  next
    case False
    then have "UsageKey y d \<notin> fst ` set ?kns" using d by (auto simp: UsageKey_eq)
    then show ?thesis using False incr_effect_other [OF m'(2)] by simp
  qed
  have numeric: "\<And>k. HasPrefix k ''usage:'' \<Longrightarrow> numeric m' k" using incr_effect_numeric [OF m'(2)] num by blast
  have less: "num m' (UsageKey y d) \<le> num m (UsageKey y d)" "0 \<le> num m' (UsageKey y d)" if "d \<in> set kinds" for y d
    using val [OF that, of y] n that pos [OF that, of y] by auto
  have "num m' (UsageKey y ''upload'') + num m' (UsageKey y ''download'') + bytes_recorded y rs < 2 ^ 63"
    "num m' (UsageKey y ''requests'') + recorded y ''requests'' rs < 2 ^ 63" for y
    using less(1) [of "''upload''" y] less(1) [of "''download''" y] less(1) [of "''requests''" y] bytes [of y] reqs [of y]
    by simp_all
  then have "room m' rs" unfolding room_def using less(2) recs numeric by simp
  then show ?thesis using m'(1) val by (auto simp: lower_def)
qed

lemma charge_accounts:
  assumes "accounts v rs v4 rs4" and "\<not> node_named x"
    and "grown (v4\<lparr>st_users := map (\<lambda>u. if u_UID u = x then f u else u) (st_users v4)\<rparr>) rs4 v6 rs6"
    and f: "\<And>u. u_UID u = x \<Longrightarrow> u_UID (f u) = x \<and> u_UsedBytes (f u) = u_UsedBytes u + n ''upload'' + n ''download''"
    and room: "room m' rs6"
    and low: "\<forall>y. \<forall>d\<in>set kinds. num m' (UsageKey y d) = num (st_keys v6) (UsageKey y d) - (if y = x then n d else 0)"
  shows "accounts v rs (v6\<lparr>st_keys := m'\<rparr>) rs6"
proof -
  let ?v = "v6\<lparr>st_keys := m'\<rparr>" and ?f = "\<lambda>u. if u_UID u = x then f u else u"
  have tables: "st_users ?v = map ?f (st_users v4)" "st_nodes ?v = st_nodes v4"
    using grown_tables [OF assms(3)] by simp_all
  have node: "node_name i \<noteq> x" for i using assms(2) node_name_differs by metis
  have low: "num m' (UsageKey y d) = num (st_keys v6) (UsageKey y d) - (if y = x then n d else 0)"
    if "d \<in> set kinds" for y d using low that by blast
  have "user_total ?v rs6 = user_total v4 rs4"
    by (rule user_total_eq [OF tables(1)]) (use f grown_bytes [OF assms(3)] in \<open>auto simp: low algebra_simps\<close>)
  moreover have "node_total ?v rs6 = node_total v4 rs4"
    by (rule node_total_eq [where f = id])
      (use tables grown_num [OF assms(3)] node in \<open>simp_all add: low del: append.simps\<close>)
  ultimately show ?thesis using assms(1) room by (simp add: accounts_def)
qed

lemma charge_node_accounts:
  assumes "accounts v rs v4 rs4"
    and "grown (v4\<lparr>st_nodes := map (\<lambda>k. if n_ID k = i then f k else k) (st_nodes v4)\<rparr>) rs4 v6 rs6"
    and f: "\<And>k. n_ID k = i \<Longrightarrow> n_ID (f k) = i \<and> n_UploadBytes (f k) = n_UploadBytes k + n ''upload'' \<and>
      n_DownloadBytes (f k) = n_DownloadBytes k + n ''download'' \<and> n_TotalRequests (f k) = n_TotalRequests k + n ''requests''"
    and room: "room m' rs6"
    and low: "\<forall>y. \<forall>d\<in>set kinds. num m' (UsageKey y d) =
      num (st_keys v6) (UsageKey y d) - (if y = node_name i then n d else 0)"
  shows "accounts v rs (v6\<lparr>st_keys := m'\<rparr>) rs6"
proof -
  let ?v = "v6\<lparr>st_keys := m'\<rparr>" and ?f = "\<lambda>k. if n_ID k = i then f k else k"
  have tables: "st_users ?v = st_users v4" "st_nodes ?v = map ?f (st_nodes v4)"
    using grown_tables [OF assms(2)] by simp_all
  have low: "num m' (UsageKey y d) = num (st_keys v6) (UsageKey y d) - (if y = node_name i then n d else 0)"
    if "d \<in> set kinds" for y d using low that by blast
  have "y \<noteq> node_name i" if "\<not> node_named y" for y using that node_name_differs by blast
  then have "user_total ?v rs6 = user_total v4 rs4"
    by (intro user_total_eq [where f = id])
      (use tables grown_bytes [OF assms(2)] in \<open>simp_all add: low add.assoc del: append.simps\<close>)
  moreover have "node_total ?v rs6 = node_total v4 rs4"
    by (rule node_total_eq [OF tables(2)])
      (use f grown_num [OF assms(2)] in \<open>auto simp: low algebra_simps simp del: append.simps\<close>)
  ultimately show ?thesis using assms(1) room by (simp add: accounts_def)
qed

section \<open>Commands with records between them\<close>

definition since :: "('s \<Rightarrow> store) \<Rightarrow> 's \<times> schedule \<Rightarrow> 's \<times> schedule \<Rightarrow> bool" where
  "since view p p' \<longleftrightarrow> suffix (snd p') (snd p) \<and>
     grown (view (fst p)) (concat (snd p)) (view (fst p')) (concat (snd p'))"

definition booked :: "('s \<Rightarrow> store) \<Rightarrow> 's \<times> schedule \<Rightarrow> 's \<times> schedule \<Rightarrow> bool" where
  "booked view p p' \<longleftrightarrow> suffix (snd p') (snd p) \<and>
     accounts (view (fst p)) (concat (snd p)) (view (fst p')) (concat (snd p'))"

abbreviation roomy :: "('s \<Rightarrow> store) \<Rightarrow> 's \<times> schedule \<Rightarrow> bool" where
  "roomy view p \<equiv> room (st_keys (view (fst p))) (concat (snd p))"

abbreviation cnt :: "('s \<Rightarrow> store) \<Rightarrow> 's \<times> schedule \<Rightarrow> string \<Rightarrow> string \<Rightarrow> int" where
  "cnt view p x d \<equiv> num (st_keys (view (fst p))) (UsageKey x d)"

lemma since_trans [trans]: "since view p p' \<Longrightarrow> since view p' p'' \<Longrightarrow> since view p p''"
  unfolding since_def using grown_trans suffix_order.order_trans by blast

lemma since_room: "since view p p' \<Longrightarrow> roomy view p'"
  by (simp add: since_def grown_def)

lemma since_mono: "since view p p' \<Longrightarrow> roomy view p \<Longrightarrow> d \<in> set kinds \<Longrightarrow> cnt view p x d \<le> cnt view p' x d"
  unfolding since_def using grown_mono by (fastforce simp: room_def)

lemma since_booked: "since view p p' \<Longrightarrow> booked view p p'"
  by (simp add: since_def booked_def grown_accounts)

lemma booked_refl: "roomy view p \<Longrightarrow> booked view p p"
  by (simp add: booked_def accounts_refl)

lemma booked_trans: "booked view p p' \<Longrightarrow> booked view p' p'' \<Longrightarrow> booked view p p''"
  unfolding booked_def using accounts_trans suffix_order.order_trans by blast

lemma booked_room: "booked view p p' \<Longrightarrow> roomy view p'"
  by (simp add: booked_def accounts_def)

context reliable
begin

lemma wp_between_since:
  assumes "roomy view p"
    and "\<And>s left. since view p (s, left) \<Longrightarrow> wp m (\<lambda>a s2. Q a (s2, left)) s"
  shows "wp (between W m) Q p"
proof -
  obtain s sched where p: "p = (s, sched)" by (cases p)
  show ?thesis
    unfolding p
    by (rule wp_between) (use assms p in \<open>auto simp: since_def suffix_def\<close>)
qed

lemma since_view: "since view p (s, left) \<Longrightarrow> view s' = view s \<Longrightarrow> since view p (s', left)"
  by (simp add: since_def)

lemma wp_busy_Get:
  assumes "roomy view p"
    and "\<And>p'. since view p p' \<Longrightarrow> Q (get_answer (st_keys (view (fst p'))) k) p'"
  shows "wp (redis_Get (interleaved W) k) Q p"
proof -
  have "wp (redis_cl W (GET k)) (\<lambda>r s2. Q (as_str r) (s2, left)) s" if "since view p (s, left)" for s left
  proof (rule wp_redis_Get [of s "\<lambda>r s2. Q r (s2, left)" k, unfolded redis_Get_def wp_bind wp_return])
    fix s' assume v: "view s' = view s"
    show "Q (get_answer (st_keys (view s)) k) (s', left)"
      using assms(2) [OF since_view [OF that v]] v by simp
  qed
  then show ?thesis
    unfolding redis_Get_def wp_bind wp_return by (simp add: interleaved_def wp_between_since assms(1))
qed

lemma wp_busy_Keys:
  assumes "roomy view p"
    and "\<And>ks p'. since view p p' \<Longrightarrow> \<forall>k\<in>set ks. glob pat k \<Longrightarrow> Q (Inr ks) p'"
  shows "wp (redis_Keys (interleaved W) pat) Q p"
proof -
  have "wp (redis_cl W (KEYS pat)) (\<lambda>r s2. Q (as_list r) (s2, left)) s" if "since view p (s, left)" for s left
    by (rule wp_redis_Keys [of s pat "\<lambda>r s2. Q r (s2, left)", unfolded redis_Keys_def wp_bind wp_return])
      (use assms(2) since_view [OF that] in simp)
  then show ?thesis
    unfolding redis_Keys_def wp_bind wp_return by (simp add: interleaved_def wp_between_since assms(1))
qed

lemma wp_busy_Exec:
  assumes "roomy view p"
    and "\<And>p1 p2. since view p p1 \<Longrightarrow> snd p2 = snd p1 \<Longrightarrow>
      view (fst p2) = (view (fst p1))\<lparr>st_keys := fst (apply_tx (st_keys (view (fst p1))) cs)\<rparr> \<Longrightarrow>
      Q (as_err (snd (apply_tx (st_keys (view (fst p1))) cs))) p2"
  shows "wp (redis_Exec (interleaved W) cs) Q p"
proof -
  have "wp (redis_cl W (TX cs)) (\<lambda>r s2. Q (as_err r) (s2, left)) s" if "since view p (s, left)" for s left
    by (rule wp_redis_Exec [of s cs "\<lambda>r s2. Q r (s2, left)", unfolded redis_Exec_def wp_bind wp_return])
      (use assms(2) [OF that] in simp)
  then show ?thesis
    unfolding redis_Exec_def wp_bind wp_return by (simp add: interleaved_def wp_between_since assms(1))
qed

lemma wp_busy_Updates_users:
  assumes "roomy view p"
    and "\<And>p1 p2. since view p p1 \<Longrightarrow> snd p2 = snd p1 \<Longrightarrow>
      view (fst p2) = (view (fst p1))\<lparr>st_users := map (\<lambda>x. if P x then f x else x) (st_users (view (fst p1)))\<rparr> \<Longrightarrow>
      Q None p2"
    and "\<And>e p'. since view p p' \<Longrightarrow> Q (Some e) p'"
  shows "wp (db_Updates (users_tbl (interleaved W)) P f) Q p"
proof -
  have "wp (users_tbl W (Update P f)) (\<lambda>r s2. Q (as_err r) (s2, left)) s" if "since view p (s, left)" for s left
    by (rule wp_Updates_users [of P f s "\<lambda>r s2. Q r (s2, left)", unfolded db_Updates_def wp_bind wp_return])
      (use assms(2) [OF that] assms(3) since_view [OF that] in simp_all)
  then show ?thesis
    unfolding db_Updates_def wp_bind wp_return by (simp add: interleaved_def wp_between_since assms(1))
qed

lemma wp_busy_Updates_nodes:
  assumes "roomy view p"
    and "\<And>p1 p2. since view p p1 \<Longrightarrow> snd p2 = snd p1 \<Longrightarrow>
      view (fst p2) = (view (fst p1))\<lparr>st_nodes := map (\<lambda>x. if P x then f x else x) (st_nodes (view (fst p1)))\<rparr> \<Longrightarrow>
      Q None p2"
    and "\<And>e p'. since view p p' \<Longrightarrow> Q (Some e) p'"
  shows "wp (db_Updates (nodes_tbl (interleaved W)) P f) Q p"
proof -
  have "wp (nodes_tbl W (Update P f)) (\<lambda>r s2. Q (as_err r) (s2, left)) s" if "since view p (s, left)" for s left
    by (rule wp_Updates_nodes [of P f s "\<lambda>r s2. Q r (s2, left)", unfolded db_Updates_def wp_bind wp_return])
      (use assms(2) [OF that] assms(3) since_view [OF that] in simp_all)
  then show ?thesis
    unfolding db_Updates_def wp_bind wp_return by (simp add: interleaved_def wp_between_since assms(1))
qed

lemma wp_busy_requestCount:
  assumes "roomy view p" and "\<And>n p'. since view p p' \<Longrightarrow> Q n p'"
  shows "wp (requestCount (interleaved W) uid) Q p"
  unfolding requestCount_def wp_bind wp_return by (rule wp_busy_Get) (use assms in simp_all)

end

section \<open>The flush\<close>

lemma room_range:
  assumes "room m rs"
  shows "0 \<le> num m (UsageKey x ''upload'')" "0 \<le> num m (UsageKey x ''download'')" "0 \<le> num m (UsageKey x ''requests'')"
    and "num m (UsageKey x ''upload'') + num m (UsageKey x ''download'') < 2 ^ 63"
proof -
  have pos: "0 \<le> num m (UsageKey x d)" if "d \<in> set kinds" for d using assms that unfolding room_def by blast
  have recs: "\<forall>r\<in>set rs. record_ok r" using assms unfolding room_def by blast
  have "num m (UsageKey x ''upload'') + num m (UsageKey x ''download'') + bytes_recorded x rs < 2 ^ 63"
    using assms unfolding room_def by blast
  moreover have "0 \<le> bytes_recorded x rs" using recorded_nonneg [OF recs] by (simp add: bytes_recorded_def)
  ultimately show "num m (UsageKey x ''upload'') + num m (UsageKey x ''download'') < 2 ^ 63" by linarith
qed (use assms in \<open>simp_all add: room_def\<close>)

text \<open>What one user is charged: read, charged to the row, and lowered by as much at the end.\<close>

lemma charged_booked:
  assumes "booked view p p4" and "\<not> node_named x" and "since view p4' p6"
    and p4': "snd p4' = snd p4" "view (fst p4') = (view (fst p4))\<lparr>st_users :=
      map (\<lambda>u. if u_UID u = x then f u else u) (st_users (view (fst p4)))\<rparr>"
    and f: "\<And>u. u_UID u = x \<Longrightarrow> u_UID (f u) = x \<and> u_UsedBytes (f u) = u_UsedBytes u + n ''upload'' + n ''download''"
    and p7: "snd p7 = snd p6" "view (fst p7) = (view (fst p6))\<lparr>st_keys := m'\<rparr>"
    and "room m' (concat (snd p6))"
    and "\<forall>y. \<forall>d\<in>set kinds. num m' (UsageKey y d) = cnt view p6 y d - (if y = x then n d else 0)"
  shows "booked view p p7"
  using assms charge_accounts [of "view (fst p)" "concat (snd p)" "view (fst p4)" "concat (snd p4)" x f
      "view (fst p6)" "concat (snd p6)" n m']
  unfolding booked_def since_def by (auto intro: suffix_order.order_trans)

lemma charged_node_booked:
  assumes "booked view p p4" and "since view p4' p6"
    and p4': "snd p4' = snd p4" "view (fst p4') = (view (fst p4))\<lparr>st_nodes :=
      map (\<lambda>k. if n_ID k = i then f k else k) (st_nodes (view (fst p4)))\<rparr>"
    and f: "\<And>k. n_ID k = i \<Longrightarrow> n_ID (f k) = i \<and> n_UploadBytes (f k) = n_UploadBytes k + n ''upload'' \<and>
      n_DownloadBytes (f k) = n_DownloadBytes k + n ''download'' \<and> n_TotalRequests (f k) = n_TotalRequests k + n ''requests''"
    and p7: "snd p7 = snd p6" "view (fst p7) = (view (fst p6))\<lparr>st_keys := m'\<rparr>"
    and "room m' (concat (snd p6))"
    and "\<forall>y. \<forall>d\<in>set kinds. num m' (UsageKey y d) = cnt view p6 y d - (if y = node_name i then n d else 0)"
  shows "booked view p p7"
  using assms charge_node_accounts [of "view (fst p)" "concat (snd p)" "view (fst p4)" "concat (snd p4)" i f
      "view (fst p6)" "concat (snd p6)" n m']
  unfolding booked_def since_def by (auto intro: suffix_order.order_trans)

context reliable
begin

lemma wp_busy_lower:
  assumes "roomy view p" and "\<forall>d\<in>set kinds. 0 \<le> n d \<and> n d \<le> cnt view p x d"
    and "\<And>p1 p2 m'. since view p p1 \<Longrightarrow> snd p2 = snd p1 \<Longrightarrow> view (fst p2) = (view (fst p1))\<lparr>st_keys := m'\<rparr> \<Longrightarrow>
      room m' (concat (snd p1)) \<Longrightarrow>
      \<forall>y. \<forall>d\<in>set kinds. num m' (UsageKey y d) = cnt view p1 y d - (if y = x then n d else 0) \<Longrightarrow> Q None p2"
  shows "wp (redis_Exec (interleaved W) (lower x n)) Q p"
proof (rule wp_busy_Exec [OF assms(1)])
  fix p1 p2
  assume since: "since view p p1" and p2: "snd p2 = snd p1"
    "view (fst p2) = (view (fst p1))\<lparr>st_keys := fst (apply_tx (st_keys (view (fst p1))) (lower x n))\<rparr>"
  have "\<forall>d\<in>set kinds. 0 \<le> n d \<and> n d \<le> cnt view p1 x d"
    using assms(2) since_mono [OF since assms(1)] by (meson order_trans)
  from lower_tx [OF since_room [OF since] this] obtain m'
    where "apply_tx (st_keys (view (fst p1))) (lower x n) = (m', Inr RStatus)" "room m' (concat (snd p1))"
      "\<forall>y. \<forall>d\<in>set kinds. num m' (UsageKey y d) = cnt view p1 y d - (if y = x then n d else 0)" by blast
  then show "Q (as_err (snd (apply_tx (st_keys (view (fst p1))) (lower x n)))) p2"
    using assms(3) [OF since p2(1)] p2(2) by simp
qed

lemma wp_busy_charge:
  assumes "roomy view p" and node: "\<not> node_named x"
    and read: "since view p p1" "since view p1 p2" and wait: "since view p2 p3" "since view p3 p4"
    and p4': "snd p4' = snd p4" "view (fst p4') = (view (fst p4))\<lparr>st_users :=
      map (\<lambda>u. if u_UID u = x then u\<lparr>u_UsedBytes := u_UsedBytes u +
          wrap64 (cnt view p1 x ''upload'' + cnt view p2 x ''download''), u_TotalRequests := u_TotalRequests u + c\<rparr> else u)
        (st_users (view (fst p4)))\<rparr>"
    and p5: "since view p4' p5"
    and Q: "\<And>q. booked view p q \<Longrightarrow> Q None q"
  shows "wp (redis_Exec (interleaved W) [INCRBY (UsageKey x ''upload'') (- cnt view p1 x ''upload''),
      INCRBY (UsageKey x ''download'') (- cnt view p2 x ''download''),
      INCRBY (RequestsKey x) (- or_zero (Int64 (get_answer (st_keys (view (fst p5))) (RequestsKey x))))]) Q p5"
proof -
  let ?n = "\<lambda>d. if d = ''upload'' then cnt view p1 x ''upload'' else if d = ''download'' then cnt view p2 x ''download''
    else cnt view p5 x ''requests''"
  have same: "cnt view p4' x d = cnt view p4 x d" "roomy view p4 \<Longrightarrow> roomy view p4'" for d using p4' by simp_all
  note p24 = since_trans [OF wait]
  have up: "cnt view p1 x d \<le> cnt view p2 x d" "cnt view p2 x d \<le> cnt view p5 x d" if "d \<in> set kinds" for d
    using since_mono [OF read(2) since_room [OF read(1)] that, of x] since_mono [OF p24 since_room [OF read(2)] that, of x]
      since_mono [OF p5 same(2) [OF since_room [OF p24]] that, of x] same(1) [of d] by linarith+
  note r1 = room_range [OF since_room [OF read(1)], of x] and r2 = room_range [OF since_room [OF read(2)], of x]
    and r5 = room_range [OF since_room [OF p5], of x]
  have total: "wrap64 (cnt view p1 x ''upload'' + cnt view p2 x ''download'') = ?n ''upload'' + ?n ''download''"
    using r1 r2 up(1) [of "''upload''"] by (simp add: int64_range_def)
  have "\<forall>d\<in>set kinds. 0 \<le> ?n d \<and> ?n d \<le> cnt view p5 x d"
    using r1 r2 r5 up [of "''upload''"] up [of "''download''"] by simp
  then have "wp (redis_Exec (interleaved W) (lower x ?n)) Q p5"
  proof (rule wp_busy_lower [OF since_room [OF p5]])
    fix p6 p7 m'
    assume p6: "since view p5 p6" and p7: "snd p7 = snd p6" "view (fst p7) = (view (fst p6))\<lparr>st_keys := m'\<rparr>"
      "room m' (concat (snd p6))"
      "\<forall>y. \<forall>d\<in>set kinds. num m' (UsageKey y d) = cnt view p6 y d - (if y = x then ?n d else 0)"
    have "booked view p p4" using since_booked [OF since_trans [OF read(1) since_trans [OF read(2) p24]]] .
    from charged_booked [OF this node since_trans [OF p5 p6] p4' _ p7]
    show "Q None p7" using total by (intro Q) simp
  qed
  then show ?thesis by (simp add: lower_def num_def RequestsKey_eq)
qed

lemma wp_busy_flush_users:
  assumes "roomy view p" and "\<forall>key\<in>set keys. \<exists>x. key = UsageKey x ''upload''"
    and "\<And>r p'. booked view p p' \<Longrightarrow> Q r p'"
  shows "wp (flush_users (interleaved W) keys) Q p"
  using assms
proof (induction keys arbitrary: p Q)
  case Nil
  then show ?case by (simp add: booked_refl)
next
  case (Cons key keys)
  obtain x where key: "key = UsageKey x ''upload''" using Cons.prems(2) by auto
  have rest: "wp (flush_users (interleaved W) keys) Q q" if "booked view p q" for q
    using that Cons.prems by (intro Cons.IH) (auto intro: booked_room booked_trans)
  show ?case
  proof (cases "HasPrefix key ''usage:node:''")
    case True
    then show ?thesis using rest [of p] Cons.prems(1) by (simp add: booked_refl)
  next
    case False
    then have node: "\<not> node_named x" using not_node_key key by blast
    have uid: "usage_uid key = x" using usage_uid_key key by simp
    show ?thesis
      using False
      apply (simp add: uid Let_def)
      apply (rule wp_busy_Get [OF Cons.prems(1)])
      subgoal for p1
        apply (rule wp_busy_Get, erule since_room)
        subgoal for p2
          apply (simp flip: num_def)
          apply (intro conjI impI)
           apply (rule rest, rule since_booked, erule (1) since_trans)
          apply (rule wp_busy_requestCount, erule since_room)
          subgoal for counted p3
            apply (rule wp_busy_Updates_users, erule since_room)
            subgoal for p4 p4'
              apply (simp only: option.case wp_bind)
              apply (rule wp_busy_Get, simp add: since_room)
              apply (rule wp_busy_charge [OF Cons.prems(1) node]; (assumption | simp add: rest))
              done
            subgoal for e p4
              apply (simp only: option.case wp_return)
              apply (rule Cons.prems(3), rule since_booked, meson since_trans)
              done
            done
          done
        done
      done
  qed
qed

lemma wp_busy_charge_node:
  assumes "roomy view p"
    and read: "since view p p1" "since view p1 p2" "since view p2 p3" and p4: "since view p3 p4"
    and p4': "snd p4' = snd p4" "view (fst p4') = (view (fst p4))\<lparr>st_nodes :=
      map (\<lambda>k. if n_ID k = i then k\<lparr>n_UploadBytes := n_UploadBytes k + cnt view p1 (node_name i) ''upload'',
            n_DownloadBytes := n_DownloadBytes k + cnt view p2 (node_name i) ''download'',
            n_TotalRequests := n_TotalRequests k + cnt view p3 (node_name i) ''requests''\<rparr> else k)
        (st_nodes (view (fst p4)))\<rparr>"
    and Q: "\<And>q. booked view p q \<Longrightarrow> Q None q"
  shows "wp (redis_Exec (interleaved W) [INCRBY (NodeUsageKey i ''upload'') (- cnt view p1 (node_name i) ''upload''),
      INCRBY (NodeUsageKey i ''download'') (- cnt view p2 (node_name i) ''download''),
      INCRBY (NodeRequestsKey i) (- cnt view p3 (node_name i) ''requests'')]) Q p4'"
proof -
  let ?x = "node_name i"
  let ?n = "\<lambda>d. if d = ''upload'' then cnt view p1 ?x ''upload'' else if d = ''download'' then cnt view p2 ?x ''download''
    else cnt view p3 ?x ''requests''"
  have room: "roomy view p4'" using since_room [OF p4] p4' by simp
  have up: "cnt view p1 ?x d \<le> cnt view p2 ?x d" "cnt view p2 ?x d \<le> cnt view p3 ?x d"
    "cnt view p3 ?x d \<le> cnt view p4' ?x d" if "d \<in> set kinds" for d
    using since_mono [OF read(2) since_room [OF read(1)] that, of ?x] since_mono [OF read(3) since_room [OF read(2)] that, of ?x]
      since_mono [OF p4 since_room [OF read(3)] that, of ?x] p4' by simp_all
  note r1 = room_range [OF since_room [OF read(1)], of ?x] and r2 = room_range [OF since_room [OF read(2)], of ?x]
    and r3 = room_range [OF since_room [OF read(3)], of ?x]
  have "\<forall>d\<in>set kinds. 0 \<le> ?n d \<and> ?n d \<le> cnt view p4' ?x d"
    using r1 r2 r3 up [of "''upload''"] up [of "''download''"] up [of "''requests''"] by (simp del: append.simps)
  then have "wp (redis_Exec (interleaved W) (lower ?x ?n)) Q p4'"
  proof (rule wp_busy_lower [OF room])
    fix p6 p7 m'
    assume p6: "since view p4' p6" and p7: "snd p7 = snd p6" "view (fst p7) = (view (fst p6))\<lparr>st_keys := m'\<rparr>"
      "room m' (concat (snd p6))"
      "\<forall>y. \<forall>d\<in>set kinds. num m' (UsageKey y d) = cnt view p6 y d - (if y = ?x then ?n d else 0)"
    have "booked view p p4"
      using since_booked [OF since_trans [OF read(1) since_trans [OF read(2) since_trans [OF read(3) p4]]]] .
    from charged_node_booked [OF this p6 p4' _ p7] show "Q None p7" by (intro Q) simp
  qed
  then show ?thesis by (simp add: lower_def NodeUsageKey_eq del: append.simps)
qed

lemma wp_busy_flush_nodes:
  assumes "roomy view p" and "\<And>r p'. booked view p p' \<Longrightarrow> Q r p'"
  shows "wp (flush_nodes (interleaved W) keys) Q p"
  using assms
proof (induction keys arbitrary: p Q)
  case Nil
  then show ?case by (simp add: booked_refl)
next
  case (Cons key keys)
  have rest: "wp (flush_nodes (interleaved W) keys) Q q" if "booked view p q" for q
    using that Cons.prems by (intro Cons.IH) (auto intro: booked_room booked_trans)
  show ?case
  proof (cases "scan_node_key key")
    case None
    then show ?thesis using rest [of p] Cons.prems(1) by (simp add: booked_refl)
  next
    case (Some i)
    show ?thesis
      apply (simp add: Some Let_def)
      apply (rule wp_busy_Get [OF Cons.prems(1)])
      subgoal for p1
        apply (rule wp_busy_Get, erule since_room)
        subgoal for p2
          apply (rule wp_busy_Get, erule since_room)
          subgoal for p3
            apply (simp flip: num_def add: NodeUsageKey_eq del: append.simps)
            apply (intro conjI impI)
             apply (rule rest, rule since_booked, meson since_trans)
            apply (rule wp_busy_Updates_nodes, erule since_room)
            subgoal for p4 p4'
              apply (simp only: option.case wp_bind)
              apply (rule wp_busy_charge_node [OF Cons.prems(1), unfolded NodeUsageKey_eq]; (assumption | simp add: rest))
              done
            subgoal for e p4
              apply (simp only: option.case wp_return)
              apply (rule Cons.prems(2), rule since_booked, meson since_trans)
              done
            done
          done
        done
      done
  qed
qed

lemma wp_busy_FlushUsage:
  assumes "roomy view p" and "\<And>r p'. booked view p p' \<Longrightarrow> Q r p'"
  shows "wp (FlushUsage (interleaved W)) Q p"
  unfolding FlushUsage_def wp_bind
proof (rule wp_busy_Keys [OF assms(1)], simp only: sum.case wp_bind)
  fix ks p1
  assume p1: "since view p p1" and ks: "\<forall>k\<in>set ks. glob ''usage:*:upload'' k"
  have nodes: "wp (flushNodeUsage (interleaved W)) Q p2" if "booked view p1 p2" for p2
    unfolding flushNodeUsage_def wp_bind
  proof (rule wp_busy_Keys [OF booked_room [OF that]], simp only: sum.case)
    fix ks' p3 assume "since view p2 p3"
    then have "booked view p p3" using that p1 since_booked booked_trans by blast
    then show "wp (flush_nodes (interleaved W) ks') Q p3"
      by (intro wp_busy_flush_nodes assms(2)) (auto intro: booked_room booked_trans)
  qed
  show "wp (flush_users (interleaved W) ks) (\<lambda>err. wp (case err of None \<Rightarrow> flushNodeUsage (interleaved W)
      | Some e \<Rightarrow> State_Monad.return (Some e)) Q) p1"
  proof (rule wp_busy_flush_users [OF since_room [OF p1]])
    show "\<forall>key\<in>set ks. \<exists>x. key = UsageKey x ''upload''" using ks glob_usage by blast
    fix r p2 assume "booked view p1 p2"
    then show "wp (case r of None \<Rightarrow> flushNodeUsage (interleaved W) | Some e \<Rightarrow> State_Monad.return (Some e)) Q p2"
      using nodes assms(2) booked_trans [OF since_booked [OF p1]] by (auto split: option.split)
  qed
qed

end

section \<open>Properties\<close>

lemma user_total_cancel:
  assumes "user_total v' rs = user_total v (taken @ rs)"
  shows "user_total v' [] = user_total v taken"
proof -
  have "map (\<lambda>(uid, b). (uid, b - bytes_recorded uid rs)) (user_total v' rs) =
      map (\<lambda>(uid, b). (uid, b - bytes_recorded uid rs)) (user_total v (taken @ rs))" by (simp only: assms)
  then show ?thesis by (simp add: user_total_def o_def add_diff_eq)
qed

lemma node_total_cancel:
  assumes "node_total v' rs = node_total v (taken @ rs)"
  shows "node_total v' [] = node_total v taken"
proof -
  let ?f = "\<lambda>(i, up, down, n). (i, up - recorded (node_name i) ''upload'' rs, down - recorded (node_name i) ''download'' rs,
    n - recorded (node_name i) ''requests'' rs)"
  have "map ?f (node_total v' rs) = map ?f (node_total v (taken @ rs))" by (simp only: assms)
  then show ?thesis by (simp add: node_total_def o_def add_diff_eq del: append.simps)
qed

text \<open>
  C5: A flush that runs while the gateway records traffic loses no byte and charges none twice: in every
  interleaving of its commands with records, whether it completes or fails, what the row of a user
  holds and what Redis holds for it add up to what they did before and what was recorded meanwhile,
  and so do the bytes and requests of every node.
\<close>

theorem FlushUsage_conserves_interleaved:
  assumes "reliable W view" and "room (st_keys (view s)) (concat sched)"
  shows "wp (FlushUsage (interleaved W)) (\<lambda>_ (s', left). \<exists>taken. sched = taken @ left \<and>
     user_total (view s') [] = user_total (view s) (concat taken) \<and>
     node_total (view s') [] = node_total (view s) (concat taken)) (s, sched)"
proof (rule reliable.wp_busy_FlushUsage [OF assms(1)])
  show "roomy view (s, sched)" using assms(2) by simp
  fix r p' assume "booked view (s, sched) p'"
  then show "case p' of (s', left) \<Rightarrow> \<exists>taken. sched = taken @ left \<and>
     user_total (view s') [] = user_total (view s) (concat taken) \<and>
     node_total (view s') [] = node_total (view s) (concat taken)"
    by (auto simp: booked_def accounts_def suffix_def intro: user_total_cancel node_total_cancel split: prod.splits)
qed

definition sample_record :: TrafficRecord where
  "sample_record = \<lparr>t_UID = ''alice'', t_NodeID = 0, t_Region = ''US'', t_Upload = 3, t_Download = 4, t_Requests = 1\<rparr>"

lemma sample_room: "room [UsageKey ''alice'' ''upload'' \<mapsto> VStr ''70'' 0] [sample_record]"
proof -
  let ?m = "[UsageKey ''alice'' ''upload'' \<mapsto> VStr ''70'' 0]"
  have "num ?m (UsageKey x d) = (if x = ''alice'' \<and> d = ''upload'' then 70 else 0)" if "d \<in> set kinds" for x d
    using that by (auto simp: num_def get_answer_def UsageKey_eq parse_70)
  moreover have "numeric ?m k" for k by (simp add: numeric_def parse_70)
  ultimately show ?thesis
    by (simp add: room_def record_ok_def sample_record_def node_named_def HasPrefix_def recorded_def bytes_recorded_def
        names_def field_def maxInt64_def)
qed

lemma sample_bytes: "\<forall>r\<in>set rs. r = sample_record \<Longrightarrow> bytes_recorded ''alice'' rs = 7 * int (length rs)"
  by (induction rs) (simp_all add: bytes_recorded_def recorded_Cons names_def field_def sample_record_def)

theorem FlushUsage_conserves_interleaved_witness:
  "wp (FlushUsage (interleaved mem_world)) (\<lambda>_ (s', left). \<exists>taken. [[], [], [sample_record]] = taken @ left \<and>
     user_total (mem_view s') [] = [(''alice'', 75 + 7 * int (length (concat taken)))]) (mem_usage ''alice'', [[], [], [sample_record]])"
proof (rule wp_mono [OF FlushUsage_conserves_interleaved [OF mem.reliable_axioms]])
  show "room (st_keys (mem_view (mem_usage ''alice''))) (concat [[], [], [sample_record]])" by (simp add: sample_room)
  have total: "user_total (mem_view (mem_usage ''alice'')) rs = [(''alice'', 75 + bytes_recorded ''alice'' rs)]" for rs
    by (simp add: user_total_def node_named_def HasPrefix_def zero_user_def UsageKey_eq num_def get_answer_def parse_70)
  have "bytes_recorded ''alice'' (concat taken) = 7 * int (length (concat taken))"
    if "[[], [], [sample_record]] = taken @ left" for taken left
  proof (rule sample_bytes)
    have "set (concat taken) \<subseteq> set (concat [[], [], [sample_record]])" unfolding that by auto
    then show "\<forall>r\<in>set (concat taken). r = sample_record" by auto
  qed
  then show "case p of (s', left) \<Rightarrow> \<exists>taken. [[], [], [sample_record]] = taken @ left \<and>
      user_total (mem_view s') [] = [(''alice'', 75 + 7 * int (length (concat taken)))]"
    if "case p of (s', left) \<Rightarrow> \<exists>taken. [[], [], [sample_record]] = taken @ left \<and>
      user_total (mem_view s') [] = user_total (mem_view (mem_usage ''alice'')) (concat taken) \<and>
      node_total (mem_view s') [] = node_total (mem_view (mem_usage ''alice'')) (concat taken)" for p
    using that by (auto simp: total)
qed

text \<open>
  The number of requests is not safe in the same way: a request recorded after the count for the row
  was read and before it is read again for the reset is taken off the counter and never charged.
\<close>

theorem FlushUsage_loses_requests:
  "case run_state (FlushUsage (interleaved mem_world)) (mem_usage ''alice'', [[], [], [], [], [], [sample_record]])
   of (r, s, left) \<Rightarrow> r = None \<and> left = [] \<and> map u_TotalRequests (mem_users s) = [0] \<and>
     num (mem_keys s) (UsageKey ''alice'' ''requests'') = 0"
  by code_simp

end
