(* ===== verification/SubParse.thy ===== *)
theory SubParse
  imports Complex_Main Base64 Model
begin

text \<open>
  Package \<^verbatim>\<open>subscription\<close> (\<^verbatim>\<open>internal/subscription/service.go\<close>), first part: the parsers of the
  subscription formats (manual lists, Surge, Quantumult X, Shadowrocket, Clash, sing-box), which
  turn a document into nodes, and the region they infer from the name of a node.  What the
  parsers ask of \<^verbatim>\<open>encoding/json\<close>, \<^verbatim>\<open>yaml.v3\<close> and \<^verbatim>\<open>net/url\<close> is the parameter \<open>formats\<close>.
\<close>

section \<open>Documents\<close>

text \<open>A Go value of type \<^verbatim>\<open>any\<close>, as the JSON and YAML decoders make them.\<close>

datatype any =
    ANil
  | ABool bool
  | AInt int
  | AInt64 int
  | AUint64 nat
  | AFloat rat
  | AStr string
  | AList "any list"
  | AMap "(string \<times> any) list"

type_synonym item = "(string \<times> any) list"

record url =
  url_Scheme :: string
  url_Hostname :: string
  url_Port :: string
  url_User :: "(string \<times> string option) option"
  url_Fragment :: string
  url_Get :: "string \<Rightarrow> string"

record formats =
  json_outbounds :: "string \<Rightarrow> error + item list"
  json_map :: "string \<Rightarrow> error + item"
  yaml_proxies :: "string \<Rightarrow> error + item list"
  json_Marshal :: "item \<Rightarrow> string"
  url_Parse :: "string \<Rightarrow> error + url"
  QueryUnescape :: "string \<Rightarrow> error + string"

record parsedNode =
  p_Protocol :: string
  p_Host :: string
  p_Port :: int
  p_Username :: string
  p_Password :: string
  p_TLSEnabled :: bool
  p_TLSSkipVerify :: bool
  p_ServerName :: string
  p_Tag :: string
  p_ExpectedRegion :: string
  p_RawJSON :: string

definition item_get :: "item \<Rightarrow> string \<Rightarrow> any" where
  "item_get item k = (case map_of item k of None \<Rightarrow> ANil | Some v \<Rightarrow> v)"

fun stringValue :: "any \<Rightarrow> string" where
  "stringValue (AStr s) = s"
| "stringValue _ = []"

fun boolValue :: "any \<Rightarrow> bool" where
  "boolValue (ABool b) = b"
| "boolValue _ = False"

text \<open>\<^verbatim>\<open>int(f)\<close> of a \<^verbatim>\<open>float64\<close> drops the fraction; out of range it is the least \<^verbatim>\<open>int64\<close>, as on amd64.\<close>

definition int_of_float :: "rat \<Rightarrow> int" where
  "int_of_float f =
     (let i = (if f < 0 then - \<lfloor>- f\<rfloor> else \<lfloor>f\<rfloor>) in if int64_range i then i else - (2 ^ 63))"

fun parsePortValue :: "any \<Rightarrow> int option" where
  "parsePortValue (AInt i) = Some i"
| "parsePortValue (AInt64 i) = Some i"
| "parsePortValue (AUint64 n) = Some (wrap64 (int n))"
| "parsePortValue (AFloat f) = Some (int_of_float f)"
| "parsePortValue (AStr s) = Atoi (TrimSpace s)"
| "parsePortValue _ = None"

section \<open>Text helpers\<close>

fun firstNonEmpty :: "string list \<Rightarrow> string" where
  "firstNonEmpty [] = []"
| "firstNonEmpty (v # vs) = (if TrimSpace v \<noteq> [] then TrimSpace v else firstNonEmpty vs)"

definition padBase64 :: "string \<Rightarrow> string" where
  "padBase64 value =
     (if length value mod 4 \<noteq> 0 then value @ replicate (4 - length value mod 4) (CHR ''='') else value)"

definition decodeBase64Text :: "string \<Rightarrow> string option" where
  "decodeBase64Text value =
     (let trimmed = TrimSpace value
      in case DecodeString RawURLEncoding trimmed of
           Some d \<Rightarrow> Some d
         | None \<Rightarrow>
             (case DecodeString URLEncoding (padBase64 trimmed) of
                Some d \<Rightarrow> Some d
              | None \<Rightarrow>
                  (case DecodeString RawStdEncoding trimmed of
                     Some d \<Rightarrow> Some d
                   | None \<Rightarrow> DecodeString StdEncoding (padBase64 trimmed))))"

definition decodeShadowsocksUserInfo :: "string \<Rightarrow> (string \<times> string) option" where
  "decodeShadowsocksUserInfo value =
     (case decodeBase64Text value of None \<Rightarrow> None | Some decoded \<Rightarrow> cut_at decoded '':'')"

definition splitCommaSeparated :: "string \<Rightarrow> string list" where
  "splitCommaSeparated value = filter (\<lambda>t. t \<noteq> []) (map TrimSpace (Split value '',''))"

definition parseKeyValueOptions :: "string list \<Rightarrow> string \<Rightarrow> string option" where
  "parseKeyValueOptions parts =
     foldl (\<lambda>result part. case cut_at part ''='' of
         None \<Rightarrow> result
       | Some (k, v) \<Rightarrow> result(ToLower (TrimSpace k) \<mapsto> TrimSpace v)) Map.empty parts"

definition opt :: "(string \<Rightarrow> string option) \<Rightarrow> string \<Rightarrow> string" where
  "opt options k = (case options k of None \<Rightarrow> [] | Some v \<Rightarrow> v)"

text \<open>\<^verbatim>\<open>v, _ := f()\<close> for a string.\<close>

fun or_empty :: "error + string \<Rightarrow> string" where
  "or_empty (Inl _) = []"
| "or_empty (Inr s) = s"

abbreviation is_newline :: "char \<Rightarrow> bool" where
  "is_newline c \<equiv> c = CHR 0x0A \<or> c = CHR 0x0D"

section \<open>Protocols\<close>

definition isSupportedOutboundProtocol :: "string \<Rightarrow> bool" where
  "isSupportedOutboundProtocol protocol \<longleftrightarrow>
     ToLower (TrimSpace protocol) \<in>
       {''http'', ''socks'', ''socks5'', ''ss'', ''shadowsocks'', ''trojan'', ''vless'', ''vmess''}"

definition isShadowsocksProtocol :: "string \<Rightarrow> bool" where
  "isShadowsocksProtocol protocol \<longleftrightarrow> ToLower (TrimSpace protocol) \<in> {''ss'', ''shadowsocks''}"

definition isTrojanProtocol :: "string \<Rightarrow> bool" where
  "isTrojanProtocol protocol \<longleftrightarrow> EqualFold (TrimSpace protocol) ''trojan''"

definition isVLESSProtocol :: "string \<Rightarrow> bool" where
  "isVLESSProtocol protocol \<longleftrightarrow> EqualFold (TrimSpace protocol) ''vless''"

definition isVMessProtocol :: "string \<Rightarrow> bool" where
  "isVMessProtocol protocol \<longleftrightarrow> EqualFold (TrimSpace protocol) ''vmess''"

definition normalizeProxyProtocol :: "string \<Rightarrow> string \<times> bool" where
  "normalizeProxyProtocol value =
     (let v = ToLower (TrimSpace value)
      in if v = ''http'' then (''http'', False)
         else if v = ''https'' then (''http'', True)
         else if v = ''socks'' \<or> v = ''socks5'' then (''socks'', False)
         else if v = ''ss'' \<or> v = ''shadowsocks'' then (''ss'', False)
         else if v = ''trojan'' then (''trojan'', True)
         else if v = ''vless'' then (''vless'', False)
         else ([], False))"

section \<open>Regions\<close>

text \<open>
  The pattern \<^verbatim>\<open>(?i)\b(HK|SG|...)\b\<close>: a word boundary lies between an ASCII word character and
  something else; without regard to case \<^verbatim>\<open>K\<close> also matches the Kelvin sign (U+212A) and \<^verbatim>\<open>S\<close> the
  long s (U+017F).
\<close>

definition region_codes :: "string list" where
  "region_codes = [''HK'', ''SG'', ''US'', ''JP'', ''TW'', ''KR'', ''DE'', ''FR'', ''GB'', ''NL'', ''CA'', ''AU'']"

definition word_char :: "char \<Rightarrow> bool" where
  "word_char c \<longleftrightarrow> byte_in 48 c 57 \<or> byte_in 65 c 90 \<or> byte_in 97 c 122 \<or> c = CHR ''_''"

definition word_at :: "string \<Rightarrow> bool" where
  "word_at s \<longleftrightarrow> (case s of [] \<Rightarrow> False | c # _ \<Rightarrow> word_char c)"

text \<open>The runes outside ASCII that fold to a capital letter.\<close>

definition folded :: "char \<Rightarrow> string" where
  "folded l = (if l = CHR ''K'' then [CHR 0xE2, CHR 0x84, CHR 0xAA]
     else if l = CHR ''S'' then [CHR 0xC5, CHR 0xBF] else [])"

text \<open>The bytes that match a code at the front, without regard to case, and the rest.\<close>

fun match_code :: "string \<Rightarrow> string \<Rightarrow> (string \<times> string) option" where
  "match_code [] s = Some ([], s)"
| "match_code (l # ls) [] = None"
| "match_code (l # ls) (c # s) =
     (if upper_char c = l then map_option (\<lambda>(m, r). (c # m, r)) (match_code ls s)
      else if folded l \<noteq> [] \<and> prefix (folded l) (c # s)
      then map_option (\<lambda>(m, r). (folded l @ m, r)) (match_code ls (drop (length (folded l)) (c # s)))
      else None)"

definition region_here :: "bool \<Rightarrow> string \<Rightarrow> string option" where
  "region_here before s =
     (if before = word_at s then None
      else map_option fst (find (\<lambda>(m, r). word_char (last m) \<noteq> word_at r)
             (List.map_filter (\<lambda>code. match_code code s) region_codes)))"

fun find_region :: "bool \<Rightarrow> string \<Rightarrow> string option" where
  "find_region before [] = None"
| "find_region before (c # s) =
     (case region_here before (c # s) of
        Some m \<Rightarrow> Some m
      | None \<Rightarrow> find_region (word_char c) s)"

definition regionHints :: "(string \<times> string) list" where
  "regionHints = [
     ([CHR 0xF0, CHR 0x9F, CHR 0x87, CHR 0xAD, CHR 0xF0, CHR 0x9F, CHR 0x87, CHR 0xB0], ''HK''),
     ([CHR 0xE9, CHR 0xA6, CHR 0x99, CHR 0xE6, CHR 0xB8, CHR 0xAF], ''HK''),
     (''hong kong'', ''HK''),
     ([CHR 0xF0, CHR 0x9F, CHR 0x87, CHR 0xB8, CHR 0xF0, CHR 0x9F, CHR 0x87, CHR 0xAC], ''SG''),
     ([CHR 0xE6, CHR 0x96, CHR 0xB0, CHR 0xE5, CHR 0x8A, CHR 0xA0, CHR 0xE5, CHR 0x9D, CHR 0xA1], ''SG''),
     (''singapore'', ''SG''),
     ([CHR 0xF0, CHR 0x9F, CHR 0x87, CHR 0xAF, CHR 0xF0, CHR 0x9F, CHR 0x87, CHR 0xB5], ''JP''),
     ([CHR 0xE6, CHR 0x97, CHR 0xA5, CHR 0xE6, CHR 0x9C, CHR 0xAC], ''JP''),
     ([CHR 0xE4, CHR 0xB8, CHR 0x9C, CHR 0xE4, CHR 0xBA, CHR 0xAC], ''JP''),
     (''tokyo'', ''JP''),
     (''japan'', ''JP''),
     ([CHR 0xF0, CHR 0x9F, CHR 0x87, CHR 0xBA, CHR 0xF0, CHR 0x9F, CHR 0x87, CHR 0xB8], ''US''),
     ([CHR 0xE7, CHR 0xBE, CHR 0x8E, CHR 0xE5, CHR 0x9B, CHR 0xBD], ''US''),
     ([CHR 0xE7, CHR 0xA1, CHR 0x85, CHR 0xE8, CHR 0xB0, CHR 0xB7], ''US''),
     ([CHR 0xE6, CHR 0xB4, CHR 0x9B, CHR 0xE6, CHR 0x9D, CHR 0x89, CHR 0xE7, CHR 0x9F, CHR 0xB6], ''US''),
     (''los angeles'', ''US''),
     (''silicon valley'', ''US''),
     (''usa'', ''US''),
     (''united states'', ''US''),
     ([CHR 0xF0, CHR 0x9F, CHR 0x87, CHR 0xB9, CHR 0xF0, CHR 0x9F, CHR 0x87, CHR 0xBC], ''TW''),
     ([CHR 0xE5, CHR 0x8F, CHR 0xB0, CHR 0xE6, CHR 0xB9, CHR 0xBE], ''TW''),
     (''taiwan'', ''TW''),
     ([CHR 0xF0, CHR 0x9F, CHR 0x87, CHR 0xB0, CHR 0xF0, CHR 0x9F, CHR 0x87, CHR 0xB7], ''KR''),
     ([CHR 0xE9, CHR 0x9F, CHR 0xA9, CHR 0xE5, CHR 0x9B, CHR 0xBD], ''KR''),
     (''seoul'', ''KR''),
     (''korea'', ''KR''),
     ([CHR 0xF0, CHR 0x9F, CHR 0x87, CHR 0xA9, CHR 0xF0, CHR 0x9F, CHR 0x87, CHR 0xAA], ''DE''),
     ([CHR 0xE5, CHR 0xBE, CHR 0xB7, CHR 0xE5, CHR 0x9B, CHR 0xBD], ''DE''),
     (''germany'', ''DE''),
     ([CHR 0xF0, CHR 0x9F, CHR 0x87, CHR 0xAB, CHR 0xF0, CHR 0x9F, CHR 0x87, CHR 0xB7], ''FR''),
     ([CHR 0xE6, CHR 0xB3, CHR 0x95, CHR 0xE5, CHR 0x9B, CHR 0xBD], ''FR''),
     (''france'', ''FR''),
     ([CHR 0xF0, CHR 0x9F, CHR 0x87, CHR 0xAC, CHR 0xF0, CHR 0x9F, CHR 0x87, CHR 0xA7], ''GB''),
     ([CHR 0xE8, CHR 0x8B, CHR 0xB1, CHR 0xE5, CHR 0x9B, CHR 0xBD], ''GB''),
     (''london'', ''GB''),
     (''uk'', ''GB''),
     ([CHR 0xF0, CHR 0x9F, CHR 0x87, CHR 0xB3, CHR 0xF0, CHR 0x9F, CHR 0x87, CHR 0xB1], ''NL''),
     ([CHR 0xE8, CHR 0x8D, CHR 0xB7, CHR 0xE5, CHR 0x85, CHR 0xB0], ''NL''),
     (''netherlands'', ''NL''),
     ([CHR 0xF0, CHR 0x9F, CHR 0x87, CHR 0xA8, CHR 0xF0, CHR 0x9F, CHR 0x87, CHR 0xA6], ''CA''),
     ([CHR 0xE5, CHR 0x8A, CHR 0xA0, CHR 0xE6, CHR 0x8B, CHR 0xBF, CHR 0xE5, CHR 0xA4, CHR 0xA7], ''CA''),
     (''canada'', ''CA''),
     ([CHR 0xF0, CHR 0x9F, CHR 0x87, CHR 0xA6, CHR 0xF0, CHR 0x9F, CHR 0x87, CHR 0xBA], ''AU''),
     ([CHR 0xE6, CHR 0xBE, CHR 0xB3, CHR 0xE5, CHR 0xA4, CHR 0xA7, CHR 0xE5, CHR 0x88, CHR 0xA9, CHR 0xE4, CHR 0xBA, CHR 0x9A], ''AU''),
     ([CHR 0xE6, CHR 0x82, CHR 0x89, CHR 0xE5, CHR 0xB0, CHR 0xBC], ''AU''),
     (''australia'', ''AU'')]"

definition inferRegion :: "string \<Rightarrow> string" where
  "inferRegion tag =
     (case find_region False (ToUpper tag) of
        Some m \<Rightarrow> m
      | None \<Rightarrow>
          (case find (\<lambda>(m, _). Contains (ToLower tag) (ToLower m)) regionHints of
             Some (_, region) \<Rightarrow> region
           | None \<Rightarrow> []))"

section \<open>Manual lists\<close>

record ManualNodeInput =
  mi_Protocol :: string
  mi_Host :: string
  mi_Port :: int
  mi_Username :: string
  mi_Password :: string
  mi_Tag :: string

definition host_port :: "string \<Rightarrow> int \<Rightarrow> string" where
  "host_port host port = host @ '':'' @ Itoa port"

definition manual_json :: "string \<Rightarrow> string \<Rightarrow> int \<Rightarrow> string \<Rightarrow> item" where
  "manual_json protocol host port tag =
     [(''source_format'', AStr ''manual''), (''type'', AStr protocol), (''server'', AStr host),
      (''server_port'', AInt port), (''tag'', AStr tag)]"

definition manual_node :: "formats \<Rightarrow> string \<Rightarrow> string \<Rightarrow> int \<Rightarrow> string \<Rightarrow> string \<Rightarrow> string \<Rightarrow> parsedNode" where
  "manual_node F protocol host port username password tag =
     \<lparr>p_Protocol = protocol, p_Host = host, p_Port = port, p_Username = username, p_Password = password,
      p_TLSEnabled = False, p_TLSSkipVerify = False, p_ServerName = [], p_Tag = tag,
      p_ExpectedRegion = inferRegion tag,
      p_RawJSON = json_Marshal F (manual_json protocol host port tag)\<rparr>"

text \<open>The nodes of the form, or the error of the first input that is not one.\<close>

fun manual_inputs :: "formats \<Rightarrow> ManualNodeInput list \<Rightarrow> error + parsedNode list" where
  "manual_inputs F [] = Inr []"
| "manual_inputs F (input # inputs) =
     (let lowered = ToLower (TrimSpace (mi_Protocol input));
          protocol = (if lowered = [] then ''http'' else lowered)
      in if \<not> isSupportedOutboundProtocol protocol
         then Inl (Errorf (''unsupported manual protocol: '' @ mi_Protocol input))
         else
           let host = TrimSpace (mi_Host input)
           in if host = [] \<or> mi_Port input \<le> 0
              then Inl (Errorf ''invalid manual node: host and port are required'')
              else
                let trimmed = TrimSpace (mi_Tag input);
                    tag = (if trimmed = [] then host_port host (mi_Port input) else trimmed);
                    node = manual_node F protocol host (mi_Port input) (TrimSpace (mi_Username input))
                      (TrimSpace (mi_Password input)) tag
                in case manual_inputs F inputs of Inl err \<Rightarrow> Inl err | Inr nodes \<Rightarrow> Inr (node # nodes))"

definition parseManualProxyLine :: "formats \<Rightarrow> string \<Rightarrow> string \<Rightarrow> parsedNode option" where
  "parseManualProxyLine F line protocol =
     (let parts = Split (TrimSpace line) '':''
      in if length parts \<noteq> 2 \<and> length parts \<noteq> 4 then None
         else
           let host = TrimSpace (parts ! 0)
           in case Atoi (TrimSpace (parts ! 1)) of
                None \<Rightarrow> None
              | Some port \<Rightarrow>
                  if host = [] \<or> port \<le> 0 then None
                  else if length parts = 4 then
                    (let username = TrimSpace (parts ! 2); password = TrimSpace (parts ! 3)
                     in if username = [] \<or> password = [] then None
                        else Some (manual_node F protocol host port username password (host_port host port)))
                  else Some (manual_node F protocol host port [] [] (host_port host port)))"

fun manual_lines :: "formats \<Rightarrow> string \<Rightarrow> string list \<Rightarrow> error + parsedNode list" where
  "manual_lines F protocol [] = Inr []"
| "manual_lines F protocol (rawLine # lines) =
     (let line = TrimSpace rawLine
      in if line = [] \<or> HasPrefix line ''#'' \<or> HasPrefix line ''//'' then manual_lines F protocol lines
         else case parseManualProxyLine F line protocol of
           None \<Rightarrow> Inl (Errorf (''invalid manual proxy line: '' @ line))
         | Some node \<Rightarrow>
             (case manual_lines F protocol lines of Inl err \<Rightarrow> Inl err | Inr nodes \<Rightarrow> Inr (node # nodes)))"

definition ParseManualProxyList :: "formats \<Rightarrow> string \<Rightarrow> string \<Rightarrow> error + parsedNode list" where
  "ParseManualProxyList F body defaultProtocol =
     (let lowered = ToLower (TrimSpace defaultProtocol);
          protocol = (if lowered = [] then ''http'' else lowered)
      in if \<not> isSupportedOutboundProtocol protocol
         then Inl (Errorf (''unsupported manual protocol: '' @ defaultProtocol))
         else case manual_lines F protocol (Split body [CHR 0x0A]) of
           Inl err \<Rightarrow> Inl err
         | Inr nodes \<Rightarrow> if nodes = [] then Inl (Errorf ''manual proxy list is empty'') else Inr nodes)"

section \<open>Surge and Surfboard\<close>

definition line_json :: "string \<Rightarrow> string \<Rightarrow> string \<Rightarrow> int \<Rightarrow> string \<Rightarrow> bool \<Rightarrow> bool \<Rightarrow> string \<Rightarrow> item" where
  "line_json source protocol server port tag tlsEnabled tlsSkipVerify serverName =
     [(''source_format'', AStr source), (''type'', AStr protocol), (''server'', AStr server),
      (''server_port'', AInt port), (''tag'', AStr tag), (''tls_enabled'', ABool tlsEnabled),
      (''tls_skip_verify'', ABool tlsSkipVerify), (''server_name'', AStr serverName)]"

definition line_node ::
  "formats \<Rightarrow> string \<Rightarrow> string \<Rightarrow> string \<Rightarrow> int \<Rightarrow> string \<Rightarrow> string \<Rightarrow> bool \<Rightarrow> bool \<Rightarrow> string \<Rightarrow> string \<Rightarrow> parsedNode" where
  "line_node F source protocol server port username password tlsEnabled tlsSkipVerify serverName tag =
     \<lparr>p_Protocol = protocol, p_Host = server, p_Port = port, p_Username = username, p_Password = password,
      p_TLSEnabled = tlsEnabled, p_TLSSkipVerify = tlsSkipVerify, p_ServerName = serverName, p_Tag = tag,
      p_ExpectedRegion = inferRegion tag,
      p_RawJSON = json_Marshal F (line_json source protocol server port tag tlsEnabled tlsSkipVerify serverName)\<rparr>"

text \<open>User name and password of a line; \<open>None\<close> where a protocol lacks what it needs.\<close>

definition surge_credentials :: "string \<Rightarrow> string list \<Rightarrow> (string \<times> string) option" where
  "surge_credentials protocol parts =
     (if isShadowsocksProtocol protocol then
        (let options = parseKeyValueOptions (drop 3 parts);
             username = firstNonEmpty [opt options ''encrypt-method'', opt options ''method'', opt options ''cipher''];
             password = opt options ''password''
         in if username = [] \<or> password = [] then None else Some (username, password))
      else if isTrojanProtocol protocol then
        (if parts ! 3 = [] then None else Some (parts ! 3, parts ! 3))
      else Some (parts ! 3, parts ! 4))"

definition parseSurgeProxyLine :: "formats \<Rightarrow> string \<Rightarrow> parsedNode option" where
  "parseSurgeProxyLine F line =
     (case cut_at line ''='' of
        None \<Rightarrow> None
      | Some (name, rest) \<Rightarrow>
          (let parts = splitCommaSeparated rest
           in if length parts < 5 then None
              else case normalizeProxyProtocol (parts ! 0) of (protocol, tlsEnabled) \<Rightarrow>
                if protocol = [] then None
                else
                  let server = parts ! 1
                  in case Atoi (parts ! 2) of
                       None \<Rightarrow> None
                     | Some port \<Rightarrow>
                         if server = [] \<or> port \<le> 0 then None
                         else case surge_credentials protocol parts of
                           None \<Rightarrow> None
                         | Some (username, password) \<Rightarrow>
                             (let options = parseKeyValueOptions (drop 4 parts);
                                  serverName = firstNonEmpty [opt options ''sni'', opt options ''peer'',
                                    opt options ''servername'', server];
                                  tlsSkipVerify = EqualFold (opt options ''skip-cert-verify'') ''true'' \<or>
                                    EqualFold (opt options ''allowinsecure'') ''true''
                              in Some (line_node F ''surge'' protocol server port username password
                                   (tlsEnabled \<or> isTrojanProtocol protocol) tlsSkipVerify serverName
                                   (TrimSpace name)))))"

fun surge_lines :: "formats \<Rightarrow> bool \<Rightarrow> string list \<Rightarrow> parsedNode list" where
  "surge_lines F inProxySection [] = []"
| "surge_lines F inProxySection (rawLine # lines) =
     (let line = TrimSpace rawLine
      in if line = [] \<or> HasPrefix line ''#'' then surge_lines F inProxySection lines
         else if HasPrefix line ''['' \<and> HasSuffix line '']''
         then surge_lines F (EqualFold line ''[Proxy]'') lines
         else if \<not> inProxySection then surge_lines F inProxySection lines
         else case parseSurgeProxyLine F line of
           None \<Rightarrow> surge_lines F inProxySection lines
         | Some node \<Rightarrow> node # surge_lines F inProxySection lines)"

definition parseSurgeSubscription :: "formats \<Rightarrow> string \<Rightarrow> error + parsedNode list" where
  "parseSurgeSubscription F body =
     (let nodes = surge_lines F False (FieldsFunc is_newline body)
      in if nodes = [] then Inl (Errorf ''subscription contains no supported surge/surfboard nodes'')
         else Inr nodes)"

section \<open>Quantumult X\<close>

definition quantumultx_credentials ::
  "string \<Rightarrow> (string \<Rightarrow> string option) \<Rightarrow> (string \<times> string) option" where
  "quantumultx_credentials protocol options =
     (if isShadowsocksProtocol protocol then
        (let username = firstNonEmpty [opt options ''encrypt-method'', opt options ''method'', opt options ''cipher''];
             password = opt options ''password''
         in if username = [] \<or> password = [] then None else Some (username, password))
      else if isTrojanProtocol protocol then
        (let password = (if opt options ''password'' = [] then opt options ''secret'' else opt options ''password'')
         in if password = [] then None else Some (opt options ''username'', password))
      else Some (opt options ''username'', opt options ''password''))"

definition parseQuantumultXLine :: "formats \<Rightarrow> string \<Rightarrow> parsedNode option" where
  "parseQuantumultXLine F line =
     (case cut_at line ''='' of
        None \<Rightarrow> None
      | Some (protocolPart, rest) \<Rightarrow>
          (case normalizeProxyProtocol protocolPart of (protocol, secure) \<Rightarrow>
             if protocol = [] then None
             else
               let parts = splitCommaSeparated rest
               in if length parts < 2 then None
                  else case cut_at (TrimSpace (parts ! 0)) '':'' of
                    None \<Rightarrow> None
                  | Some (host, portText) \<Rightarrow>
                      (case Atoi (TrimSpace portText) of
                         None \<Rightarrow> None
                       | Some port \<Rightarrow>
                           if host = [] \<or> port \<le> 0 then None
                           else
                             let options = parseKeyValueOptions (drop 1 parts)
                             in case quantumultx_credentials protocol options of
                                  None \<Rightarrow> None
                                | Some (username, password) \<Rightarrow>
                                    (let given = firstNonEmpty [opt options ''tag'', opt options ''remarks''];
                                         tag = (if given = [] then protocol @ ''://'' @ host_port host port else given);
                                         tlsEnabled = secure \<or> isTrojanProtocol protocol \<or>
                                           EqualFold (opt options ''over-tls'') ''true'';
                                         named = firstNonEmpty [opt options ''tls-host'', opt options ''servername'',
                                           opt options ''sni''];
                                         serverName = (if named = [] \<and> tlsEnabled then host else named);
                                         tlsSkipVerify = EqualFold (opt options ''tls-verification'') ''false'' \<or>
                                           EqualFold (opt options ''skip-cert-verify'') ''true'' \<or>
                                           EqualFold (opt options ''allowinsecure'') ''true''
                                     in Some (line_node F ''quantumultx'' protocol host port username password
                                          tlsEnabled tlsSkipVerify serverName tag)))))"

fun quantumultx_lines :: "formats \<Rightarrow> string list \<Rightarrow> parsedNode list" where
  "quantumultx_lines F [] = []"
| "quantumultx_lines F (rawLine # lines) =
     (let line = TrimSpace rawLine
      in if line = [] \<or> HasPrefix line ''#'' \<or> HasPrefix line '';'' then quantumultx_lines F lines
         else case parseQuantumultXLine F line of
           None \<Rightarrow> quantumultx_lines F lines
         | Some node \<Rightarrow> node # quantumultx_lines F lines)"

definition parseQuantumultXSubscription :: "formats \<Rightarrow> string \<Rightarrow> error + parsedNode list" where
  "parseQuantumultXSubscription F body =
     (let nodes = quantumultx_lines F (FieldsFunc is_newline body)
      in if nodes = [] then Inl (Errorf ''subscription contains no supported quantumultx nodes'')
         else Inr nodes)"

section \<open>Shadowrocket\<close>

definition decodeShadowrocketLine :: "string \<Rightarrow> string option" where
  "decodeShadowrocketLine line =
     (let trimmed = TrimSpace line
      in if trimmed = [] then None
         else if Contains trimmed ''://'' then Some trimmed
         else map_option TrimSpace
           (case DecodeString StdEncoding (padBase64 trimmed) of
              Some d \<Rightarrow> Some d
            | None \<Rightarrow>
                (case DecodeString RawStdEncoding trimmed of
                   Some d \<Rightarrow> Some d
                 | None \<Rightarrow> DecodeString URLEncoding (padBase64 trimmed))))"

definition parseShadowrocketCredentials :: "url \<Rightarrow> string \<times> string" where
  "parseShadowrocketCredentials u =
     (case url_User u of
        None \<Rightarrow> ([], [])
      | Some (user, Some pass) \<Rightarrow> (user, pass)
      | Some (user, None) \<Rightarrow>
          (case (case DecodeString StdEncoding (padBase64 user) of
                   Some d \<Rightarrow> Some d | None \<Rightarrow> DecodeString RawStdEncoding user) of
             None \<Rightarrow> (user, [])
           | Some decoded \<Rightarrow> (case SplitN2 decoded '':'' of [u', p] \<Rightarrow> (u', p) | _ \<Rightarrow> (user, []))))"

text \<open>\<^verbatim>\<open>tag, _ := url.QueryUnescape(strings.TrimSpace(u.Fragment))\<close>\<close>

definition url_tag :: "formats \<Rightarrow> url \<Rightarrow> string" where
  "url_tag F u = or_empty (QueryUnescape F (TrimSpace (url_Fragment u)))"

text \<open>\<^verbatim>\<open>u.User.Username()\<close>, empty without user information.\<close>

definition url_Username :: "url \<Rightarrow> string" where
  "url_Username u = (case url_User u of None \<Rightarrow> [] | Some (user, _) \<Rightarrow> user)"

definition ss_from_url :: "url \<Rightarrow> (string \<times> string \<times> string \<times> string) option" where
  "ss_from_url u =
     (case url_User u of
        Some (user, Some pass) \<Rightarrow> Some (user, pass, url_Hostname u, url_Port u)
      | _ \<Rightarrow>
          (case decodeShadowsocksUserInfo (url_Username u) of
             None \<Rightarrow> None
           | Some (method, password) \<Rightarrow> Some (method, password, url_Hostname u, url_Port u)))"

definition ss_from_payload :: "string \<Rightarrow> (string \<times> string \<times> string \<times> string) option" where
  "ss_from_payload trimmed =
     (let payload = SplitN2 (SplitN2 (TrimPrefix trimmed ''ss://'') ''#'' ! 0) ''?'' ! 0
      in case decodeBase64Text payload of
           None \<Rightarrow> None
         | Some decoded \<Rightarrow>
             (case cut_at decoded ''@'' of
                None \<Rightarrow> None
              | Some (userInfo, address) \<Rightarrow>
                  (case cut_at userInfo '':'' of
                     None \<Rightarrow> None
                   | Some (method, password) \<Rightarrow>
                       (case cut_at address '':'' of
                          None \<Rightarrow> None
                        | Some (host, portText) \<Rightarrow> Some (method, password, host, portText)))))"

definition parseShadowrocketShadowsocksNode :: "formats \<Rightarrow> string \<Rightarrow> parsedNode option" where
  "parseShadowrocketShadowsocksNode F raw =
     (let trimmed = TrimSpace raw
      in case url_Parse F trimmed of
           Inl _ \<Rightarrow> None
         | Inr u \<Rightarrow>
             (let tag = url_tag F u
              in case (if url_Hostname u \<noteq> [] \<and> url_Port u \<noteq> [] then ss_from_url u else ss_from_payload trimmed) of
                   None \<Rightarrow> None
                 | Some (method, password, host, portText) \<Rightarrow>
                     (case Atoi (TrimSpace portText) of
                        None \<Rightarrow> None
                      | Some port \<Rightarrow>
                          if host = [] \<or> port \<le> 0 \<or> method = [] then None
                          else Some \<lparr>p_Protocol = ''ss'', p_Host = TrimSpace host, p_Port = port,
                            p_Username = method, p_Password = password, p_TLSEnabled = False,
                            p_TLSSkipVerify = False, p_ServerName = [], p_Tag = tag,
                            p_ExpectedRegion = inferRegion tag,
                            p_RawJSON = json_Marshal F
                              [(''source_format'', AStr ''shadowrocket''), (''type'', AStr ''ss''),
                               (''server'', AStr host), (''server_port'', AInt port),
                               (''method'', AStr method), (''tag'', AStr tag)]\<rparr>)))"

definition url_insecure :: "url \<Rightarrow> bool" where
  "url_insecure u \<longleftrightarrow>
     EqualFold (url_Get u ''allowInsecure'') ''1'' \<or> EqualFold (url_Get u ''allowInsecure'') ''true'' \<or>
     EqualFold (url_Get u ''insecure'') ''1'' \<or> EqualFold (url_Get u ''insecure'') ''true''"

definition trojan_password :: "url \<Rightarrow> string" where
  "trojan_password u =
     (case url_User u of
        None \<Rightarrow> []
      | Some (user, Some pass) \<Rightarrow> if user = [] then pass else user
      | Some (user, None) \<Rightarrow> user)"

text \<open>Host and port of a share link; \<open>None\<close> unless there is a host and a positive port.\<close>

definition link_address :: "url \<Rightarrow> (string \<times> int) option" where
  "link_address u =
     (let host = TrimSpace (url_Hostname u)
      in case Atoi (TrimSpace (url_Port u)) of
           None \<Rightarrow> None
         | Some port \<Rightarrow> if host = [] \<or> port \<le> 0 then None else Some (host, port))"

definition parseShadowrocketTrojanNode :: "formats \<Rightarrow> string \<Rightarrow> parsedNode option" where
  "parseShadowrocketTrojanNode F raw =
     (case url_Parse F (TrimSpace raw) of
        Inl _ \<Rightarrow> None
      | Inr u \<Rightarrow>
          (case link_address u of
             None \<Rightarrow> None
           | Some (host, port) \<Rightarrow>
               (let password = trojan_password u
                in if password = [] then None
                   else
                     let tag = url_tag F u;
                         serverName = firstNonEmpty [url_Get u ''peer'', url_Get u ''sni'', url_Get u ''servername'', host];
                         tlsSkipVerify = url_insecure u
                     in Some \<lparr>p_Protocol = ''trojan'', p_Host = host, p_Port = port, p_Username = [],
                          p_Password = password, p_TLSEnabled = True, p_TLSSkipVerify = tlsSkipVerify,
                          p_ServerName = serverName, p_Tag = tag, p_ExpectedRegion = inferRegion tag,
                          p_RawJSON = json_Marshal F
                            [(''source_format'', AStr ''shadowrocket''), (''type'', AStr ''trojan''),
                             (''server'', AStr host), (''server_port'', AInt port),
                             (''server_name'', AStr serverName), (''tls_skip_verify'', ABool tlsSkipVerify),
                             (''tag'', AStr tag)]\<rparr>)))"

text \<open>What the gateway can speak: plain TCP, TLS or none, no flow, no encryption.\<close>

definition vless_security :: "url \<Rightarrow> string" where
  "vless_security u = ToLower (TrimSpace (url_Get u ''security''))"

definition vless_supported :: "url \<Rightarrow> bool" where
  "vless_supported u \<longleftrightarrow>
     (let transport = firstNonEmpty [url_Get u ''type'', url_Get u ''transport''];
          encryption = ToLower (TrimSpace (firstNonEmpty [url_Get u ''encryption'', ''none'']))
      in (transport = [] \<or> EqualFold transport ''tcp'') \<and>
         vless_security u \<in> {[], ''tls'', ''none''} \<and>
         TrimSpace (url_Get u ''flow'') = [] \<and> encryption = ''none'')"

definition parseShadowrocketVLESSNode :: "formats \<Rightarrow> string \<Rightarrow> parsedNode option" where
  "parseShadowrocketVLESSNode F raw =
     (case url_Parse F (TrimSpace raw) of
        Inl _ \<Rightarrow> None
      | Inr u \<Rightarrow>
          (case link_address u of
             None \<Rightarrow> None
           | Some (host, port) \<Rightarrow>
               (let uuid = url_Username u
                in if uuid = [] \<or> \<not> vless_supported u then None
                   else
                     let tag = url_tag F u;
                         tlsEnabled = vless_security u = ''tls'' \<or> url_Get u ''sni'' \<noteq> [] \<or> url_Get u ''peer'' \<noteq> [];
                         named = firstNonEmpty [url_Get u ''sni'', url_Get u ''peer'', url_Get u ''servername''];
                         serverName = (if named = [] \<and> tlsEnabled then host else named);
                         tlsSkipVerify = url_insecure u
                     in Some \<lparr>p_Protocol = ''vless'', p_Host = host, p_Port = port, p_Username = uuid,
                          p_Password = [], p_TLSEnabled = tlsEnabled, p_TLSSkipVerify = tlsSkipVerify,
                          p_ServerName = serverName, p_Tag = tag, p_ExpectedRegion = inferRegion tag,
                          p_RawJSON = json_Marshal F
                            [(''source_format'', AStr ''shadowrocket''), (''type'', AStr ''vless''),
                             (''server'', AStr host), (''server_port'', AInt port), (''uuid'', AStr uuid),
                             (''server_name'', AStr serverName), (''tls_enabled'', ABool tlsEnabled),
                             (''tls_skip_verify'', ABool tlsSkipVerify), (''tag'', AStr tag)]\<rparr>)))"

abbreviation str_at :: "item \<Rightarrow> string \<Rightarrow> string" where
  "str_at item k \<equiv> stringValue (item_get item k)"

definition vmess_item_node :: "formats \<Rightarrow> item \<Rightarrow> parsedNode option" where
  "vmess_item_node F item =
     (if \<not> isVMessProtocol (firstNonEmpty [str_at item ''type'', ''vmess'']) then None
      else
        let server = firstNonEmpty [str_at item ''add'', str_at item ''server'', str_at item ''address'']
        in case parsePortValue (item_get item ''port'') of
             None \<Rightarrow> None
           | Some port \<Rightarrow>
               if server = [] \<or> port \<le> 0 then None
               else
                 let network = firstNonEmpty [str_at item ''net'', str_at item ''network'', str_at item ''type'']
                 in if network \<noteq> [] \<and> \<not> EqualFold network ''tcp'' then None
                    else
                      let uuidValue = firstNonEmpty [str_at item ''id'', str_at item ''uuid'']
                      in if uuidValue = [] then None
                         else
                           let tlsEnabled = EqualFold (str_at item ''tls'') ''tls'' \<or> EqualFold (str_at item ''security'') ''tls'';
                               named = firstNonEmpty [str_at item ''sni'', str_at item ''servername'', str_at item ''host''];
                               serverName = (if named = [] \<and> tlsEnabled then server else named);
                               tag = firstNonEmpty [str_at item ''ps'', str_at item ''name'', str_at item ''remark'']
                           in Some \<lparr>p_Protocol = ''vmess'', p_Host = server, p_Port = port, p_Username = uuidValue,
                                p_Password = [], p_TLSEnabled = tlsEnabled, p_TLSSkipVerify = False,
                                p_ServerName = serverName, p_Tag = tag, p_ExpectedRegion = inferRegion tag,
                                p_RawJSON = json_Marshal F item\<rparr>)"

definition parseShadowrocketVMessNode :: "formats \<Rightarrow> string \<Rightarrow> parsedNode option" where
  "parseShadowrocketVMessNode F raw =
     (case decodeBase64Text (TrimSpace (TrimPrefix (TrimSpace raw) ''vmess://'')) of
        None \<Rightarrow> None
      | Some decoded \<Rightarrow> (case json_map F decoded of Inl _ \<Rightarrow> None | Inr item \<Rightarrow> vmess_item_node F item))"

text \<open>HTTP, HTTPS and SOCKS links; \<open>(protocol, tlsEnabled)\<close> is what the scheme says.\<close>

definition plain_link_node :: "formats \<Rightarrow> url \<Rightarrow> string \<Rightarrow> bool \<Rightarrow> parsedNode option" where
  "plain_link_node F u protocol tlsEnabled =
     (case Atoi (url_Port u) of
        None \<Rightarrow> None
      | Some port \<Rightarrow>
          if url_Hostname u = [] \<or> port \<le> 0 then None
          else
            (case parseShadowrocketCredentials u of (username, password) \<Rightarrow>
               let tag = url_tag F u
               in Some \<lparr>p_Protocol = protocol, p_Host = url_Hostname u, p_Port = port, p_Username = username,
                    p_Password = password, p_TLSEnabled = tlsEnabled, p_TLSSkipVerify = False,
                    p_ServerName = url_Hostname u, p_Tag = tag, p_ExpectedRegion = inferRegion tag,
                    p_RawJSON = json_Marshal F
                      [(''source_format'', AStr ''shadowrocket''), (''type'', AStr protocol),
                       (''server'', AStr (url_Hostname u)), (''server_port'', AInt port), (''tag'', AStr tag),
                       (''tls_enabled'', ABool tlsEnabled), (''server_name'', AStr (url_Hostname u))]\<rparr>))"

definition parseShadowrocketNode :: "formats \<Rightarrow> string \<Rightarrow> parsedNode option" where
  "parseShadowrocketNode F raw =
     (case url_Parse F (TrimSpace raw) of
        Inl _ \<Rightarrow> None
      | Inr u \<Rightarrow>
          (let scheme = ToLower (TrimSpace (url_Scheme u))
           in if scheme = ''http'' then plain_link_node F u ''http'' False
              else if scheme = ''https'' then plain_link_node F u ''http'' True
              else if scheme = ''socks'' \<or> scheme = ''socks5'' then plain_link_node F u ''socks'' False
              else if scheme = ''ss'' \<or> scheme = ''shadowsocks'' then parseShadowrocketShadowsocksNode F raw
              else if scheme = ''trojan'' then parseShadowrocketTrojanNode F raw
              else if scheme = ''vless'' then parseShadowrocketVLESSNode F raw
              else if scheme = ''vmess'' then parseShadowrocketVMessNode F raw
              else None))"

definition parseShadowrocketSubscription :: "formats \<Rightarrow> string \<Rightarrow> error + parsedNode list" where
  "parseShadowrocketSubscription F body =
     (let nodes = List.map_filter
            (\<lambda>line. case decodeShadowrocketLine line of None \<Rightarrow> None | Some decoded \<Rightarrow> parseShadowrocketNode F decoded)
            (FieldsFunc is_newline (TrimSpace body))
      in if nodes = [] then Inl (Errorf ''subscription contains no supported shadowrocket nodes'')
         else Inr nodes)"

section \<open>Clash and Mihomo\<close>

text \<open>User name and password by protocol; \<open>None\<close> where the transport is not supported.\<close>

definition clash_credentials :: "item \<Rightarrow> string \<Rightarrow> (string \<times> string) option" where
  "clash_credentials item protocol =
     (let username = (if isShadowsocksProtocol protocol
            then firstNonEmpty [str_at item ''cipher'', str_at item ''method''] else str_at item ''username'');
          network = firstNonEmpty [str_at item ''network'', str_at item ''type'']
      in if isVLESSProtocol protocol then
           (if network \<noteq> [] \<and> \<not> EqualFold network ''tcp'' \<and> \<not> EqualFold network ''raw'' then None
            else if str_at item ''flow'' \<noteq> [] then None
            else Some (str_at item ''uuid'', []))
         else if isVMessProtocol protocol then
           (if network \<noteq> [] \<and> \<not> EqualFold network ''tcp'' then None else Some (str_at item ''uuid'', []))
         else Some (username, str_at item ''password''))"

definition clash_server_name :: "item \<Rightarrow> string \<Rightarrow> string" where
  "clash_server_name item protocol =
     (let named = (if str_at item ''servername'' = [] then str_at item ''sni'' else str_at item ''servername'')
      in if named = [] \<and> (boolValue (item_get item ''tls'') \<or> isTrojanProtocol protocol)
         then str_at item ''server'' else named)"

definition clash_node :: "formats \<Rightarrow> item \<Rightarrow> parsedNode option" where
  "clash_node F item =
     (let protocol = str_at item ''type''
      in if \<not> isSupportedOutboundProtocol protocol then None
         else
           let server = str_at item ''server''
           in case parsePortValue (item_get item ''port'') of
                None \<Rightarrow> None
              | Some port \<Rightarrow>
                  if server = [] \<or> port \<le> 0 then None
                  else case clash_credentials item protocol of
                    None \<Rightarrow> None
                  | Some (username, password) \<Rightarrow>
                      (let tag = str_at item ''name''
                       in Some \<lparr>p_Protocol = protocol, p_Host = server, p_Port = port, p_Username = username,
                            p_Password = password,
                            p_TLSEnabled = boolValue (item_get item ''tls'') \<or> isTrojanProtocol protocol,
                            p_TLSSkipVerify = boolValue (item_get item ''skip-cert-verify'') \<or>
                              boolValue (item_get item ''insecure''),
                            p_ServerName = clash_server_name item protocol, p_Tag = tag,
                            p_ExpectedRegion = inferRegion tag, p_RawJSON = json_Marshal F item\<rparr>))"

definition parseClashSubscription :: "formats \<Rightarrow> string \<Rightarrow> error + parsedNode list" where
  "parseClashSubscription F body =
     (case yaml_proxies F body of
        Inl err \<Rightarrow> Inl err
      | Inr proxies \<Rightarrow>
          (let nodes = List.map_filter (clash_node F) proxies
           in if nodes = [] then Inl (Errorf ''subscription contains no supported clash/mihomo nodes'')
              else Inr nodes))"

section \<open>Sing-box\<close>

fun floatValue :: "any \<Rightarrow> rat" where
  "floatValue (AFloat f) = f"
| "floatValue _ = 0"

fun mapValue :: "any \<Rightarrow> item" where
  "mapValue (AMap m) = m"
| "mapValue _ = []"

definition singbox_credentials :: "item \<Rightarrow> string \<Rightarrow> (string \<times> string) option" where
  "singbox_credentials item protocol =
     (if isVLESSProtocol protocol then
        (if item_get item ''transport'' \<noteq> ANil then None else Some (str_at item ''uuid'', []))
      else if isVMessProtocol protocol then
        (let network = str_at item ''transport''
         in if network \<noteq> [] \<and> \<not> EqualFold network ''tcp'' then None else Some (str_at item ''uuid'', []))
      else if isShadowsocksProtocol protocol then Some (str_at item ''method'', str_at item ''password'')
      else Some (str_at item ''username'', str_at item ''password''))"

definition singbox_node :: "formats \<Rightarrow> item \<Rightarrow> parsedNode option" where
  "singbox_node F item =
     (let protocol = str_at item ''type''; server = str_at item ''server'';
          port = floatValue (item_get item ''server_port''); tag = str_at item ''tag'';
          tls = mapValue (item_get item ''tls'')
      in if \<not> isSupportedOutboundProtocol protocol then None
         else if server = [] \<or> port = 0 then None
         else if tag = ''selector'' \<or> tag = ''urltest'' \<or> tag = ''direct'' then None
         else case singbox_credentials item protocol of
           None \<Rightarrow> None
         | Some (username, password) \<Rightarrow>
             Some \<lparr>p_Protocol = protocol, p_Host = server, p_Port = int_of_float port, p_Username = username,
               p_Password = password,
               p_TLSEnabled = boolValue (item_get tls ''enabled'') \<or> isTrojanProtocol protocol,
               p_TLSSkipVerify = boolValue (item_get tls ''insecure''),
               p_ServerName = str_at tls ''server_name'', p_Tag = tag,
               p_ExpectedRegion = inferRegion tag, p_RawJSON = json_Marshal F item\<rparr>)"

definition parseSingboxSubscription :: "formats \<Rightarrow> string \<Rightarrow> error + parsedNode list" where
  "parseSingboxSubscription F body =
     (case json_outbounds F body of
        Inl err \<Rightarrow> Inl err
      | Inr outbounds \<Rightarrow> Inr (List.map_filter (singbox_node F) outbounds))"

section \<open>By the type of the subscription\<close>

definition parseSubscriptionBody :: "formats \<Rightarrow> string \<Rightarrow> string \<Rightarrow> error + parsedNode list" where
  "parseSubscriptionBody F subType body =
     (let t = ToLower (TrimSpace subType)
      in if t = ''singbox'' then parseSingboxSubscription F body
         else if t = ''shadowrocket'' then parseShadowrocketSubscription F body
         else if t = ''clash'' \<or> t = ''mihomo'' then parseClashSubscription F body
         else if t = ''surge'' \<or> t = ''surfboard'' then parseSurgeSubscription F body
         else if t = ''quantumultx'' then parseQuantumultXSubscription F body
         else if t = ''manual'' then ParseManualProxyList F body ''http''
         else Inl (Errorf (''unsupported subscription type: '' @ subType)))"

end
