(* ===== verification/Retry.thy ===== *)
theory Retry
  imports World
begin

text \<open>
  Package \<^verbatim>\<open>retry\<close> (\<^verbatim>\<open>internal/retry/retry.go\<close>).  A context is the pair of what the code asks
  of it: its error, and the \<^verbatim>\<open>select\<close> between its end and a timer (\<open>None\<close>: the timer fired).
  The loop counts down the attempts left.
\<close>

record 's go_context =
  ctx_Err :: "('s, error option) state"
  ctx_wait :: "duration \<Rightarrow> ('s, error option) state"

record retry_Config =
  MaxAttempts :: int
  BaseBackoff :: duration

definition DefaultConfig :: retry_Config where
  "DefaultConfig = \<lparr>MaxAttempts = 3, BaseBackoff = 500 * 1000000\<rparr>"

text \<open>The error a \<^verbatim>\<open>StopError\<close> carries; \<open>None\<close>: the error is not one.\<close>

fun AsStop :: "error \<Rightarrow> error option option" where
  "AsStop (StopError e) = Some e"
| "AsStop _ = None"

primrec attempts ::
  "'s go_context \<Rightarrow> nat \<Rightarrow> duration \<Rightarrow> ('s, error option) state \<Rightarrow> nat \<Rightarrow> error option \<Rightarrow> ('s, error option) state" where
  "attempts ctx maxi base fn 0 lastErr = State_Monad.return lastErr"
| "attempts ctx maxi base fn (Suc left) lastErr = do {
     cerr \<leftarrow> ctx_Err ctx;
     case cerr of
       Some err \<Rightarrow> State_Monad.return (Some err)
     | None \<Rightarrow> do {
         r \<leftarrow> fn;
         case r of
           None \<Rightarrow> State_Monad.return None
         | Some err \<Rightarrow>
             (case AsStop err of
                Some stopErr \<Rightarrow> State_Monad.return stopErr
              | None \<Rightarrow>
                  if left = 0 then State_Monad.return (Some err)
                  else do {
                    done \<leftarrow> ctx_wait ctx (wrap64 (base * int (maxi - left)));
                    case done of
                      Some err' \<Rightarrow> State_Monad.return (Some err')
                    | None \<Rightarrow> attempts ctx maxi base fn left (Some err)
                  })
       }
   }"

definition Do_retry :: "'s go_context \<Rightarrow> retry_Config \<Rightarrow> ('s, error option) state \<Rightarrow> ('s, error option) state" where
  "Do_retry ctx cfg fn =
     (let n = (if MaxAttempts cfg \<le> 0 then 1 else MaxAttempts cfg);
          base = (if BaseBackoff cfg \<le> 0 then 100 * 1000000 else BaseBackoff cfg)
      in attempts ctx (nat n) base fn (nat n) None)"

section \<open>What the function keeps\<close>

lemma attempts_keeps:
  assumes "keeps obs (ctx_Err ctx)" and "\<And>d. keeps obs (ctx_wait ctx d)" and "keeps obs fn"
  shows "keeps obs (attempts ctx maxi base fn n e)"
  by (induction n arbitrary: e) (auto intro!: keeps_bind assms split: option.splits)

lemma Do_retry_keeps:
  assumes "keeps obs (ctx_Err ctx)" and "\<And>d. keeps obs (ctx_wait ctx d)" and "keeps obs fn"
  shows "keeps obs (Do_retry ctx cfg fn)"
  unfolding Do_retry_def Let_def by (rule attempts_keeps [OF assms])

section \<open>How often the function is called and what is returned\<close>

text \<open>The calls a run makes are counted by \<open>calls\<close>, an observation of the state.\<close>

definition counts_calls :: "('s \<Rightarrow> nat) \<Rightarrow> 's go_context \<Rightarrow> ('s, error option) state \<Rightarrow> bool" where
  "counts_calls calls ctx fn \<longleftrightarrow>
     (\<forall>s. wp (ctx_Err ctx) (\<lambda>_ s'. calls s' = calls s) s) \<and>
     (\<forall>d s. wp (ctx_wait ctx d) (\<lambda>_ s'. calls s' = calls s) s) \<and>
     (\<forall>s. wp fn (\<lambda>_ s'. calls s' = Suc (calls s)) s)"

lemma attempts_bounded:
  assumes "counts_calls calls ctx fn"
  shows "wp (attempts ctx maxi base fn n e) (\<lambda>_ s'. calls s \<le> calls s' \<and> calls s' \<le> calls s + n) s"
proof (induction n arbitrary: e s)
  case (Suc n)
  have step: "wp (attempts ctx maxi base fn n e') (\<lambda>_ s'. calls s \<le> calls s' \<and> calls s' \<le> calls s + Suc n) s1"
    if "calls s1 = Suc (calls s)" for s1 e'
    by (rule wp_mono [OF Suc.IH]) (use that in auto)
  have c: "wp (ctx_Err ctx) (\<lambda>_ s'. calls s' = calls s) s"
    and w: "wp (ctx_wait ctx d) (\<lambda>_ s'. calls s' = calls s) s"
    and f: "wp fn (\<lambda>_ s'. calls s' = Suc (calls s)) s" for s d
    using assms by (simp_all add: counts_calls_def)
  show ?case
    unfolding attempts.simps wp_bind
  proof (rule wp_mono [OF c])
    fix cerr s1 assume s1: "calls s1 = calls s"
    show "wp (case cerr of Some err \<Rightarrow> State_Monad.return (Some err)
        | None \<Rightarrow> fn \<bind> (\<lambda>r. case r of None \<Rightarrow> State_Monad.return None
           | Some err \<Rightarrow> (case AsStop err of Some stopErr \<Rightarrow> State_Monad.return stopErr
             | None \<Rightarrow> if n = 0 then State_Monad.return (Some err)
                 else ctx_wait ctx (wrap64 (base * int (maxi - n))) \<bind> (\<lambda>done. case done of
                     Some err' \<Rightarrow> State_Monad.return (Some err')
                   | None \<Rightarrow> attempts ctx maxi base fn n (Some err)))))
        (\<lambda>_ s'. calls s \<le> calls s' \<and> calls s' \<le> calls s + Suc n) s1"
      using s1 by (auto split: option.splits intro!: wp_mono [OF f] wp_mono [OF w] step [simplified])
  qed
qed simp

text \<open>
  Whatever the function returns and whenever the context ends, Do calls the function at most
  MaxAttempts times (once if that is not positive), and returns.
\<close>

theorem Do_retry_bounded:
  assumes "counts_calls calls ctx fn"
  shows "wp (Do_retry ctx cfg fn) (\<lambda>_ s'. calls s' \<le> calls s + nat (max 1 (MaxAttempts cfg))) s"
  unfolding Do_retry_def Let_def
  by (rule wp_mono [OF attempts_bounded [OF assms]]) (simp split: if_splits)

definition never_done :: "'s go_context" where
  "never_done = \<lparr>ctx_Err = State_Monad.return None, ctx_wait = (\<lambda>_. State_Monad.return None)\<rparr>"

text \<open>A function whose answers are given by a sequence; the state counts its calls.\<close>

definition scripted :: "(nat \<Rightarrow> error option) \<Rightarrow> (nat, error option) state" where
  "scripted f = State (\<lambda>k. (f k, Suc k))"

theorem Do_retry_bounded_witness:
  "wp (Do_retry never_done DefaultConfig (scripted (\<lambda>_. Some (Errorf ''refused'')))) (\<lambda>_ k. k \<le> 3) 0"
  using Do_retry_bounded [of "\<lambda>k. k" never_done "scripted (\<lambda>_. Some (Errorf ''refused''))" DefaultConfig 0]
  by (simp add: counts_calls_def never_done_def scripted_def wp_def DefaultConfig_def)

definition final :: "error option \<Rightarrow> bool" where
  "final r \<longleftrightarrow> (case r of None \<Rightarrow> True | Some err \<Rightarrow> AsStop err \<noteq> None)"

definition outcome :: "error option \<Rightarrow> error option" where
  "outcome r = (case r of None \<Rightarrow> None | Some err \<Rightarrow> (case AsStop err of None \<Rightarrow> Some err | Some e \<Rightarrow> e))"

lemma attempts_scripted:
  "wp (attempts never_done maxi base (scripted f) (Suc n) e) (\<lambda>r k'. \<exists>j \<le> n. k' = Suc (k + j) \<and> r = outcome (f (k + j)) \<and>
     (j = n \<or> final (f (k + j))) \<and> (\<forall>i < j. \<not> final (f (k + i)))) k"
proof (induction n arbitrary: e k)
  case 0
  then show ?case
    by (auto simp: never_done_def scripted_def wp_def outcome_def split: option.splits)
next
  case (Suc n)
  show ?case
  proof (cases "final (f k)")
    case True
    then have "wp (attempts never_done maxi base (scripted f) (Suc (Suc n)) e) (\<lambda>r k'. k' = Suc k \<and> r = outcome (f k)) k"
      by (auto simp: never_done_def scripted_def wp_def outcome_def final_def split: option.splits)
    then show ?thesis by (rule wp_mono) (use True in \<open>auto intro!: exI [of _ 0]\<close>)
  next
    case False
    then obtain err where err: "f k = Some err" "AsStop err = None" by (auto simp: final_def split: option.splits)
    have "wp (attempts never_done maxi base (scripted f) (Suc (Suc n)) e) Q k =
        wp (attempts never_done maxi base (scripted f) (Suc n) (Some err)) Q (Suc k)" for Q
      by (subst attempts.simps(2)) (simp add: never_done_def scripted_def wp_def err)
    moreover have "wp (attempts never_done maxi base (scripted f) (Suc n) (Some err))
        (\<lambda>r k'. \<exists>j \<le> Suc n. k' = Suc (k + j) \<and> r = outcome (f (k + j)) \<and>
          (j = Suc n \<or> final (f (k + j))) \<and> (\<forall>i < j. \<not> final (f (k + i)))) (Suc k)"
    proof (rule wp_mono [OF Suc.IH])
      fix r k'
      assume "\<exists>j \<le> n. k' = Suc (Suc k + j) \<and> r = outcome (f (Suc k + j)) \<and>
          (j = n \<or> final (f (Suc k + j))) \<and> (\<forall>i < j. \<not> final (f (Suc k + i)))"
      then obtain j where j: "j \<le> n" "k' = Suc (Suc k + j)" "r = outcome (f (Suc k + j))"
        "j = n \<or> final (f (Suc k + j))" "\<forall>i < j. \<not> final (f (Suc k + i))" by blast
      have "\<not> final (f (k + i))" if "i < Suc j" for i
        using that j(5) False by (cases i) auto
      then show "\<exists>j \<le> Suc n. k' = Suc (k + j) \<and> r = outcome (f (k + j)) \<and>
          (j = Suc n \<or> final (f (k + j))) \<and> (\<forall>i < j. \<not> final (f (k + i)))"
        using j by (intro exI [of _ "Suc j"]) auto
    qed
    ultimately show ?thesis by simp
  qed
qed

text \<open>
  C36: When the context does not end, Do calls the function until it succeeds, stops or has been
  called MaxAttempts times, and returns the outcome of the last call: nothing for a success, the
  wrapped error for a StopError, the error itself for the last attempt.
\<close>

theorem Do_retry_outcome:
  "wp (Do_retry never_done cfg (scripted f)) (\<lambda>r k. \<exists>j. int j < max 1 (MaxAttempts cfg) \<and> k = Suc j \<and>
     r = outcome (f j) \<and> (int (Suc j) = max 1 (MaxAttempts cfg) \<or> final (f j)) \<and> (\<forall>i < j. \<not> final (f i))) 0"
proof -
  let ?n = "nat (if MaxAttempts cfg \<le> 0 then 1 else MaxAttempts cfg)"
  obtain m where m: "?n = Suc m" by (cases ?n) (auto split: if_splits)
  show ?thesis
    unfolding Do_retry_def Let_def m
    by (rule wp_mono [OF attempts_scripted]) (use m in \<open>auto split: if_splits\<close>)
qed

theorem Do_retry_outcome_witness:
  "wp (Do_retry never_done DefaultConfig (scripted (\<lambda>i. if i = 0 then Some (Errorf ''refused'') else None)))
     (\<lambda>r k. r = None) 0"
  by (rule wp_mono [OF Do_retry_outcome])
    (auto simp: DefaultConfig_def final_def outcome_def split: if_splits)

end
