(* ===== verification/Metrics.thy ===== *)
theory Metrics
  imports GoLib
begin

text \<open>
  Package \<^verbatim>\<open>metrics\<close> (\<^verbatim>\<open>internal/metrics/metrics.go\<close>): the counters of the registry, 64-bit atomics
  that wrap, and the text the handler writes.
\<close>

record Registry =
  adminLoginsTotal :: int
  proxyRequestsTotal :: int
  proxyConnectRequestsTotal :: int
  proxyAuthFailuresTotal :: int
  proxySelectionFailuresTotal :: int
  proxyUpstreamFailuresTotal :: int
  activeTunnels :: int
  healthcheckSuccessTotal :: int
  healthcheckFailureTotal :: int
  subscriptionSyncTotal :: int
  subscriptionSyncFailureTotal :: int

definition New_registry :: Registry where
  "New_registry = \<lparr>adminLoginsTotal = 0, proxyRequestsTotal = 0, proxyConnectRequestsTotal = 0, proxyAuthFailuresTotal = 0,
     proxySelectionFailuresTotal = 0, proxyUpstreamFailuresTotal = 0, activeTunnels = 0, healthcheckSuccessTotal = 0,
     healthcheckFailureTotal = 0, subscriptionSyncTotal = 0, subscriptionSyncFailureTotal = 0\<rparr>"

definition IncAdminLogins :: "Registry \<Rightarrow> Registry" where
  "IncAdminLogins r = r\<lparr>adminLoginsTotal := wrap64 (adminLoginsTotal r + 1)\<rparr>"

definition IncProxyRequests :: "Registry \<Rightarrow> Registry" where
  "IncProxyRequests r = r\<lparr>proxyRequestsTotal := wrap64 (proxyRequestsTotal r + 1)\<rparr>"

definition IncProxyConnectRequests :: "Registry \<Rightarrow> Registry" where
  "IncProxyConnectRequests r = r\<lparr>proxyConnectRequestsTotal := wrap64 (proxyConnectRequestsTotal r + 1)\<rparr>"

definition IncProxyAuthFailures :: "Registry \<Rightarrow> Registry" where
  "IncProxyAuthFailures r = r\<lparr>proxyAuthFailuresTotal := wrap64 (proxyAuthFailuresTotal r + 1)\<rparr>"

definition IncProxySelectionFailures :: "Registry \<Rightarrow> Registry" where
  "IncProxySelectionFailures r = r\<lparr>proxySelectionFailuresTotal := wrap64 (proxySelectionFailuresTotal r + 1)\<rparr>"

definition IncProxyUpstreamFailures :: "Registry \<Rightarrow> Registry" where
  "IncProxyUpstreamFailures r = r\<lparr>proxyUpstreamFailuresTotal := wrap64 (proxyUpstreamFailuresTotal r + 1)\<rparr>"

definition IncActiveTunnels :: "Registry \<Rightarrow> Registry" where
  "IncActiveTunnels r = r\<lparr>activeTunnels := wrap64 (activeTunnels r + 1)\<rparr>"

definition IncHealthcheckSuccess :: "Registry \<Rightarrow> Registry" where
  "IncHealthcheckSuccess r = r\<lparr>healthcheckSuccessTotal := wrap64 (healthcheckSuccessTotal r + 1)\<rparr>"

definition IncHealthcheckFailure :: "Registry \<Rightarrow> Registry" where
  "IncHealthcheckFailure r = r\<lparr>healthcheckFailureTotal := wrap64 (healthcheckFailureTotal r + 1)\<rparr>"

definition IncSubscriptionSync :: "Registry \<Rightarrow> Registry" where
  "IncSubscriptionSync r = r\<lparr>subscriptionSyncTotal := wrap64 (subscriptionSyncTotal r + 1)\<rparr>"

definition IncSubscriptionSyncFailure :: "Registry \<Rightarrow> Registry" where
  "IncSubscriptionSyncFailure r = r\<lparr>subscriptionSyncFailureTotal := wrap64 (subscriptionSyncFailureTotal r + 1)\<rparr>"

definition DecActiveTunnels :: "Registry \<Rightarrow> Registry" where
  "DecActiveTunnels r = r\<lparr>activeTunnels := wrap64 (activeTunnels r - 1)\<rparr>"

text \<open>Snapshot copies the counters; the handler prints one line per counter.\<close>

definition Snapshot :: "Registry \<Rightarrow> (string \<times> int) list" where
  "Snapshot r = [
     (''proxydeck_admin_logins_total'', adminLoginsTotal r),
     (''proxydeck_proxy_requests_total'', proxyRequestsTotal r),
     (''proxydeck_proxy_connect_requests_total'', proxyConnectRequestsTotal r),
     (''proxydeck_proxy_auth_failures_total'', proxyAuthFailuresTotal r),
     (''proxydeck_proxy_selection_failures_total'', proxySelectionFailuresTotal r),
     (''proxydeck_proxy_upstream_failures_total'', proxyUpstreamFailuresTotal r),
     (''proxydeck_active_tunnels'', activeTunnels r),
     (''proxydeck_healthcheck_success_total'', healthcheckSuccessTotal r),
     (''proxydeck_healthcheck_failure_total'', healthcheckFailureTotal r),
     (''proxydeck_subscription_sync_total'', subscriptionSyncTotal r),
     (''proxydeck_subscription_sync_failure_total'', subscriptionSyncFailureTotal r)]"

definition Handler :: "Registry \<Rightarrow> string" where
  "Handler r = concat (map (\<lambda>(name, n). name @ '' '' @ Itoa n @ [CHR 0x0A]) (Snapshot r))"

lemma IncDecActiveTunnels: "int64_range (activeTunnels r) \<Longrightarrow> DecActiveTunnels (IncActiveTunnels r) = r"
  using wrap64_add [of "activeTunnels r + 1" "- 1"]
  by (cases r) (simp add: DecActiveTunnels_def IncActiveTunnels_def)

end
