(* ===== verification/Config.thy ===== *)
theory Config
  imports Model
begin

text \<open>
  Package \<^verbatim>\<open>config\<close> (\<^verbatim>\<open>internal/config/config.go\<close>): the settings, their defaults, the overrides
  from the environment and the checks.  The nested structs are one record.  Reading the file and
  YAML are parameters: \<open>ReadFile\<close> and \<open>yaml_Unmarshal\<close>, which writes the fields the text has over
  those of the record it is given; \<open>getenv\<close> is the environment, empty where a variable is unset.
\<close>

record Config =
  cfg_ProxyListen :: string
  cfg_AdminListen :: string
  cfg_ProxyDialTimeoutSec :: int
  cfg_ProxyIdleTimeoutSec :: int
  cfg_ProxyRespTimeoutSec :: int
  cfg_ProxyConnectTimeoutS :: int
  cfg_SQLitePath :: string
  cfg_RedisAddr :: string
  cfg_RedisPassword :: string
  cfg_RedisDB :: int
  cfg_IntervalSeconds :: int
  cfg_TimeoutSeconds :: int
  cfg_MaxFailCount :: int
  cfg_RetryMaxAttempts :: int
  cfg_BaseBackoffMS :: int
  cfg_StickyTTLSeconds :: int
  cfg_EncryptionKey :: string
  cfg_SessionTTLSeconds :: int
  cfg_AdminUsername :: string
  cfg_AdminPassword :: string

definition Default :: Config where
  "Default = \<lparr>
     cfg_ProxyListen = ''0.0.0.0:20000'',
     cfg_AdminListen = ''0.0.0.0:8080'',
     cfg_ProxyDialTimeoutSec = 10,
     cfg_ProxyIdleTimeoutSec = 90,
     cfg_ProxyRespTimeoutSec = 15,
     cfg_ProxyConnectTimeoutS = 15,
     cfg_SQLitePath = ''./data/app.db'',
     cfg_RedisAddr = ''127.0.0.1:6379'',
     cfg_RedisPassword = [],
     cfg_RedisDB = 0,
     cfg_IntervalSeconds = 300,
     cfg_TimeoutSeconds = 10,
     cfg_MaxFailCount = 3,
     cfg_RetryMaxAttempts = 3,
     cfg_BaseBackoffMS = 500,
     cfg_StickyTTLSeconds = 3600,
     cfg_EncryptionKey = ''change-this-with-a-strong-random-secret'',
     cfg_SessionTTLSeconds = 86400,
     cfg_AdminUsername = ''admin'',
     cfg_AdminPassword = ''change-this-before-first-run''\<rparr>"

definition applyString :: "(string \<Rightarrow> string) \<Rightarrow> string \<Rightarrow> string \<Rightarrow> string" where
  "applyString getenv target key = (if getenv key \<noteq> [] then getenv key else target)"

definition applyInt :: "(string \<Rightarrow> string) \<Rightarrow> int \<Rightarrow> string \<Rightarrow> int" where
  "applyInt getenv target key =
     (if getenv key = [] then target
      else case Atoi (getenv key) of Some parsed \<Rightarrow> parsed | None \<Rightarrow> target)"

definition applyEnvOverrides :: "(string \<Rightarrow> string) \<Rightarrow> Config \<Rightarrow> Config" where
  "applyEnvOverrides getenv cfg = \<lparr>
     cfg_ProxyListen = applyString getenv (cfg_ProxyListen cfg) ''PROXYDECK_PROXY_LISTEN'',
     cfg_AdminListen = applyString getenv (cfg_AdminListen cfg) ''PROXYDECK_ADMIN_LISTEN'',
     cfg_ProxyDialTimeoutSec = applyInt getenv (cfg_ProxyDialTimeoutSec cfg) ''PROXYDECK_PROXY_DIAL_TIMEOUT_SECONDS'',
     cfg_ProxyIdleTimeoutSec = applyInt getenv (cfg_ProxyIdleTimeoutSec cfg) ''PROXYDECK_PROXY_IDLE_TIMEOUT_SECONDS'',
     cfg_ProxyRespTimeoutSec = applyInt getenv (cfg_ProxyRespTimeoutSec cfg) ''PROXYDECK_PROXY_RESPONSE_HEADER_TIMEOUT_SECONDS'',
     cfg_ProxyConnectTimeoutS = applyInt getenv (cfg_ProxyConnectTimeoutS cfg) ''PROXYDECK_PROXY_CONNECT_TIMEOUT_SECONDS'',
     cfg_SQLitePath = applyString getenv (cfg_SQLitePath cfg) ''PROXYDECK_SQLITE_PATH'',
     cfg_RedisAddr = applyString getenv (cfg_RedisAddr cfg) ''PROXYDECK_REDIS_ADDR'',
     cfg_RedisPassword = applyString getenv (cfg_RedisPassword cfg) ''PROXYDECK_REDIS_PASSWORD'',
     cfg_RedisDB = applyInt getenv (cfg_RedisDB cfg) ''PROXYDECK_REDIS_DB'',
     cfg_IntervalSeconds = applyInt getenv (cfg_IntervalSeconds cfg) ''PROXYDECK_HEALTHCHECK_INTERVAL_SECONDS'',
     cfg_TimeoutSeconds = applyInt getenv (cfg_TimeoutSeconds cfg) ''PROXYDECK_HEALTHCHECK_TIMEOUT_SECONDS'',
     cfg_MaxFailCount = applyInt getenv (cfg_MaxFailCount cfg) ''PROXYDECK_HEALTHCHECK_MAX_FAIL_COUNT'',
     cfg_RetryMaxAttempts = applyInt getenv (cfg_RetryMaxAttempts cfg) ''PROXYDECK_RETRY_MAX_ATTEMPTS'',
     cfg_BaseBackoffMS = applyInt getenv (cfg_BaseBackoffMS cfg) ''PROXYDECK_RETRY_BASE_BACKOFF_MS'',
     cfg_StickyTTLSeconds = applyInt getenv (cfg_StickyTTLSeconds cfg) ''PROXYDECK_STICKY_TTL_SECONDS'',
     cfg_EncryptionKey = applyString getenv (cfg_EncryptionKey cfg) ''PROXYDECK_SECURITY_ENCRYPTION_KEY'',
     cfg_SessionTTLSeconds = applyInt getenv (cfg_SessionTTLSeconds cfg) ''PROXYDECK_SESSION_TTL_SECONDS'',
     cfg_AdminUsername = applyString getenv (cfg_AdminUsername cfg) ''PROXYDECK_ADMIN_USERNAME'',
     cfg_AdminPassword = applyString getenv (cfg_AdminPassword cfg) ''PROXYDECK_ADMIN_PASSWORD''\<rparr>"

definition insecureEncryptionKey :: "string \<Rightarrow> bool" where
  "insecureEncryptionKey value \<longleftrightarrow> TrimSpace value \<in>
     {''change-this-with-a-strong-random-secret'', ''replace-this-with-a-strong-32-byte-key'',
      ''change-me-32-bytes-secret-key!!''}"

definition insecureAdminPassword :: "string \<Rightarrow> bool" where
  "insecureAdminPassword value \<longleftrightarrow> TrimSpace value \<in> {''admin123456'', ''change-this-before-first-run''}"

definition Validate :: "Config \<Rightarrow> error option" where
  "Validate c =
     (if TrimSpace (cfg_EncryptionKey c) = [] then Some (Errorf ''security.encryption_key is required'')
      else if insecureEncryptionKey (cfg_EncryptionKey c)
      then Some (Errorf ''security.encryption_key uses a sample placeholder; set PROXYDECK_SECURITY_ENCRYPTION_KEY or update the config file'')
      else if TrimSpace (cfg_AdminUsername c) = [] then Some (Errorf ''admin.username is required'')
      else if TrimSpace (cfg_AdminPassword c) = [] then Some (Errorf ''admin.password is required'')
      else if insecureAdminPassword (cfg_AdminPassword c)
      then Some (Errorf ''admin.password uses a sample placeholder; set PROXYDECK_ADMIN_PASSWORD or update the config file'')
      else None)"

definition Load ::
  "(string \<Rightarrow> error + string) \<Rightarrow> (string \<Rightarrow> Config \<Rightarrow> error + Config) \<Rightarrow> (string \<Rightarrow> string) \<Rightarrow> string \<Rightarrow> error + Config" where
  "Load ReadFile yaml_Unmarshal getenv path =
     (case ReadFile path of
        Inl err \<Rightarrow> Inl err
      | Inr raw \<Rightarrow>
          (case yaml_Unmarshal raw Default of
             Inl err \<Rightarrow> Inl err
           | Inr cfg \<Rightarrow>
               (let cfg = applyEnvOverrides getenv cfg
                in case Validate cfg of Some err \<Rightarrow> Inl err | None \<Rightarrow> Inr cfg)))"

section \<open>Durations\<close>

definition seconds :: "int \<Rightarrow> duration" where
  "seconds n = wrap64 (n * 1000000000)"

definition StickyTTL :: "Config \<Rightarrow> duration" where
  "StickyTTL c = seconds (cfg_StickyTTLSeconds c)"

definition HealthcheckInterval :: "Config \<Rightarrow> duration" where
  "HealthcheckInterval c = seconds (cfg_IntervalSeconds c)"

definition HealthcheckTimeout :: "Config \<Rightarrow> duration" where
  "HealthcheckTimeout c = seconds (cfg_TimeoutSeconds c)"

definition SessionTTL :: "Config \<Rightarrow> duration" where
  "SessionTTL c = seconds (cfg_SessionTTLSeconds c)"

definition ProxyDialTimeout :: "Config \<Rightarrow> duration" where
  "ProxyDialTimeout c = seconds (cfg_ProxyDialTimeoutSec c)"

definition ProxyIdleTimeout :: "Config \<Rightarrow> duration" where
  "ProxyIdleTimeout c = seconds (cfg_ProxyIdleTimeoutSec c)"

definition ProxyResponseHeaderTimeout :: "Config \<Rightarrow> duration" where
  "ProxyResponseHeaderTimeout c = seconds (cfg_ProxyRespTimeoutSec c)"

definition ProxyConnectTimeout :: "Config \<Rightarrow> duration" where
  "ProxyConnectTimeout c = seconds (cfg_ProxyConnectTimeoutS c)"

definition RetryBaseBackoff :: "Config \<Rightarrow> duration" where
  "RetryBaseBackoff c = wrap64 (cfg_BaseBackoffMS c * 1000000)"

section \<open>Properties\<close>


definition sample_env :: "string \<Rightarrow> string" where
  "sample_env key =
     (if key = ''PROXYDECK_SECURITY_ENCRYPTION_KEY'' then ''k''
      else if key = ''PROXYDECK_ADMIN_PASSWORD'' then ''p'' else [])"

lemma sample_env_simps:
  "sample_env ''PROXYDECK_SECURITY_ENCRYPTION_KEY'' = ''k''" "sample_env ''PROXYDECK_ADMIN_PASSWORD'' = ''p''"
  "sample_env ''PROXYDECK_ADMIN_USERNAME'' = []"
  by (simp_all add: sample_env_def)

definition sample_config :: Config where
  "sample_config = applyEnvOverrides sample_env Default"

lemma sample_config_fields:
  "cfg_EncryptionKey sample_config = ''k''" "cfg_AdminPassword sample_config = ''p''"
  "cfg_AdminUsername sample_config = ''admin''"
  unfolding sample_config_def
  by (simp_all only: applyEnvOverrides_def Config.simps applyString_def sample_env_simps)
    (simp_all add: Default_def)

lemma sample_config_loads:
  "Load (\<lambda>_. Inr []) (\<lambda>_ cfg. Inr cfg) sample_env ''config.yaml'' = Inr sample_config"
proof -
  have "plain ''k''" "plain ''p''" "plain ''admin''" by (simp_all add: plain_char_def byte_of_def)
  then have "Validate sample_config = None"
    by (simp add: Validate_def sample_config_fields insecureEncryptionKey_def insecureAdminPassword_def)
  then show ?thesis by (simp add: Load_def Let_def sample_config_def)
qed


end
