(* ===== verification/SubPersist.thy ===== *)
theory SubPersist
  imports SubParse RedisStore Auth Retry Metrics Config
begin

text \<open>
  Package \<^verbatim>\<open>subscription\<close>, second part: a subscription is fetched, its nodes are written to the
  database and the cache, the nodes it no longer has are pruned; manual nodes, the deletion of a
  subscription and the run over those that are due.  The ticker loop of \<^verbatim>\<open>Start\<close> is left out.
\<close>

record http_result =
  hr_StatusCode :: int
  hr_Status :: string
  hr_Body :: "string \<times> error option"

text \<open>The service, with what it calls: one request of the HTTP client is \<open>ss_Get\<close>.\<close>

record 's sub_service =
  ss_W :: "'s world"
  ss_C :: "'s crypto"
  ss_J :: node_json
  ss_F :: formats
  ss_cipher :: aead
  ss_retry :: retry_Config
  ss_ctx :: "'s go_context"
  ss_Get :: "string \<Rightarrow> ('s, error + http_result) state"

record SyncResult =
  sr_SubscriptionID :: nat
  sr_ImportedNodeIDs :: "nat list"
  sr_ImportedCount :: nat

section \<open>Fetching\<close>

text \<open>A program with a local variable beside the state, for the closure that assigns \<^verbatim>\<open>body\<close>.\<close>

definition lift_state :: "('s, 'a) state \<Rightarrow> ('s \<times> 'b, 'a) state" where
  "lift_state m = State (\<lambda>(s, b). case run_state m s of (a, s') \<Rightarrow> (a, (s', b)))"

definition assign :: "'b \<Rightarrow> ('s \<times> 'b, unit) state" where
  "assign b = State (\<lambda>(s, _). ((), (s, b)))"

definition with_var :: "'b \<Rightarrow> ('s \<times> 'b, 'a) state \<Rightarrow> ('s, 'a \<times> 'b) state" where
  "with_var b m = State (\<lambda>s. case run_state m (s, b) of (a, (s', b')) \<Rightarrow> ((a, b'), s'))"

definition lift_context :: "'s go_context \<Rightarrow> ('s \<times> 'b) go_context" where
  "lift_context ctx = \<lparr>ctx_Err = lift_state (ctx_Err ctx), ctx_wait = (\<lambda>d. lift_state (ctx_wait ctx d))\<rparr>"

lemma keeps_lift: "keeps obs m \<Longrightarrow> keeps (obs \<circ> fst) (lift_state m)"
  by (auto simp: keeps_def lift_state_def split: prod.splits)

lemma keeps_assign: "keeps (obs \<circ> fst) (assign b)"
  by (auto simp: keeps_def assign_def)

lemma keeps_with_var: "keeps (obs \<circ> fst) m \<Longrightarrow> keeps obs (with_var b m)"
  by (fastforce simp: keeps_def with_var_def split: prod.splits)

text \<open>A retried function with a local variable keeps what its parts keep.\<close>

lemma keeps_retry:
  assumes "keeps obs (ctx_Err ctx)" and "\<And>d. keeps obs (ctx_wait ctx d)" and "keeps (obs \<circ> fst) fn"
  shows "keeps obs (with_var b (Do_retry (lift_context ctx) cfg fn))"
  by (rule keeps_with_var, rule Do_retry_keeps) (simp_all add: lift_context_def keeps_lift assms)

definition fetch_once :: "'s sub_service \<Rightarrow> string \<Rightarrow> ('s \<times> string, error option) state" where
  "fetch_once g url = do {
     resp \<leftarrow> lift_state (ss_Get g url);
     case resp of
       Inl err \<Rightarrow> State_Monad.return (Some err)
     | Inr resp \<Rightarrow>
         if hr_StatusCode resp \<ge> 500
         then State_Monad.return (Some (Errorf (''subscription fetch failed: '' @ hr_Status resp)))
         else if hr_StatusCode resp \<noteq> 200
         then State_Monad.return (Some (StopError (Some (Errorf (''subscription fetch failed: '' @ hr_Status resp)))))
         else do {
           _ \<leftarrow> assign (fst (hr_Body resp));
           State_Monad.return (snd (hr_Body resp))
         }
   }"

definition fetchSubscription :: "'s sub_service \<Rightarrow> string \<Rightarrow> ('s, error option \<times> string) state" where
  "fetchSubscription g url =
     with_var [] (Do_retry (lift_context (ss_ctx g)) (ss_retry g) (fetch_once g url))"

section \<open>Writing nodes\<close>

definition same_address :: "ProxyNode \<Rightarrow> ProxyNode \<Rightarrow> bool" where
  "same_address a b \<longleftrightarrow> n_Protocol a = n_Protocol b \<and> n_Host a = n_Host b \<and> n_Port a = n_Port b"

definition new_node :: "parsedNode \<Rightarrow> string \<Rightarrow> string \<Rightarrow> nat option \<Rightarrow> ProxyNode" where
  "new_node p userEnc passEnc subscriptionID = zero_node\<lparr>
     n_NodeKey := p_Protocol p @ ''://'' @ p_Host p @ '':'' @ Itoa (p_Port p),
     n_Protocol := p_Protocol p, n_Host := p_Host p, n_Port := p_Port p,
     n_UpstreamUsernameEnc := userEnc, n_UpstreamPasswordEnc := passEnc,
     n_TLSEnabled := p_TLSEnabled p, n_TLSSkipVerify := p_TLSSkipVerify p, n_ServerName := p_ServerName p,
     n_Tag := p_Tag p, n_ExpectedRegion := p_ExpectedRegion p, n_RawJSON := p_RawJSON p,
     n_SubscriptionID := (case subscriptionID of Some i \<Rightarrow> i | None \<Rightarrow> 0)\<rparr>"

text \<open>The columns \<^verbatim>\<open>ON CONFLICT\<close> assigns to the row \<open>old\<close> from the values of \<open>new\<close>.\<close>

definition node_updates :: "nat option \<Rightarrow> ProxyNode \<Rightarrow> ProxyNode \<Rightarrow> ProxyNode" where
  "node_updates subscriptionID old new = old\<lparr>
     n_Tag := n_Tag new, n_ExpectedRegion := n_ExpectedRegion new, n_RawJSON := n_RawJSON new,
     n_UpstreamUsernameEnc := n_UpstreamUsernameEnc new, n_UpstreamPasswordEnc := n_UpstreamPasswordEnc new,
     n_TLSEnabled := n_TLSEnabled new, n_TLSSkipVerify := n_TLSSkipVerify new,
     n_ServerName := n_ServerName new,
     n_SubscriptionID := (if subscriptionID = None then n_SubscriptionID old else n_SubscriptionID new)\<rparr>"

definition zero_link :: SubscriptionNode where
  "zero_link = \<lparr>l_ID = 0, l_SubscriptionID = 0, l_NodeID = 0, l_RawTag = [], l_AliasTag = []\<rparr>"

definition link_node :: "'s world \<Rightarrow> nat \<Rightarrow> nat \<Rightarrow> string \<Rightarrow> ('s, unit) state" where
  "link_node W subID nodeID tag = do {
     found \<leftarrow> db_First (links_tbl W) (\<lambda>l. l_SubscriptionID l = subID \<and> l_NodeID l = nodeID);
     case found of
       Inr _ \<Rightarrow> State_Monad.return ()
     | Inl err \<Rightarrow>
         if err = ErrRecordNotFound then do {
           _ \<leftarrow> db_Create (links_tbl W)
             (zero_link\<lparr>l_SubscriptionID := subID, l_NodeID := nodeID, l_RawTag := tag, l_AliasTag := tag\<rparr>);
           State_Monad.return ()
         }
         else State_Monad.return ()
   }"

text \<open>The row as it is now: it is linked and cached; nothing when it is not found again.\<close>

definition note_persisted ::
  "'s sub_service \<Rightarrow> nat option \<Rightarrow> string \<Rightarrow> ProxyNode \<Rightarrow> ('s, nat option) state" where
  "note_persisted g subscriptionID tag node = do {
     persisted \<leftarrow> db_First (nodes_tbl (ss_W g)) (\<lambda>n. same_address n node);
     case persisted of
       Inl _ \<Rightarrow> State_Monad.return None
     | Inr persisted \<Rightarrow> do {
         _ \<leftarrow> (case subscriptionID of
             Some subID \<Rightarrow> link_node (ss_W g) subID (n_ID persisted) tag
           | None \<Rightarrow> State_Monad.return ());
         _ \<leftarrow> CacheNode (ss_W g) (ss_J g) persisted;
         State_Monad.return (Some (n_ID persisted))
       }
   }"

definition persist_one :: "'s sub_service \<Rightarrow> nat option \<Rightarrow> parsedNode \<Rightarrow> ('s, error + nat option) state" where
  "persist_one g subscriptionID p = do {
     userEnc \<leftarrow> Encrypt (ss_C g) (ss_cipher g) (p_Username p);
     passEnc \<leftarrow> Encrypt (ss_C g) (ss_cipher g) (p_Password p);
     let node = new_node p (or_empty userEnc) (or_empty passEnc) subscriptionID;
     err \<leftarrow> db_Upsert (nodes_tbl (ss_W g)) same_address (node_updates subscriptionID) node;
     case err of
       Some e \<Rightarrow> State_Monad.return (Inl e)
     | None \<Rightarrow> do {
         i \<leftarrow> note_persisted g subscriptionID (p_Tag p) node;
         State_Monad.return (Inr i)
       }
   }"

primrec persistParsedNodes ::
  "'s sub_service \<Rightarrow> nat option \<Rightarrow> parsedNode list \<Rightarrow> ('s, error + nat list) state" where
  "persistParsedNodes g subscriptionID [] = State_Monad.return (Inr [])"
| "persistParsedNodes g subscriptionID (p # ps) = do {
     r \<leftarrow> persist_one g subscriptionID p;
     case r of
       Inl err \<Rightarrow> State_Monad.return (Inl err)
     | Inr i \<Rightarrow> do {
         rest \<leftarrow> persistParsedNodes g subscriptionID ps;
         State_Monad.return (case rest of
             Inl err \<Rightarrow> Inl err
           | Inr ids \<Rightarrow> Inr ((case i of Some i \<Rightarrow> [i] | None \<Rightarrow> []) @ ids))
       }
   }"

section \<open>Pruning and deleting\<close>

text \<open>A node that no subscription names any more is deleted, from the cache too.\<close>

definition drop_if_unlinked ::
  "'s sub_service \<Rightarrow> nat \<Rightarrow> ('s, error + unit) state \<Rightarrow> ('s, error + unit) state" where
  "drop_if_unlinked g nodeID drop_node = do {
     count \<leftarrow> db_Count (links_tbl (ss_W g)) (\<lambda>l. l_NodeID l = nodeID);
     case count of
       Inl err \<Rightarrow> State_Monad.return (Inl err)
     | Inr n \<Rightarrow> if n = 0 then drop_node else State_Monad.return (Inr ())
   }"

definition delete_node :: "'s sub_service \<Rightarrow> ProxyNode \<Rightarrow> ('s, error + unit) state" where
  "delete_node g node = do {
     err \<leftarrow> db_Delete (nodes_tbl (ss_W g)) (\<lambda>n. n_ID n = n_ID node);
     case err of
       Some e \<Rightarrow> State_Monad.return (Inl e)
     | None \<Rightarrow> do { _ \<leftarrow> RemoveNode (ss_W g) node; State_Monad.return (Inr ()) }
   }"

definition prune_link :: "'s sub_service \<Rightarrow> SubscriptionNode \<Rightarrow> ('s, error + unit) state" where
  "prune_link g link = do {
     err \<leftarrow> db_Delete (links_tbl (ss_W g)) (\<lambda>l. l_ID l = l_ID link);
     case err of
       Some e \<Rightarrow> State_Monad.return (Inl e)
     | None \<Rightarrow> drop_if_unlinked g (l_NodeID link) (do {
         node \<leftarrow> db_First (nodes_tbl (ss_W g)) (\<lambda>n. n_ID n = l_NodeID link);
         case node of Inl _ \<Rightarrow> State_Monad.return (Inr ()) | Inr node \<Rightarrow> delete_node g node
       })
   }"

primrec each :: "('a \<Rightarrow> ('s, error + unit) state) \<Rightarrow> 'a list \<Rightarrow> ('s, error + unit) state" where
  "each f [] = State_Monad.return (Inr ())"
| "each f (x # xs) = do {
     r \<leftarrow> f x;
     case r of Inl err \<Rightarrow> State_Monad.return (Inl err) | Inr _ \<Rightarrow> each f xs
   }"

definition pruneSubscriptionNodes :: "'s sub_service \<Rightarrow> nat \<Rightarrow> nat list \<Rightarrow> ('s, error + unit) state" where
  "pruneSubscriptionNodes g subID importedIDs = do {
     links \<leftarrow> db_Find (links_tbl (ss_W g)) (\<lambda>l. l_SubscriptionID l = subID);
     case links of
       Inl err \<Rightarrow> State_Monad.return (Inl err)
     | Inr links \<Rightarrow>
         each (\<lambda>link. if l_NodeID link \<in> set importedIDs then State_Monad.return (Inr ()) else prune_link g link) links
   }"

text \<open>The join of the nodes with the links of the subscription is read as two queries.\<close>

definition nodes_of_subscription :: "'s sub_service \<Rightarrow> nat \<Rightarrow> ('s, error + ProxyNode list) state" where
  "nodes_of_subscription g subID = do {
     links \<leftarrow> db_Find (links_tbl (ss_W g)) (\<lambda>l. l_SubscriptionID l = subID);
     case links of
       Inl err \<Rightarrow> State_Monad.return (Inl err)
     | Inr links \<Rightarrow> db_Find (nodes_tbl (ss_W g)) (\<lambda>n. n_ID n \<in> l_NodeID ` set links)
   }"

definition Delete_subscription :: "'s sub_service \<Rightarrow> nat \<Rightarrow> ('s, error option) state" where
  "Delete_subscription g subID = do {
     nodes \<leftarrow> nodes_of_subscription g subID;
     case nodes of
       Inl err \<Rightarrow> State_Monad.return (Some err)
     | Inr nodes \<Rightarrow> do {
         err \<leftarrow> db_Delete (links_tbl (ss_W g)) (\<lambda>l. l_SubscriptionID l = subID);
         case err of
           Some e \<Rightarrow> State_Monad.return (Some e)
         | None \<Rightarrow> do {
             r \<leftarrow> each (\<lambda>node. drop_if_unlinked g (n_ID node) (delete_node g node)) nodes;
             case r of
               Inl e \<Rightarrow> State_Monad.return (Some e)
             | Inr _ \<Rightarrow> db_Delete (subs_tbl (ss_W g)) (\<lambda>s. s_ID s = subID)
           }
       }
   }"

section \<open>Synchronising\<close>

definition Sync :: "'s sub_service \<Rightarrow> nat \<Rightarrow> Registry option \<Rightarrow> ('s, (SyncResult \<times> error option) \<times> Registry option) state" where
  "Sync g subID m = do {
     let result = \<lparr>sr_SubscriptionID = subID, sr_ImportedNodeIDs = [], sr_ImportedCount = 0\<rparr>;
     let m = map_option IncSubscriptionSync m;
     let failed = map_option IncSubscriptionSyncFailure m;
     sub \<leftarrow> db_First (subs_tbl (ss_W g)) (\<lambda>s. s_ID s = subID);
     case sub of
       Inl err \<Rightarrow> State_Monad.return ((result, Some err), m)
     | Inr sub \<Rightarrow> do {
         (err, body) \<leftarrow> fetchSubscription g (s_URL sub);
         case err of
           Some e \<Rightarrow> State_Monad.return ((result, Some e), failed)
         | None \<Rightarrow>
             (case parseSubscriptionBody (ss_F g) (s_Type sub) body of
                Inl e \<Rightarrow> State_Monad.return ((result, Some e), failed)
              | Inr nodes \<Rightarrow> do {
                  imported \<leftarrow> persistParsedNodes g (Some (s_ID sub)) nodes;
                  case imported of
                    Inl e \<Rightarrow> State_Monad.return ((result, Some e), failed)
                  | Inr ids \<Rightarrow> do {
                      pruned \<leftarrow> pruneSubscriptionNodes g (s_ID sub) ids;
                      case pruned of
                        Inl e \<Rightarrow> State_Monad.return ((result, Some e), failed)
                      | Inr _ \<Rightarrow> do {
                          now \<leftarrow> time_Now (ss_W g);
                          err \<leftarrow> db_Updates (subs_tbl (ss_W g)) (\<lambda>s. s_ID s = s_ID sub)
                            (\<lambda>s. s\<lparr>s_LastSyncAt := Some now\<rparr>);
                          State_Monad.return (case err of
                              Some e \<Rightarrow> ((result, Some e), m)
                            | None \<Rightarrow> ((result\<lparr>sr_ImportedNodeIDs := ids, sr_ImportedCount := length ids\<rparr>, None), m))
                        }
                    }
                })
       }
   }"

definition ImportManualNodes :: "'s sub_service \<Rightarrow> ManualNodeInput list \<Rightarrow> ('s, SyncResult \<times> error option) state" where
  "ImportManualNodes g inputs = do {
     let result = \<lparr>sr_SubscriptionID = 0, sr_ImportedNodeIDs = [], sr_ImportedCount = 0\<rparr>;
     case manual_inputs (ss_F g) inputs of
       Inl err \<Rightarrow> State_Monad.return (result, Some err)
     | Inr nodes \<Rightarrow> do {
         imported \<leftarrow> persistParsedNodes g None nodes;
         State_Monad.return (case imported of
             Inl e \<Rightarrow> (result, Some e)
           | Inr ids \<Rightarrow> (result\<lparr>sr_ImportedNodeIDs := ids, sr_ImportedCount := length ids\<rparr>, None))
       }
   }"

section \<open>The subscriptions that are due\<close>

text \<open>\<^verbatim>\<open>t.Sub(u)\<close> saturates at the bounds of a duration.\<close>

definition time_Sub :: "time \<Rightarrow> time \<Rightarrow> duration" where
  "time_Sub t u = max (- (2 ^ 63)) (min (2 ^ 63 - 1) (t - u))"

definition subscriptionDue :: "Subscription \<Rightarrow> time \<Rightarrow> bool" where
  "subscriptionDue sub now \<longleftrightarrow>
     (if \<not> s_Enabled sub \<or> s_SyncIntervalSeconds sub \<le> 0 then False
      else case s_LastSyncAt sub of
        None \<Rightarrow> True
      | Some synced_at \<Rightarrow> time_Sub now synced_at \<ge> seconds (s_SyncIntervalSeconds sub))"

definition writeSyncAuditLog :: "'s sub_service \<Rightarrow> nat \<Rightarrow> string \<Rightarrow> string \<Rightarrow> ('s, unit) state" where
  "writeSyncAuditLog g subID action detail = do {
     _ \<leftarrow> db_Create (audit_tbl (ss_W g)) \<lparr>a_ID = 0, a_Operator = ''system'', a_Action = action,
       a_TargetType = ''subscription'', a_TargetID = show_nat subID, a_Detail = detail\<rparr>;
     State_Monad.return ()
   }"

primrec sync_all ::
  "'s sub_service \<Rightarrow> time \<Rightarrow> Subscription list \<Rightarrow> Registry option \<Rightarrow> ('s, nat \<times> Registry option) state" where
  "sync_all g now [] m = State_Monad.return (0, m)"
| "sync_all g now (sub # subs) m =
     (if \<not> subscriptionDue sub now then sync_all g now subs m
      else do {
        ((_, err), m) \<leftarrow> Sync g (s_ID sub) m;
        case err of
          Some e \<Rightarrow> do {
            _ \<leftarrow> writeSyncAuditLog g (s_ID sub) ''sync_subscription_error'' (error_text e);
            sync_all g now subs m
          }
        | None \<Rightarrow> do {
            _ \<leftarrow> writeSyncAuditLog g (s_ID sub) ''sync_subscription'' [];
            (synced, m) \<leftarrow> sync_all g now subs m;
            State_Monad.return (Suc synced, m)
          }
      })"

definition syncDueSubscriptions ::
  "'s sub_service \<Rightarrow> time \<Rightarrow> Registry option \<Rightarrow> ('s, (error + nat) \<times> Registry option) state" where
  "syncDueSubscriptions g now m = do {
     subs \<leftarrow> db_Find (subs_tbl (ss_W g)) (\<lambda>s. s_Enabled s \<and> s_SyncIntervalSeconds s > 0);
     case subs of
       Inl err \<Rightarrow> State_Monad.return (Inl err, m)
     | Inr subs \<Rightarrow> do {
         (synced, m) \<leftarrow> sync_all g now subs m;
         State_Monad.return (Inr synced, m)
       }
   }"

end
