(* ===== verification/SubParseProps.thy ===== *)
theory SubParseProps
  imports SubParse
begin

text \<open>
  What the parsers of the subscription formats promise: every node is of a supported protocol
  with a usable address, printing and parsing manual lists are inverse, base64 text is decoded
  whatever its alphabet, and where the parsers lose or misread nodes.
\<close>

section \<open>Well-formed nodes\<close>

definition node_ok :: "parsedNode \<Rightarrow> bool" where
  "node_ok n \<longleftrightarrow> isSupportedOutboundProtocol (p_Protocol n) \<and> 0 < p_Port n \<and> p_Host n \<noteq> [] \<and>
     p_ExpectedRegion n = inferRegion (p_Tag n)"

lemma supported [simp]:
  "isSupportedOutboundProtocol ''http''" "isSupportedOutboundProtocol ''socks''" "isSupportedOutboundProtocol ''ss''"
  "isSupportedOutboundProtocol ''trojan''" "isSupportedOutboundProtocol ''vless''" "isSupportedOutboundProtocol ''vmess''"
  by code_simp+

lemma normalizeProxyProtocol_cases:
  "fst (normalizeProxyProtocol v) \<in> {''http'', ''socks'', ''ss'', ''trojan'', ''vless'', []}"
  by (simp add: normalizeProxyProtocol_def Let_def)

lemma normalizeProxyProtocol_supported:
  "normalizeProxyProtocol v = (p, tls) \<Longrightarrow> p \<noteq> [] \<Longrightarrow> isSupportedOutboundProtocol p"
  using normalizeProxyProtocol_cases [of v] by auto

text \<open>What holds of the result of a chain of guards: each guard is a rule, its body is left alone.\<close>

lemma guard_if: "(c \<Longrightarrow> pred_option P a) \<Longrightarrow> (\<not> c \<Longrightarrow> pred_option P b) \<Longrightarrow> pred_option P (if c then a else b)"
  by simp

lemma guard_option:
  "(\<And>a. x = Some a \<Longrightarrow> pred_option P (f a)) \<Longrightarrow> pred_option P (case x of None \<Rightarrow> None | Some a \<Rightarrow> f a)"
  by (cases x) simp_all

lemma guard_sum:
  "(\<And>a. x = Inr a \<Longrightarrow> pred_option P (f a)) \<Longrightarrow> pred_option P (case x of Inl _ \<Rightarrow> None | Inr a \<Rightarrow> f a)"
  by (cases x) simp_all

lemma guard_prod:
  "(\<And>a b. x = (a, b) \<Longrightarrow> pred_option P (f a b)) \<Longrightarrow> pred_option P (case x of (a, b) \<Rightarrow> f a b)"
  by (cases x) simp

lemma guard_Let: "pred_option P (f x) \<Longrightarrow> pred_option P (Let x f)"
  by simp

lemma guard_None: "pred_option P None"
  by simp

lemmas guards = guard_None guard_if guard_option guard_sum guard_prod guard_Let

lemma manual_node_ok:
  "isSupportedOutboundProtocol protocol \<Longrightarrow> host \<noteq> [] \<Longrightarrow> 0 < port \<Longrightarrow>
   node_ok (manual_node F protocol host port username password tag)"
  by (simp add: node_ok_def manual_node_def)

lemma line_node_ok:
  "isSupportedOutboundProtocol protocol \<Longrightarrow> server \<noteq> [] \<Longrightarrow> 0 < port \<Longrightarrow>
   node_ok (line_node F source protocol server port username password tls skip serverName tag)"
  by (simp add: node_ok_def line_node_def)

lemma parseManualProxyLine_ok:
  "isSupportedOutboundProtocol protocol \<Longrightarrow> pred_option node_ok (parseManualProxyLine F line protocol)"
  unfolding parseManualProxyLine_def by (intro guards) (simp_all add: manual_node_ok)

lemma parseManualProxyLine_SomeD:
  "parseManualProxyLine F line protocol = Some n \<Longrightarrow> isSupportedOutboundProtocol protocol \<Longrightarrow> node_ok n"
  by (metis option.pred_inject(2) parseManualProxyLine_ok)

lemma manual_lines_ok:
  "isSupportedOutboundProtocol protocol \<Longrightarrow> manual_lines F protocol lines = Inr nodes \<Longrightarrow> list_all node_ok nodes"
  by (induction lines arbitrary: nodes)
    (auto simp: Let_def dest: parseManualProxyLine_SomeD split: if_splits option.splits sum.splits)

lemma ParseManualProxyList_ok: "ParseManualProxyList F body p = Inr nodes \<Longrightarrow> nodes \<noteq> [] \<and> list_all node_ok nodes"
  by (auto simp: ParseManualProxyList_def Let_def dest: manual_lines_ok [OF supported(1)] manual_lines_ok
      split: if_splits sum.splits)

lemma parseSurgeProxyLine_ok:
  "pred_option node_ok (parseSurgeProxyLine F line)"
  unfolding parseSurgeProxyLine_def by (intro guards) (simp add: line_node_ok normalizeProxyProtocol_supported)

lemma surge_lines_ok: "list_all node_ok (surge_lines F b lines)"
  by (induction F b lines rule: surge_lines.induct) (use parseSurgeProxyLine_ok in \<open>auto simp: Let_def option.pred_set split: option.splits\<close>)

lemma parseQuantumultXLine_ok:
  "pred_option node_ok (parseQuantumultXLine F line)"
  unfolding parseQuantumultXLine_def by (intro guards) (simp add: line_node_ok normalizeProxyProtocol_supported)

lemma quantumultx_lines_ok: "list_all node_ok (quantumultx_lines F lines)"
  by (induction lines) (use parseQuantumultXLine_ok in \<open>auto simp: Let_def option.pred_set split: option.splits\<close>)

lemma list_all_map_filter: "(\<And>x. pred_option P (f x)) \<Longrightarrow> list_all P (List.map_filter f xs)"
  by (induction xs) (auto simp: map_filter_simps option.pred_set split: option.split)

lemma clash_node_ok:
  "pred_option node_ok (clash_node F item)"
  unfolding clash_node_def by (intro guards) (simp add: node_ok_def)

text \<open>A Shadowsocks link may lose its host: it is trimmed after the check.\<close>

definition link_ok :: "parsedNode \<Rightarrow> bool" where
  "link_ok n \<longleftrightarrow> isSupportedOutboundProtocol (p_Protocol n) \<and> 0 < p_Port n \<and>
     (p_Host n \<noteq> [] \<or> p_Protocol n = ''ss'') \<and> p_ExpectedRegion n = inferRegion (p_Tag n)"

lemma node_ok_link_ok: "node_ok n \<Longrightarrow> link_ok n"
  by (simp add: node_ok_def link_ok_def)

lemma vmess_item_node_ok:
  "pred_option link_ok (vmess_item_node F item)"
  unfolding vmess_item_node_def by (intro guards) (simp add: link_ok_def)

lemma plain_link_node_ok:
  "isSupportedOutboundProtocol protocol \<Longrightarrow> pred_option link_ok (plain_link_node F u protocol tls)"
  unfolding plain_link_node_def by (intro guards) (simp add: link_ok_def)

lemma shadowsocks_link_ok:
  "pred_option link_ok (parseShadowrocketShadowsocksNode F raw)"
  unfolding parseShadowrocketShadowsocksNode_def by (intro guards) (simp add: link_ok_def)

lemma link_address_ok: "link_address u = Some (host, port) \<Longrightarrow> host \<noteq> [] \<and> 0 < port"
  by (auto simp: link_address_def Let_def split: option.splits if_splits)

lemma trojan_link_ok:
  "pred_option link_ok (parseShadowrocketTrojanNode F raw)"
  unfolding parseShadowrocketTrojanNode_def by (intro guards) (auto simp: link_ok_def dest: link_address_ok)

lemma vless_link_ok:
  "pred_option link_ok (parseShadowrocketVLESSNode F raw)"
  unfolding parseShadowrocketVLESSNode_def by (intro guards) (auto simp: link_ok_def dest: link_address_ok)

lemma vmess_link_ok:
  "pred_option link_ok (parseShadowrocketVMessNode F raw)"
  unfolding parseShadowrocketVMessNode_def by (intro guards vmess_item_node_ok)

lemma parseShadowrocketNode_ok:
  "pred_option link_ok (parseShadowrocketNode F raw)"
  unfolding parseShadowrocketNode_def
  by (intro guards shadowsocks_link_ok trojan_link_ok vless_link_ok vmess_link_ok plain_link_node_ok supported)

lemma shadowrocket_ok: "parseShadowrocketSubscription F body = Inr nodes \<Longrightarrow> nodes \<noteq> [] \<and> list_all link_ok nodes"
  by (auto simp: parseShadowrocketSubscription_def Let_def intro!: list_all_map_filter guard_option
      parseShadowrocketNode_ok split: if_splits)

lemma document_ok:
  "parseClashSubscription F body = Inr nodes \<Longrightarrow> nodes \<noteq> [] \<and> list_all node_ok nodes"
  "parseSurgeSubscription F body = Inr nodes \<Longrightarrow> nodes \<noteq> [] \<and> list_all node_ok nodes"
  "parseQuantumultXSubscription F body = Inr nodes \<Longrightarrow> nodes \<noteq> [] \<and> list_all node_ok nodes"
  by (auto simp: parseClashSubscription_def parseSurgeSubscription_def parseQuantumultXSubscription_def Let_def
      surge_lines_ok quantumultx_lines_ok intro!: list_all_map_filter
      clash_node_ok split: if_splits sum.splits)

lemma node_ok_all: "nodes \<noteq> [] \<and> list_all node_ok nodes \<Longrightarrow> nodes \<noteq> [] \<and> list_all link_ok nodes"
  by (simp add: list_all_iff node_ok_link_ok)


section \<open>Manual lists are read as they are printed\<close>

type_synonym entry = "string \<times> int \<times> (string \<times> string) option"

definition entry_parts :: "entry \<Rightarrow> string list" where
  "entry_parts e = (case e of (host, port, cred) \<Rightarrow>
     [host, Itoa port] @ (case cred of None \<Rightarrow> [] | Some (user, password) \<Rightarrow> [user, password]))"

definition print_entries :: "entry list \<Rightarrow> string" where
  "print_entries es = Join (map (\<lambda>e. Join (entry_parts e) '':'') es) [CHR 0x0A]"

definition entry_node :: "formats \<Rightarrow> string \<Rightarrow> entry \<Rightarrow> parsedNode" where
  "entry_node F protocol e = (case e of (host, port, cred) \<Rightarrow>
     (case cred of
        None \<Rightarrow> manual_node F protocol host port [] [] (host_port host port)
      | Some (user, password) \<Rightarrow> manual_node F protocol host port user password (host_port host port)))"

definition entry_ok :: "entry \<Rightarrow> bool" where
  "entry_ok e \<longleftrightarrow> (case e of (host, port, cred) \<Rightarrow>
     list_all (\<lambda>x. x \<noteq> [] \<and> plain x \<and> CHR '':'' \<notin> set x) (entry_parts e) \<and> 0 < port \<and> int64_range port \<and>
     \<not> HasPrefix host ''#'' \<and> \<not> HasPrefix host ''//'')"

lemma plain_no_newline: "plain s \<Longrightarrow> CHR 0x0A \<notin> set s"
  by (auto simp: plain_def list_all_iff plain_char_def byte_of_def)

lemma entry_line_starts:
  assumes "host \<noteq> []" and "\<not> HasPrefix host ''#''" and "\<not> HasPrefix host ''//''"
  shows "\<not> HasPrefix (host @ CHR '':'' # rest) ''#''" and "\<not> HasPrefix (host @ CHR '':'' # rest) ''//''"
  using assms by (cases host; cases "tl host"; auto simp: HasPrefix_def)+

lemma entry_ok_parts:
  assumes "entry_ok (host, port, cred)"
  shows "Split (Join (entry_parts (host, port, cred)) '':'') '':'' = entry_parts (host, port, cred)"
    and "plain (Join (entry_parts (host, port, cred)) '':'')"
proof -
  have parts: "\<forall>x\<in>set (entry_parts (host, port, cred)). x \<noteq> [] \<and> plain x \<and> CHR '':'' \<notin> set x"
    using assms by (simp add: entry_ok_def list_all_iff)
  have "entry_parts (host, port, cred) \<noteq> []" by (simp add: entry_parts_def)
  with parts show "Split (Join (entry_parts (host, port, cred)) '':'') '':'' = entry_parts (host, port, cred)"
    by (intro Split_Join) auto
  show "plain (Join (entry_parts (host, port, cred)) '':'')"
    using parts by (intro plain_Join) (auto simp: plain_char_def byte_of_def)
qed

lemma parse_entry_line:
  assumes "entry_ok (host, port, cred)"
  shows "parseManualProxyLine F (Join (entry_parts (host, port, cred)) '':'') protocol = Some (entry_node F protocol (host, port, cred))"
  using assms entry_ok_parts [OF assms]
  by (cases cred) (auto simp: parseManualProxyLine_def entry_ok_def entry_node_def entry_parts_def Let_def)

lemma parse_entry_lines:
  "\<forall>e\<in>set es. entry_ok e \<Longrightarrow>
   manual_lines F protocol (map (\<lambda>e. Join (entry_parts e) '':'') es) = Inr (map (entry_node F protocol) es)"
proof (induction es)
  case (Cons e es)
  obtain host port cred where e: "e = (host, port, cred)" by (cases e)
  let ?line = "Join (entry_parts (host, port, cred)) '':''"
  have ok: "entry_ok (host, port, cred)" using Cons.prems e by simp
  have "TrimSpace ?line = ?line" using entry_ok_parts(2) [OF ok] by simp
  moreover obtain rest where line: "?line = host @ CHR '':'' # rest"
    by (auto simp: entry_parts_def split: option.split)
  moreover have "\<not> HasPrefix ?line ''#''" "\<not> HasPrefix ?line ''//''"
    unfolding line using entry_line_starts [of host] ok
    by (auto simp: entry_ok_def entry_parts_def)
  ultimately show ?case
    using Cons parse_entry_line [OF ok, of F protocol] by (simp add: e)
qed simp

lemma parse_print_entries:
  assumes "es \<noteq> []" and "\<forall>e\<in>set es. entry_ok e" and "isSupportedOutboundProtocol p" and "ToLower (TrimSpace p) = p"
    and "p \<noteq> []"
  shows "ParseManualProxyList F (print_entries es) p = Inr (map (entry_node F p) es)"
proof -
  have "Split (print_entries es) [CHR 0x0A] = map (\<lambda>e. Join (entry_parts e) '':'') es"
    unfolding print_entries_def
    using assms(1,2) by (intro Split_Join) (auto intro!: plain_no_newline entry_ok_parts(2))
  then show ?thesis
    using assms by (simp add: ParseManualProxyList_def Let_def parse_entry_lines)
qed

text \<open>
  C29: A manual list is read back as it was printed: for host names and credentials without blanks
  and colons, every line \<^verbatim>\<open>host:port\<close> or \<^verbatim>\<open>host:port:user:password\<close> gives the node it describes, in
  order.
\<close>

theorem ParseManualProxyList_print:
  assumes "es \<noteq> []" and "\<forall>e\<in>set es. entry_ok e" and "isSupportedOutboundProtocol p" and "ToLower (TrimSpace p) = p"
    and "p \<noteq> []"
  shows "ParseManualProxyList F (print_entries es) p = Inr (map (entry_node F p) es)"
  by (rule parse_print_entries [OF assms])

definition no_formats :: formats where
  "no_formats = \<lparr>json_outbounds = (\<lambda>_. Inr []), json_map = (\<lambda>_. Inr []), yaml_proxies = (\<lambda>_. Inr []),
     json_Marshal = (\<lambda>_. []), url_Parse = (\<lambda>_. Inl (ExtErr ''url'')), QueryUnescape = Inr\<rparr>"

lemma Itoa_plain: "0 \<le> i \<Longrightarrow> Itoa i \<noteq> [] \<and> plain (Itoa i) \<and> CHR '':'' \<notin> set (Itoa i)"
proof -
  assume "0 \<le> i"
  have "is_digit c \<Longrightarrow> plain_char c \<and> c \<noteq> CHR '':''" for c
    by (auto simp: is_digit_def plain_char_def byte_of_def)
  then have "plain_char c \<and> c \<noteq> CHR '':''" if "c \<in> set (show_nat (nat i))" for c
    using show_nat_digits that by blast
  then have "plain (show_nat (nat i)) \<and> CHR '':'' \<notin> set (show_nat (nat i))"
    unfolding plain_def list_all_iff by blast
  then show ?thesis using \<open>0 \<le> i\<close> by (simp add: Itoa_nonneg)
qed

definition two_entries :: "(string \<times> int \<times> (string \<times> string) option) list" where
  "two_entries = [(''10.0.0.1'', 8080, None), (''h'', 1, Some (''u'', ''p''))]"

lemma two_entries_ok: "\<forall>e\<in>set two_entries. entry_ok e"
  using Itoa_plain [of 8080] Itoa_plain [of 1]
  by (simp add: two_entries_def entry_ok_def entry_parts_def plain_char_def byte_of_def int64_range_def HasPrefix_def)

theorem ParseManualProxyList_print_witness:
  "ParseManualProxyList no_formats (print_entries two_entries) ''socks''
   = Inr (map (entry_node no_formats ''socks'') two_entries)"
proof (rule ParseManualProxyList_print [OF _ two_entries_ok])
  show "ToLower (TrimSpace ''socks'') = ''socks''" by code_simp
qed (simp_all add: two_entries_def)


section \<open>Base64 text of any alphabet is decoded\<close>

lemma padBase64_four: "length x = 4 \<Longrightarrow> padBase64 (x @ y) = x @ padBase64 y"
  by (simp add: padBase64_def)

definition padded :: "b64_encoding \<Rightarrow> b64_encoding" where
  "padded E = E\<lparr>b64_padded := True\<rparr>"

lemma padded_char: "b64_char (padded E) n = b64_char E n"
  by (simp add: padded_def b64_char_def)

lemma padded_pad: "b64_pad (padded E) s = s"
  by (simp add: padded_def b64_pad_def)

lemma padBase64_Encode: "padBase64 (EncodeToString E s) = EncodeToString (padded E) s"
proof (induction E s rule: EncodeToString.induct)
  case (1 E x y z s)
  have "padBase64 ([a, b, c, d] @ EncodeToString E s) = [a, b, c, d] @ EncodeToString (padded E) s" for a b c d
    using 1 by (subst padBase64_four) simp_all
  then show ?case by (simp add: Let_def padded_char)
next
  case (2 E x y)
  show ?case
    unfolding EncodeToString.simps Let_def padded_char padded_pad
    by (cases "b64_padded E") (simp_all add: b64_pad_def padBase64_def)
next
  case (3 E x)
  show ?case
    unfolding EncodeToString.simps Let_def padded_char padded_pad
    by (cases "b64_padded E") (simp_all add: b64_pad_def padBase64_def numeral_2_eq_2)
qed (simp add: padBase64_def)

lemma padded_standard: "E \<in> set b64_standard \<Longrightarrow> padded E \<in> {StdEncoding, URLEncoding}"
  by (auto simp: b64_standard_def padded_def StdEncoding_def RawStdEncoding_def URLEncoding_def RawURLEncoding_def)

lemma plain_alphabet: "E \<in> set b64_standard \<Longrightarrow> plain (b64_alphabet E)"
proof -
  have "plain b64_common" "plain [CHR ''+'', CHR ''/'']" "plain [CHR ''-'', CHR ''_'']" by code_simp+
  moreover assume "E \<in> set b64_standard"
  ultimately show ?thesis
    using standard_alphabets plain_simps(3) unfolding b64_standard_def list.set by (metis empty_iff insert_iff)
qed

lemma plain_Encode: "E \<in> set b64_standard \<Longrightarrow> plain (EncodeToString E s)"
proof (induction E s rule: EncodeToString.induct)
  case (1 E x y z s)
  have char: "plain_char (b64_char E n)" if "n < 64" for n
    using plain_alphabet [OF "1.prems"] that b64_standard_agree [OF "1.prems" "1.prems"]
    by (simp add: plain_def list_all_length b64_char_def b64_agree_def b64_ok_def)
  have "(byte_of x * 65536 + byte_of y * 256 + byte_of z) div 262144 < 64"
    by (rule sextets [OF byte_of_less byte_of_less byte_of_less refl])
  with 1 char show ?case by (simp add: Let_def)
next
  case (2 E x y)
  have char: "plain_char (b64_char E n)" if "n < 64" for n
    using plain_alphabet [OF 2] that b64_standard_agree [OF 2 2]
    by (simp add: plain_def list_all_length b64_char_def b64_agree_def b64_ok_def)
  have "(byte_of x * 65536 + byte_of y * 256) div 262144 < 64"
    using sextets [of "byte_of x" "byte_of y" 0] by simp
  with char show ?case by (simp add: Let_def b64_pad_def plain_char_def byte_of_def)
next
  case (3 E x)
  have char: "plain_char (b64_char E n)" if "n < 64" for n
    using plain_alphabet [OF 3] that b64_standard_agree [OF 3 3]
    by (simp add: plain_def list_all_length b64_char_def b64_agree_def b64_ok_def)
  have "byte_of x * 65536 div 262144 < 64" using sextets [of "byte_of x" 0 0] by simp
  with char show ?case by (simp add: Let_def b64_pad_def plain_char_def byte_of_def)
qed simp

lemma DecodeString_other:
  assumes "E \<in> set b64_standard" and "E' \<in> set b64_standard"
  shows "DecodeString E (EncodeToString E' s) \<in> {None, Some s}"
  using decode_other [OF b64_standard_agree [OF assms]] b64_standard_agree [OF assms]
  by (simp add: DecodeString_def encode_plain b64_agree_def)

text \<open>
  The decoder of share links reads what any of the four base64 encodings of Go has written,
  with or without padding, in the standard or the URL alphabet.
\<close>

theorem decodeBase64Text_Encode:
  assumes "E \<in> set b64_standard"
  shows "decodeBase64Text (EncodeToString E s) = Some s"
proof -
  let ?x = "EncodeToString E s"
  have std: "RawURLEncoding \<in> set b64_standard" "URLEncoding \<in> set b64_standard" "RawStdEncoding \<in> set b64_standard"
      "StdEncoding \<in> set b64_standard" by (simp_all add: b64_standard_def)
  have trim: "TrimSpace ?x = ?x" using plain_Encode [OF assms] by simp
  have pad: "padBase64 ?x = EncodeToString (padded E) s" "padded E \<in> set b64_standard"
    using padBase64_Encode padded_standard [OF assms] std by auto
  have "DecodeString RawURLEncoding ?x \<in> {None, Some s}" "DecodeString RawStdEncoding ?x \<in> {None, Some s}"
      "DecodeString URLEncoding (padBase64 ?x) \<in> {None, Some s}"
      "DecodeString StdEncoding (padBase64 ?x) \<in> {None, Some s}"
    using DecodeString_other std assms pad by simp_all
  moreover have "DecodeString URLEncoding (padBase64 ?x) = Some s \<or> DecodeString StdEncoding (padBase64 ?x) = Some s"
    using padded_standard [OF assms] by (auto simp: pad(1))
  ultimately show ?thesis
    unfolding decodeBase64Text_def Let_def trim by (auto split: option.split)
qed

theorem decodeBase64Text_Encode_witness:
  "decodeBase64Text (EncodeToString RawStdEncoding ''aes-256-gcm:p?'') = Some ''aes-256-gcm:p?''"
  by (rule decodeBase64Text_Encode) (simp add: b64_standard_def)

section \<open>Nodes a document loses\<close>

text \<open>
  A VLESS or VMess proxy of a Clash document that names no network, which means plain TCP, is
  not imported: the parser takes the protocol name for the network.
\<close>

theorem clash_node_needs_network:
  assumes "isVLESSProtocol (str_at item ''type'') \<or> isVMessProtocol (str_at item ''type'')"
    and "TrimSpace (str_at item ''network'') = []"
  shows "clash_node F item = None"
proof -
  let ?p = "TrimSpace (str_at item ''type'')"
  have folds: "fold_case ''vless'' \<noteq> fold_case ''tcp''" "fold_case ''vless'' \<noteq> fold_case ''raw''"
      "fold_case ''vmess'' \<noteq> fold_case ''tcp''" "fold_case ''vless'' \<noteq> fold_case []" "fold_case ''vmess'' \<noteq> fold_case []"
    by code_simp+
  have p: "fold_case ?p = fold_case ''vless'' \<or> fold_case ?p = fold_case ''vmess''"
    using assms(1) by (simp add: isVLESSProtocol_def isVMessProtocol_def EqualFold_def)
  then have "?p \<noteq> []" using folds by metis
  then have "firstNonEmpty [str_at item ''network'', str_at item ''type''] = ?p" using assms(2) by simp
  then have "clash_credentials item (str_at item ''type'') = None"
    using p folds assms(1)
    by (auto simp: clash_credentials_def Let_def EqualFold_def isVLESSProtocol_def isVMessProtocol_def)
  then show ?thesis by (simp add: clash_node_def Let_def split: option.split)
qed

theorem clash_node_needs_network_witness:
  "clash_node no_formats [(''type'', AStr ''vless''), (''server'', AStr ''h''), (''port'', AInt 443),
     (''uuid'', AStr ''u''), (''name'', AStr ''JP'')] = None"
  by (rule clash_node_needs_network) (code_simp, simp add: item_get_def)

end
