(* ===== verification/SubPersistProps.thy ===== *)
theory SubPersistProps
  imports SubPersist SubParseProps
begin

text \<open>
  What importing, pruning and deleting do to the database.  Seen from outside, the table of the
  nodes is an address book: a map from an address (protocol, host, port) to what the documents say
  of the node there.  Importing refines the update of that map; pruning and deleting remove the
  links of a subscription and the nodes that no link names any more.
\<close>

section \<open>The address book\<close>

type_synonym address = "string \<times> string \<times> int"

definition node_address :: "ProxyNode \<Rightarrow> address" where
  "node_address n = (n_Protocol n, n_Host n, n_Port n)"

definition parsed_address :: "parsedNode \<Rightarrow> address" where
  "parsed_address p = (p_Protocol p, p_Host p, p_Port p)"

definition opened :: "aead \<Rightarrow> string \<Rightarrow> string" where
  "opened c enc = (case Decrypt c enc of Inl _ \<Rightarrow> [] | Inr raw \<Rightarrow> raw)"

definition stored :: "aead \<Rightarrow> ProxyNode \<Rightarrow> parsedNode" where
  "stored c n = \<lparr>p_Protocol = n_Protocol n, p_Host = n_Host n, p_Port = n_Port n,
     p_Username = opened c (n_UpstreamUsernameEnc n), p_Password = opened c (n_UpstreamPasswordEnc n),
     p_TLSEnabled = n_TLSEnabled n, p_TLSSkipVerify = n_TLSSkipVerify n, p_ServerName = n_ServerName n,
     p_Tag = n_Tag n, p_ExpectedRegion = n_ExpectedRegion n, p_RawJSON = n_RawJSON n\<rparr>"

definition book :: "aead \<Rightarrow> ProxyNode list \<Rightarrow> address \<Rightarrow> parsedNode option" where
  "book c rows a = map_option (stored c) (find (\<lambda>n. node_address n = a) rows)"

definition import_nodes :: "parsedNode list \<Rightarrow> (address \<Rightarrow> parsedNode option) \<Rightarrow> address \<Rightarrow> parsedNode option" where
  "import_nodes ps b = fold (\<lambda>p b. b(parsed_address p \<mapsto> p)) ps b"

text \<open>What an import leaves alone: the columns the documents do not speak of.\<close>

definition kept :: "ProxyNode \<Rightarrow> ProxyNode" where
  "kept n = n\<lparr>n_Tag := [], n_ExpectedRegion := [], n_RawJSON := [], n_UpstreamUsernameEnc := [],
     n_UpstreamPasswordEnc := [], n_TLSEnabled := False, n_TLSSkipVerify := False, n_ServerName := [],
     n_SubscriptionID := 0\<rparr>"

definition unique_nodes :: "ProxyNode list \<Rightarrow> bool" where
  "unique_nodes rows \<longleftrightarrow> distinct (map n_ID rows) \<and> distinct (map node_address rows)"

lemma same_address: "same_address a b \<longleftrightarrow> node_address a = node_address b"
  by (auto simp: same_address_def node_address_def)

lemma kept_address: "kept a = kept b \<Longrightarrow> node_address a = node_address b \<and> n_ID a = n_ID b"
  by (auto simp: kept_def node_address_def dest: arg_cong [where f = n_ID] arg_cong [where f = n_Protocol]
      arg_cong [where f = n_Host] arg_cong [where f = n_Port])

lemma kept_updates [simp]: "kept (node_updates sub old new) = kept old"
  by (simp add: kept_def node_updates_def)

lemma stored_updates: "node_address old = node_address new \<Longrightarrow> stored c (node_updates sub old new) = stored c new"
  by (simp add: stored_def node_updates_def node_address_def)

lemma address_updates [simp]: "node_address (node_updates sub old new) = node_address old"
  by (simp add: node_address_def node_updates_def)

text \<open>One import on the rows: the row of that address is updated, or a row with a new id is added.\<close>

definition upserted :: "aead \<Rightarrow> nat option \<Rightarrow> parsedNode \<Rightarrow> ProxyNode list \<Rightarrow> ProxyNode list \<Rightarrow> bool" where
  "upserted c sub p rows rows' \<longleftrightarrow>
     (\<exists>node. stored c node = p \<and>
       (if \<exists>y\<in>set rows. node_address y = parsed_address p
        then rows' = map (\<lambda>y. if node_address y = parsed_address p then node_updates sub y node else y) rows
        else \<exists>i. (\<forall>y\<in>set rows. n_ID y < i) \<and> rows' = rows @ [node\<lparr>n_ID := i\<rparr>]))"

lemma stored_address: "stored c n = p \<Longrightarrow> node_address n = parsed_address p"
  by (auto simp: stored_def node_address_def parsed_address_def)

lemma find_map: "find P (map f xs) = map_option f (find (P \<circ> f) xs)"
  by (induction xs) simp_all

lemma find_append: "find P (xs @ ys) = (case find P xs of None \<Rightarrow> find P ys | Some x \<Rightarrow> Some x)"
  by (induction xs) simp_all

lemma find_SomeD: "find P xs = Some x \<Longrightarrow> P x \<and> x \<in> set xs"
  by (induction xs) (auto split: if_splits)

lemma find_same: "\<exists>y\<in>set rows. P y \<Longrightarrow> \<exists>y. find P rows = Some y \<and> P y \<and> y \<in> set rows"
  by (metis find_None_iff find_SomeD not_None_eq)

lemma upsertedE:
  assumes "upserted c sub p rows rows'"
  obtains (update) node where "stored c node = p" "node_address node = parsed_address p"
      "\<exists>y\<in>set rows. node_address y = parsed_address p"
      "rows' = map (\<lambda>y. if node_address y = parsed_address p then node_updates sub y node else y) rows"
    | (insert) node i where "stored c node = p" "node_address node = parsed_address p"
      "\<not> (\<exists>y\<in>set rows. node_address y = parsed_address p)"
      "\<forall>y\<in>set rows. n_ID y < i" "rows' = rows @ [node\<lparr>n_ID := i\<rparr>]"
proof -
  obtain node where "stored c node = p"
    and "if \<exists>y\<in>set rows. node_address y = parsed_address p
        then rows' = map (\<lambda>y. if node_address y = parsed_address p then node_updates sub y node else y) rows
        else \<exists>i. (\<forall>y\<in>set rows. n_ID y < i) \<and> rows' = rows @ [node\<lparr>n_ID := i\<rparr>]"
    using assms unfolding upserted_def by blast
  then show thesis
    using stored_address that by (cases "\<exists>y\<in>set rows. node_address y = parsed_address p") (simp_all, blast+)
qed

lemma node_with_id [simp]:
  "node_address (node\<lparr>n_ID := i\<rparr>) = node_address node" "stored c (node\<lparr>n_ID := i\<rparr>) = stored c node"
  by (simp_all add: node_address_def stored_def)

lemma upserted_book:
  assumes "upserted c sub p rows rows'"
  shows "book c rows' = (book c rows)(parsed_address p \<mapsto> p)"
  using assms
proof (cases rule: upsertedE)
  case (update node)
  let ?f = "\<lambda>y. if node_address y = parsed_address p then node_updates sub y node else y"
  have same: "(\<lambda>n. node_address n = a) \<circ> ?f = (\<lambda>n. node_address n = a)" for a
    by (auto simp: fun_eq_iff)
  have "book c rows' a = ((book c rows)(parsed_address p \<mapsto> p)) a" for a
  proof (cases "a = parsed_address p")
    case True
    with find_same [OF update(3)] update show ?thesis
      by (auto simp: book_def find_map same stored_updates)
  next
    case False
    then have "map_option (stored c) (map_option ?f (find (\<lambda>n. node_address n = a) rows))
        = map_option (stored c) (find (\<lambda>n. node_address n = a) rows)"
      by (cases "find (\<lambda>n. node_address n = a) rows") (use find_SomeD in fastforce)+
    with False update(4) show ?thesis by (simp add: book_def find_map same)
  qed
  then show ?thesis by (rule ext)
next
  case (insert node i)
  then have "find (\<lambda>n. node_address n = parsed_address p) rows = None"
    by (simp add: find_None_iff)
  with insert show ?thesis
    by (auto simp: book_def find_append fun_eq_iff split: option.splits)
qed

lemma upserted_kept:
  assumes "upserted c sub p rows rows'"
  shows "\<exists>new. map kept rows' = map kept rows @ new"
  using assms
proof (cases rule: upsertedE)
  case (update node)
  then have "map kept rows' = map kept rows @ []" by simp
  then show ?thesis by blast
qed simp

lemma upserted_unique:
  assumes "upserted c sub p rows rows'" and "unique_nodes rows"
  shows "unique_nodes rows'"
  using assms(1)
proof (cases rule: upsertedE)
  case (update node)
  have "n_ID (node_updates sub y node) = n_ID y" for y by (simp add: node_updates_def)
  then have "map n_ID rows' = map n_ID rows" "map node_address rows' = map node_address rows"
    using update(4) by auto
  then show ?thesis using assms(2) by (simp add: unique_nodes_def)
next
  case (insert node i)
  with assms(2) show ?thesis by (force simp: unique_nodes_def)
qed

lemma upserted_found:
  assumes "upserted c sub p rows rows'"
  shows "\<exists>n\<in>set rows'. node_address n = parsed_address p"
  using upserted_book [OF assms, THEN fun_cong, of "parsed_address p"]
  by (auto simp: book_def dest: find_SomeD)

section \<open>Importing refines the update of the book\<close>

text \<open>The random source answers.\<close>

definition random_answers :: "'s crypto \<Rightarrow> bool" where
  "random_answers C \<longleftrightarrow> (\<forall>n s. \<exists>bytes s'. run_state (rand_Reader C n) s = (Inr bytes, s'))"

text \<open>What a service needs: stores that answer, cryptography that keeps its contract.\<close>

locale sub_env =
  fixes g :: "'s sub_service" and view :: "'s \<Rightarrow> store" and secret :: string
  assumes stores: "reliable (ss_W g) view"
    and cryptography: "crypto_law (ss_C g) view"
    and random: "random_answers (ss_C g)"
    and cipher: "NewCipher (ss_C g) secret = Inr (ss_cipher g)"
    and nonce: "0 < NonceSize (ss_cipher g)"
begin

lemma stores_may_fail: "backend (ss_W g) view"
  by (rule reliable.is_backend [OF stores])

lemma opens: "aead_opens (ss_cipher g)"
  using cipher cryptography by (auto simp: NewCipher_def crypto_law_def split: sum.splits)

end

lemmas sub_envD = sub_env.stores sub_env.stores_may_fail sub_env.cryptography sub_env.random sub_env.opens sub_env.nonce

lemma Encrypt_answers:
  assumes "random_answers C"
  shows "wp (Encrypt C c raw) (\<lambda>r s'. \<exists>enc. r = Inr enc) s"
proof (rule wp_runI)
  fix r s' assume "run_state (Encrypt C c raw) s = (r, s')"
  moreover obtain bytes t where "run_state (rand_Reader C (NonceSize c)) s = (Inr bytes, t)"
    using assms unfolding random_answers_def by blast
  ultimately show "\<exists>enc. r = Inr enc"
    by (auto simp: Encrypt_def run_state_bind split: if_splits)
qed

lemma wp_Encrypt_stored:
  assumes "sub_env g view secret"
    and "\<And>enc s'. view s' = view s \<Longrightarrow> opened (ss_cipher g) enc = raw \<Longrightarrow> Q (Inr enc) s'"
  shows "wp (Encrypt (ss_C g) (ss_cipher g) raw) Q s"
proof -
  note env = sub_envD [OF assms(1)]
  have "wp (Encrypt (ss_C g) (ss_cipher g) raw)
      (\<lambda>r s'. (view s' = view s \<and> (\<forall>enc. r = Inr enc \<longrightarrow> Decrypt (ss_cipher g) enc = Inr raw)) \<and> (\<exists>enc. r = Inr enc)) s"
    by (intro wp_conj Encrypt_answers env(4) crypto_law.wp_Encrypt [OF env(3,5,6)]) simp
  then show ?thesis by (rule wp_mono) (use assms(2) in \<open>auto simp: opened_def\<close>)
qed

lemma link_node_keeps_nodes:
  assumes "backend W view"
  shows "keeps (\<lambda>s. st_nodes (view s)) (link_node W subID nodeID tag)"
  unfolding link_node_def db_First_def db_Create_def
  by (auto intro!: keeps_bind backend.other_tables_keep [OF assms] split: sum.splits)

lemma wp_CacheNode_rows:
  assumes "backend W view" and "\<And>r s'. tables view s' = tables view s \<Longrightarrow> Q r s'"
  shows "wp (CacheNode W J node) Q s"
  using backend.wp_keeps_tables [OF assms(1) backend.cache_keeps_tables(1) [OF assms(1)]] assms(2) .

lemma tables_eqD:
  assumes "tables view s' = tables view s"
  shows "st_nodes (view s') = st_nodes (view s)" "st_links (view s') = st_links (view s)"
    "st_subs (view s') = st_subs (view s)" "st_users (view s') = st_users (view s)"
    "st_audit (view s') = st_audit (view s)"
  using arg_cong [OF assms, of st_nodes] arg_cong [OF assms, of st_links] arg_cong [OF assms, of st_subs]
    arg_cong [OF assms, of st_users] arg_cong [OF assms, of st_audit] by simp_all

lemma stored_new_node:
  assumes "opened c u = p_Username p" and "opened c w = p_Password p"
  shows "stored c (new_node p u w sub) = p"
  using assms by (simp add: stored_def new_node_def)

lemma link_and_cache_keep_nodes:
  assumes "backend W view"
  shows "keeps (\<lambda>s. st_nodes (view s)) (case sub of Some subID \<Rightarrow> link_node W subID i tag | None \<Rightarrow> State_Monad.return ())"
    and "keeps (\<lambda>s. st_nodes (view s)) (CacheNode W J node)"
  using link_node_keeps_nodes [OF assms] keeps_map [OF backend.cache_keeps_tables(1) [OF assms], of st_nodes]
  by (auto split: option.splits)

lemma upsertedI:
  assumes "stored c node = p"
  shows "\<exists>y\<in>set rows. same_address y node \<Longrightarrow>
      upserted c sub p rows (map (\<lambda>y. if same_address y node then node_updates sub y node else y) rows)"
    and "\<not> (\<exists>y\<in>set rows. same_address y node) \<Longrightarrow> \<forall>y\<in>set rows. n_ID y < i \<Longrightarrow>
      upserted c sub p rows (rows @ [node\<lparr>n_ID := i\<rparr>])"
  unfolding upserted_def same_address stored_address [OF assms] using assms by auto

lemma wp_note_persisted:
  assumes "reliable (ss_W g) view" and up: "upserted c sub p rows (st_nodes (view s))"
    and addr: "node_address node = parsed_address p"
    and ok: "\<And>n s'. st_nodes (view s') = st_nodes (view s) \<Longrightarrow> n \<in> set (st_nodes (view s)) \<Longrightarrow>
      node_address n = parsed_address p \<Longrightarrow> Q (Some (n_ID n)) s'"
  shows "wp (note_persisted g sub tag node) Q s"
  unfolding note_persisted_def wp_bind
proof (rule reliable.wp_First_nodes [OF assms(1)])
  fix s1 assume v1: "view s1 = view s"
  note keep = link_and_cache_keep_nodes [OF reliable.is_backend [OF assms(1)]]
  obtain n where n: "first_answer (\<lambda>n. same_address n node) (st_nodes (view s)) = Inr n"
    and "node_address n = parsed_address p" "n \<in> set (st_nodes (view s))"
    using find_same [OF upserted_found [OF up]] by (auto simp: same_address addr first_answer_def)
  then show "wp (case first_answer (\<lambda>n. same_address n node) (st_nodes (view s)) of
        Inl x \<Rightarrow> State_Monad.return None
      | Inr persisted \<Rightarrow> do {
          _ \<leftarrow> (case sub of Some subID \<Rightarrow> link_node (ss_W g) subID (n_ID persisted) tag
            | None \<Rightarrow> State_Monad.return ());
          _ \<leftarrow> CacheNode (ss_W g) (ss_J g) persisted;
          State_Monad.return (Some (n_ID persisted)) }) Q s1"
    unfolding n sum.case wp_bind wp_return
    by (intro wp_keeps [OF keep(1)] wp_keeps [OF keep(2)]) (simp add: ok v1)
qed

lemma wp_persist_one:
  assumes env: "sub_env g view secret"
    and err: "\<And>e s'. st_nodes (view s') = st_nodes (view s) \<Longrightarrow> Q (Inl e) s'"
    and ok: "\<And>n s'. upserted (ss_cipher g) sub p (st_nodes (view s)) (st_nodes (view s')) \<Longrightarrow>
      n \<in> set (st_nodes (view s')) \<Longrightarrow> node_address n = parsed_address p \<Longrightarrow> Q (Inr (Some (n_ID n))) s'"
  shows "wp (persist_one g sub p) Q s"
  unfolding persist_one_def wp_bind Let_def
proof (rule wp_Encrypt_stored [OF env], rule wp_Encrypt_stored [OF env])
  fix u s1 w s2
  assume v1: "view s1 = view s" and u: "opened (ss_cipher g) u = p_Username p"
    and v2: "view s2 = view s1" and w: "opened (ss_cipher g) w = p_Password p"
  note R = sub_envD(1) [OF env]
  let ?node = "new_node p (or_empty (Inr u)) (or_empty (Inr w)) sub"
  have node: "stored (ss_cipher g) ?node = p" using stored_new_node [OF u w] by simp
  note addr = stored_address [OF node]
  have noted: "wp (note_persisted g sub (p_Tag p) ?node) (\<lambda>i. Q (Inr i)) s3"
    if up: "upserted (ss_cipher g) sub p (st_nodes (view s)) (st_nodes (view s3))" for s3
    by (rule wp_note_persisted [OF R up addr]) (use ok up in simp)
  show "wp (db_Upsert (nodes_tbl (ss_W g)) same_address (node_updates sub) ?node)
      (\<lambda>err. wp (case err of Some e \<Rightarrow> State_Monad.return (Inl e)
         | None \<Rightarrow> do { i \<leftarrow> note_persisted g sub (p_Tag p) ?node; State_Monad.return (Inr i) }) Q) s2"
  proof (rule reliable.wp_Upsert_nodes [OF R]; simp only: option.case wp_bind wp_return)
    show "wp (note_persisted g sub (p_Tag p) ?node) (\<lambda>i. Q (Inr i)) s3"
      if "\<exists>y\<in>set (st_nodes (view s2)). same_address y ?node"
        and "view s3 = (view s2)\<lparr>st_nodes := map (\<lambda>y. if same_address y ?node then node_updates sub y ?node else y)
          (st_nodes (view s2))\<rparr>" for s3
      by (rule noted) (use that upsertedI(1) [OF node] v1 v2 in simp)
    show "wp (note_persisted g sub (p_Tag p) ?node) (\<lambda>i. Q (Inr i)) s3"
      if "\<forall>y\<in>set (st_nodes (view s2)). \<not> same_address y ?node" and "\<forall>y\<in>set (st_nodes (view s2)). n_ID y < i"
        and "view s3 = (view s2)\<lparr>st_nodes := st_nodes (view s2) @ [?node\<lparr>n_ID := i\<rparr>]\<rparr>" for i s3
      by (rule noted) (use that upsertedI(2) [OF node] v1 v2 in simp)
    show "Q (Inl (ExtErr e)) s3" if "view s3 = view s2" for e s3
      using err v1 v2 that by simp
  qed
qed

definition names_node :: "ProxyNode list \<Rightarrow> nat \<Rightarrow> parsedNode \<Rightarrow> bool" where
  "names_node rows i p \<longleftrightarrow> (\<exists>n\<in>set rows. n_ID n = i \<and> node_address n = parsed_address p)"

lemma names_node_kept:
  assumes "map kept rows' = map kept rows @ new" and "names_node rows i p"
  shows "names_node rows' i p"
proof -
  obtain n where n: "n \<in> set rows" "n_ID n = i" "node_address n = parsed_address p"
    using assms(2) by (auto simp: names_node_def)
  then have "kept n \<in> set (map kept rows')" using assms(1) by simp
  then obtain n' where "n' \<in> set rows'" "kept n' = kept n" by auto
  with n kept_address [of n' n] show ?thesis by (auto simp: names_node_def)
qed

definition imported ::
  "aead \<Rightarrow> parsedNode list \<Rightarrow> ProxyNode list \<Rightarrow> error + nat list \<Rightarrow> ProxyNode list \<Rightarrow> bool" where
  "imported c ps rows r rows' \<longleftrightarrow>
     (\<forall>ids. r = Inr ids \<longrightarrow> book c rows' = import_nodes ps (book c rows) \<and> list_all2 (names_node rows') ids ps) \<and>
     (\<exists>new. map kept rows' = map kept rows @ new) \<and> (unique_nodes rows \<longrightarrow> unique_nodes rows')"

lemma imported_Cons:
  assumes up: "upserted c sub p rows rows1" and n: "n \<in> set rows1" "node_address n = parsed_address p"
    and rest: "imported c ps rows1 r rows'"
  shows "imported c (p # ps) rows (case r of Inl err \<Rightarrow> Inl err | Inr ids \<Rightarrow> Inr ([n_ID n] @ ids)) rows'"
proof -
  obtain new where new: "map kept rows' = map kept rows1 @ new" using rest by (auto simp: imported_def)
  have "names_node rows' (n_ID n) p"
    by (rule names_node_kept [OF new]) (use n in \<open>auto simp: names_node_def\<close>)
  with rest new upserted_kept [OF up] upserted_unique [OF up] upserted_book [OF up] show ?thesis
    by (auto simp: imported_def import_nodes_def split: sum.splits)
qed

lemma wp_persistParsedNodes:
  assumes env: "sub_env g view secret"
  shows "wp (persistParsedNodes g sub ps)
    (\<lambda>r s'. imported (ss_cipher g) ps (st_nodes (view s)) r (st_nodes (view s'))) s"
proof (induction ps arbitrary: s)
  case Nil
  then show ?case by (simp add: imported_def import_nodes_def)
next
  case (Cons p ps)
  show ?case
    unfolding persistParsedNodes.simps wp_bind
  proof (rule wp_persist_one [OF env]; simp only: sum.case option.case wp_bind wp_return)
    show "imported (ss_cipher g) (p # ps) (st_nodes (view s)) (Inl e) (st_nodes (view s))"
      for e
      by (simp add: imported_def)
    show "wp (persistParsedNodes g sub ps) (\<lambda>rest s'. imported (ss_cipher g) (p # ps) (st_nodes (view s))
        (case rest of Inl err \<Rightarrow> Inl err | Inr ids \<Rightarrow> Inr ([n_ID n] @ ids)) (st_nodes (view s'))) s1" 
      if "upserted (ss_cipher g) sub p (st_nodes (view s)) (st_nodes (view s1))"
        and "n \<in> set (st_nodes (view s1))" and "node_address n = parsed_address p" for n s1
      by (rule wp_mono [OF Cons.IH]) (rule imported_Cons [OF that])
  qed
qed

section \<open>An instance\<close>

text \<open>A subscription that is always the same manual list.\<close>

definition mem_sub :: "mem sub_service" where
  "mem_sub = \<lparr>ss_W = mem_world, ss_C = mem_crypto, ss_J = mem_json, ss_F = no_formats, ss_cipher = mem_aead,
     ss_retry = DefaultConfig, ss_ctx = never_done,
     ss_Get = (\<lambda>url. State_Monad.return (Inr \<lparr>hr_StatusCode = 200, hr_Status = ''200 OK'',
       hr_Body = (print_entries two_entries, None)\<rparr>))\<rparr>"

interpretation mem_sub: sub_env mem_sub mem_view "''secret''"
proof (rule sub_env.intro)
  show "reliable (ss_W mem_sub) mem_view" using mem.reliable_axioms by (simp add: mem_sub_def)
  show "crypto_law (ss_C mem_sub) mem_view" using mem_crypto.crypto_law_axioms by (simp add: mem_sub_def)
  show "random_answers (ss_C mem_sub)" by (simp add: mem_sub_def mem_crypto_def random_answers_def)
qed (simp_all add: mem_sub_def mem_NewCipher, simp add: mem_aead_def)

lemma book_Nil [simp]: "book c [] = Map.empty"
  by (rule ext) (simp add: book_def)

section \<open>Properties of an import\<close>

text \<open>
  C4: Importing refines the update of the address book: when it succeeds, every address that the
  nodes name holds what the last node of that address says, credentials included, and every other
  address holds what it held.
\<close>

theorem persistParsedNodes_refines:
  assumes "sub_env g view secret"
  shows "wp (persistParsedNodes g subscriptionID nodes) (\<lambda>r s'. case r of Inl _ \<Rightarrow> True
    | Inr ids \<Rightarrow> book (ss_cipher g) (st_nodes (view s')) =
        import_nodes nodes (book (ss_cipher g) (st_nodes (view s)))) s"
  by (rule wp_mono [OF wp_persistParsedNodes [OF assms]]) (simp add: imported_def split: sum.splits)

definition two_nodes :: "parsedNode list" where
  "two_nodes = map (entry_node no_formats ''socks'') two_entries"

theorem persistParsedNodes_refines_witness:
  "wp (persistParsedNodes mem_sub (Some 3) two_nodes) (\<lambda>r s'. case r of Inl _ \<Rightarrow> True
    | Inr ids \<Rightarrow> book mem_aead (st_nodes (mem_view s')) = import_nodes two_nodes Map.empty) mem0"
  by (rule wp_mono [OF persistParsedNodes_refines [OF mem_sub.sub_env_axioms]])
    (simp add: mem_sub_def mem0_def mem_view_def book_def split: sum.splits)

text \<open>
  C21: However an import ends, every node that was in the table is there with its id, its address
  and what the health checks and the gateway have recorded of it, ids and addresses stay unique,
  and the ids returned are, in order, those of the nodes imported.
\<close>

theorem persistParsedNodes_keeps:
  assumes "sub_env g view secret" and "unique_nodes (st_nodes (view s))"
  shows "wp (persistParsedNodes g subscriptionID nodes) (\<lambda>r s'.
    (\<exists>new. map kept (st_nodes (view s')) = map kept (st_nodes (view s)) @ new) \<and>
    unique_nodes (st_nodes (view s')) \<and>
    (case r of Inl _ \<Rightarrow> True | Inr ids \<Rightarrow> list_all2 (names_node (st_nodes (view s'))) ids nodes)) s"
  by (rule wp_mono [OF wp_persistParsedNodes [OF assms(1)]]) (use assms(2) in \<open>simp add: imported_def split: sum.splits\<close>)

theorem persistParsedNodes_keeps_witness:
  "wp (persistParsedNodes mem_sub None two_nodes) (\<lambda>r s'.
    unique_nodes (st_nodes (mem_view s')) \<and>
    (case r of Inl _ \<Rightarrow> True | Inr ids \<Rightarrow> length ids = 2)) mem0"
  by (rule wp_mono [OF persistParsedNodes_keeps [OF mem_sub.sub_env_axioms]])
    (auto simp: mem0_def mem_view_def unique_nodes_def two_nodes_def two_entries_def dest: list_all2_lengthD split: sum.splits)

section \<open>Removing links and the nodes that lose their last one\<close>

definition linked :: "SubscriptionNode list \<Rightarrow> nat \<Rightarrow> bool" where
  "linked links i \<longleftrightarrow> (\<exists>l\<in>set links. l_NodeID l = i)"

text \<open>The stores after the links have become \<open>links\<close>: the nodes that lost their last link are gone.\<close>

definition relinked :: "SubscriptionNode list \<Rightarrow> store \<Rightarrow> store" where
  "relinked links v = v\<lparr>st_links := links,
     st_nodes := filter (\<lambda>n. linked (st_links v) (n_ID n) \<longrightarrow> linked links (n_ID n)) (st_nodes v)\<rparr>"

lemma relinked_trans:
  "set links' \<subseteq> set links \<Longrightarrow> set links \<subseteq> set (st_links v) \<Longrightarrow> relinked links' (relinked links v) = relinked links' v"
proof -
  assume sub: "set links' \<subseteq> set links" "set links \<subseteq> set (st_links v)"
  have "((linked (st_links v) i \<longrightarrow> linked links i) \<and> (linked links i \<longrightarrow> linked links' i)) =
      (linked (st_links v) i \<longrightarrow> linked links' i)" for i
    using sub by (auto simp: linked_def)
  then show ?thesis by (simp add: relinked_def)
qed

lemma relinked_remove:
  assumes "link \<in> set (st_links v)" and "links = filter (\<lambda>l. l \<noteq> link) (st_links v)"
  shows "relinked links v = (if linked links (l_NodeID link) then v\<lparr>st_links := links\<rparr>
    else v\<lparr>st_links := links, st_nodes := filter (\<lambda>n. n_ID n \<noteq> l_NodeID link) (st_nodes v)\<rparr>)"
proof -
  have "(linked (st_links v) i \<longrightarrow> linked links i) = (i = l_NodeID link \<longrightarrow> linked links (l_NodeID link))" for i
    using assms by (auto simp: linked_def)
  then show ?thesis by (simp only: relinked_def) simp
qed

lemma relinked_self [simp]: "relinked (st_links v) v = v"
  by (simp add: relinked_def)

lemma wp_delete_node:
  assumes "reliable (ss_W g) view"
    and "\<And>s'. tables view s' = (tables view s)\<lparr>st_nodes := filter (\<lambda>n. n_ID n \<noteq> n_ID node) (st_nodes (view s))\<rparr> \<Longrightarrow>
      Q (Inr ()) s'"
    and "\<And>e s'. Q (Inl e) s'"
  shows "wp (delete_node g node) Q s"
  unfolding delete_node_def wp_bind
  by (rule reliable.wp_Delete_nodes [OF assms(1)])
    (auto intro!: backend.wp_keeps_tables [OF reliable.is_backend [OF assms(1)] backend.cache_keeps_tables(2)
        [OF reliable.is_backend [OF assms(1)]]] assms(2,3))

lemma wp_drop_if_unlinked:
  assumes "reliable (ss_W g) view"
    and "\<And>s'. view s' = view s \<Longrightarrow> \<not> linked (st_links (view s)) i \<Longrightarrow> wp m Q s'"
    and "\<And>s'. view s' = view s \<Longrightarrow> linked (st_links (view s)) i \<Longrightarrow> Q (Inr ()) s'"
  shows "wp (drop_if_unlinked g i m) Q s"
proof -
  have "length (filter (\<lambda>l. l_NodeID l = i) links) = 0 \<longleftrightarrow> \<not> linked links i" for links
    by (auto simp: linked_def filter_empty_conv)
  then show ?thesis
    unfolding drop_if_unlinked_def wp_bind
    by (intro reliable.wp_Count_links [OF assms(1)]) (use assms(2,3) in auto)
qed

lemma wp_prune_link:
  assumes R: "reliable (ss_W g) view" and "link \<in> set (st_links (view s))" and "inj_on l_ID (set (st_links (view s)))"
    and Q: "\<And>s'. tables view s' = relinked (filter (\<lambda>l. l \<noteq> link) (st_links (view s))) (tables view s) \<Longrightarrow> Q (Inr ()) s'"
    and err: "\<And>e s'. Q (Inl e) s'"
  shows "wp (prune_link g link) Q s"
  unfolding prune_link_def wp_bind
proof (rule reliable.wp_Delete_links [OF R]; simp only: option.case wp_return)
  show "Q (Inl (ExtErr e)) s'" for e s' by (rule err)
next
  let ?links = "filter (\<lambda>l. l \<noteq> link) (st_links (view s))"
  have links: "filter (\<lambda>l. l_ID l \<noteq> l_ID link) (st_links (view s)) = ?links"
    using assms(2,3) by (intro filter_cong) (auto dest: inj_onD)
  note remove = relinked_remove [of link "tables view s", simplified, OF assms(2) refl]
  fix s1
  assume v1: "view s1 = (view s)\<lparr>st_links := filter (\<lambda>l. l_ID l \<noteq> l_ID link) (st_links (view s))\<rparr>"
  show "wp (drop_if_unlinked g (l_NodeID link) (do {
         node \<leftarrow> db_First (nodes_tbl (ss_W g)) (\<lambda>n. n_ID n = l_NodeID link);
         case node of Inl _ \<Rightarrow> State_Monad.return (Inr ()) | Inr node \<Rightarrow> delete_node g node
       })) Q s1"
  proof (rule wp_drop_if_unlinked [OF R])
    fix s2 assume "view s2 = view s1" and "linked (st_links (view s1)) (l_NodeID link)"
    then show "Q (Inr ()) s2" by (intro Q) (simp add: remove v1 links)
  next
    fix s2 assume v2: "view s2 = view s1" and none: "\<not> linked (st_links (view s1)) (l_NodeID link)"
    show "wp (do {
         node \<leftarrow> db_First (nodes_tbl (ss_W g)) (\<lambda>n. n_ID n = l_NodeID link);
         case node of Inl _ \<Rightarrow> State_Monad.return (Inr ()) | Inr node \<Rightarrow> delete_node g node
       }) Q s2"
      unfolding wp_bind
    proof (rule reliable.wp_First_nodes [OF R])
      fix s3 assume v3: "view s3 = view s2"
      show "wp (case first_answer (\<lambda>n. n_ID n = l_NodeID link) (st_nodes (view s2)) of
          Inl _ \<Rightarrow> State_Monad.return (Inr ()) | Inr node \<Rightarrow> delete_node g node) Q s3"
      proof (cases "find (\<lambda>n. n_ID n = l_NodeID link) (st_nodes (view s))")
        case None
        then have "filter (\<lambda>n. n_ID n \<noteq> l_NodeID link) (st_nodes (view s)) = st_nodes (view s)"
          by (auto simp: find_None_iff filter_id_conv)
        with None show ?thesis
          using none v1 v2 v3 by (auto simp: first_answer_def links remove intro!: Q)
      next
        case (Some n)
        then have "n_ID n = l_NodeID link" by (auto dest: find_SomeD)
        with Some show ?thesis
          using none v1 v2 v3
          by (auto simp: first_answer_def links remove intro!: wp_delete_node [OF R] Q err)
      qed
    qed
  qed
qed

lemma wp_each_prune:
  assumes R: "reliable (ss_W g) view"
    and "distinct xs" and "set xs \<subseteq> set (st_links (view s))" and "inj_on l_ID (set (st_links (view s)))"
  shows "wp (each (\<lambda>link. if l_NodeID link \<in> keep then State_Monad.return (Inr ()) else prune_link g link) xs)
    (\<lambda>r s'. r = Inr () \<longrightarrow> tables view s' = relinked
      (filter (\<lambda>l. l \<in> set xs \<longrightarrow> l_NodeID l \<in> keep) (st_links (view s))) (tables view s)) s"
  using assms(2-)
proof (induction xs arbitrary: s)
  case Nil
  then show ?case using relinked_self [of "tables view s"] by simp
next
  case (Cons x xs)
  let ?L = "\<lambda>xs s. filter (\<lambda>l. l \<in> set xs \<longrightarrow> l_NodeID l \<in> keep) (st_links (view s))"
  show ?case
  proof (cases "l_NodeID x \<in> keep")
    case True
    then have "?L (x # xs) s = ?L xs s" by (intro filter_cong) auto
    with Cons True show ?thesis by simp
  next
    case False
    have "wp (prune_link g x) (\<lambda>r. wp (case r of Inl err \<Rightarrow> State_Monad.return (Inl err)
        | Inr _ \<Rightarrow> each (\<lambda>link. if l_NodeID link \<in> keep then State_Monad.return (Inr ()) else prune_link g link) xs)
        (\<lambda>r s'. r = Inr () \<longrightarrow> tables view s' = relinked (?L (x # xs) s) (tables view s))) s"
    proof (rule wp_prune_link [OF R _ Cons.prems(3)]; (simp only: sum.case wp_return)?)
      show "x \<in> set (st_links (view s))" using Cons.prems by simp
      fix s1
      assume s1: "tables view s1 = relinked (filter (\<lambda>l. l \<noteq> x) (st_links (view s))) (tables view s)"
      then have L1: "st_links (view s1) = filter (\<lambda>l. l \<noteq> x) (st_links (view s))"
        by (auto simp: relinked_def dest: arg_cong [where f = st_links])
      have L: "?L xs s1 = ?L (x # xs) s" unfolding L1 filter_filter by (rule filter_cong) (use False Cons.prems(1) in auto)
      have "relinked (?L xs s1) (tables view s1) = relinked (?L (x # xs) s) (tables view s)"
        unfolding s1 L by (rule relinked_trans) (use False in auto)
      then show "wp (each (\<lambda>link. if l_NodeID link \<in> keep then State_Monad.return (Inr ()) else prune_link g link) xs)
          (\<lambda>r s'. r = Inr () \<longrightarrow> tables view s' = relinked (?L (x # xs) s) (tables view s)) s1"
        using Cons.IH [of s1] Cons.prems False by (auto simp: L1 inj_on_def)
    qed simp
    then show ?thesis using False by simp
  qed
qed

lemma wp_pruneSubscriptionNodes:
  assumes "reliable (ss_W g) view" and "distinct (map l_ID (st_links (view s)))"
  shows "wp (pruneSubscriptionNodes g subID importedIDs) (\<lambda>r s'. case r of Inl _ \<Rightarrow> True | Inr _ \<Rightarrow>
    tables view s' = relinked (filter (\<lambda>l. l_SubscriptionID l = subID \<longrightarrow> l_NodeID l \<in> set importedIDs)
      (st_links (view s))) (tables view s)) s"
  unfolding pruneSubscriptionNodes_def wp_bind
proof (rule reliable.wp_Find_links [OF assms(1)], simp only: sum.case)
  fix xs s1
  assume v1: "view s1 = view s" and "mset xs = filter_mset (\<lambda>l. l_SubscriptionID l = subID) (mset (st_links (view s)))"
  then have xs: "mset xs = mset (filter (\<lambda>l. l_SubscriptionID l = subID) (st_links (view s)))" by simp
  have inj: "inj_on l_ID (set (st_links (view s)))" and "distinct (st_links (view s))"
    using assms(2) by (auto simp: distinct_map)
  then have "distinct xs" using mset_eq_imp_distinct_iff [OF xs] by simp
  moreover have set_xs: "set xs = {l \<in> set (st_links (view s)). l_SubscriptionID l = subID}"
    using mset_eq_setD [OF xs] by auto
  ultimately have same: "filter (\<lambda>l. l \<in> set xs \<longrightarrow> l_NodeID l \<in> set importedIDs) (st_links (view s))
      = filter (\<lambda>l. l_SubscriptionID l = subID \<longrightarrow> l_NodeID l \<in> set importedIDs) (st_links (view s))"
    by (intro filter_cong) auto
  have sub: "set xs \<subseteq> set (st_links (view s))" using set_xs by blast
  show "wp (each (\<lambda>link. if l_NodeID link \<in> set importedIDs then State_Monad.return (Inr ()) else prune_link g link) xs)
      (\<lambda>r s'. case r of Inl _ \<Rightarrow> True | Inr _ \<Rightarrow> tables view s' = relinked
        (filter (\<lambda>l. l_SubscriptionID l = subID \<longrightarrow> l_NodeID l \<in> set importedIDs) (st_links (view s))) (tables view s)) s1"
    using wp_each_prune [OF assms(1) \<open>distinct xs\<close>, of s1 "set importedIDs"] inj sub
    by (auto simp: v1 same simp del: mem_Collect_eq elim!: wp_mono split: sum.splits)
qed

text \<open>
  C15: When pruning succeeds, the links left are those of other subscriptions and those to imported
  nodes; a node is deleted exactly when it loses its last link, so the nodes entered by hand and
  those of other subscriptions stay; nothing else in the database changes.
\<close>

theorem pruneSubscriptionNodes_exact:
  assumes "reliable (ss_W g) view" and "distinct (map l_ID (st_links (view s)))"
  shows "wp (pruneSubscriptionNodes g subID importedIDs) (\<lambda>r s'. case r of Inl _ \<Rightarrow> True | Inr _ \<Rightarrow>
    tables view s' = relinked (filter (\<lambda>l. l_SubscriptionID l = subID \<longrightarrow> l_NodeID l \<in> set importedIDs)
      (st_links (view s))) (tables view s)) s"
  by (rule wp_pruneSubscriptionNodes [OF assms])

lemma wp_each_drop:
  assumes R: "reliable (ss_W g) view"
  shows "wp (each (\<lambda>node. drop_if_unlinked g (n_ID node) (delete_node g node)) xs)
    (\<lambda>r s'. r = Inr () \<longrightarrow> tables view s' = (tables view s)\<lparr>st_nodes :=
      filter (\<lambda>n. n_ID n \<in> n_ID ` set xs \<longrightarrow> linked (st_links (view s)) (n_ID n)) (st_nodes (view s))\<rparr>) s"
proof (induction xs arbitrary: s)
  case (Cons x xs)
  let ?N = "\<lambda>xs s. filter (\<lambda>n. n_ID n \<in> n_ID ` set xs \<longrightarrow> linked (st_links (view s)) (n_ID n)) (st_nodes (view s))"
  have step: "wp (each (\<lambda>node. drop_if_unlinked g (n_ID node) (delete_node g node)) xs)
      (\<lambda>r s'. r = Inr () \<longrightarrow> tables view s' = (tables view s)\<lparr>st_nodes := ?N (x # xs) s\<rparr>) s1"
    if "tables view s1 = (tables view s)\<lparr>st_nodes := N1\<rparr>"
      and "filter (\<lambda>n. n_ID n \<in> n_ID ` set xs \<longrightarrow> linked (st_links (view s)) (n_ID n)) N1 = ?N (x # xs) s" for s1 N1
  proof -
    have "st_nodes (view s1) = N1" "st_links (view s1) = st_links (view s)"
      using arg_cong [OF that(1), of st_nodes] arg_cong [OF that(1), of st_links] by simp_all
    then show ?thesis using Cons.IH [of s1] that by simp
  qed
  show ?case
    unfolding each.simps wp_bind
  proof (rule wp_drop_if_unlinked [OF R])
    fix s1 assume v1: "view s1 = view s" and none: "\<not> linked (st_links (view s)) (n_ID x)"
    show "wp (delete_node g x) (\<lambda>r. wp (case r of Inl err \<Rightarrow> State_Monad.return (Inl err)
        | Inr _ \<Rightarrow> each (\<lambda>node. drop_if_unlinked g (n_ID node) (delete_node g node)) xs)
        (\<lambda>r s'. r = Inr () \<longrightarrow> tables view s' = (tables view s)\<lparr>st_nodes := ?N (x # xs) s\<rparr>)) s1"
      by (rule wp_delete_node [OF R]; simp only: sum.case wp_return)
        (rule step, simp add: v1, use none in \<open>auto intro!: filter_cong simp: v1\<close>)
  next
    fix s1 assume "view s1 = view s" and "linked (st_links (view s)) (n_ID x)"
    then show "wp (case Inr () of Inl err \<Rightarrow> State_Monad.return (Inl err)
        | Inr _ \<Rightarrow> each (\<lambda>node. drop_if_unlinked g (n_ID node) (delete_node g node)) xs)
        (\<lambda>r s'. r = Inr () \<longrightarrow> tables view s' = (tables view s)\<lparr>st_nodes := ?N (x # xs) s\<rparr>) s1"
      by (simp only: sum.case) (rule step [of _ "st_nodes (view s)"], auto intro!: filter_cong)
  qed
qed simp

definition one_link :: mem where
  "one_link = mem0\<lparr>mem_links := [zero_link\<lparr>l_ID := 1, l_SubscriptionID := 3, l_NodeID := 7\<rparr>],
     mem_nodes := [zero_node\<lparr>n_ID := 7\<rparr>, zero_node\<lparr>n_ID := 8\<rparr>]\<rparr>"

theorem pruneSubscriptionNodes_exact_witness:
  "wp (pruneSubscriptionNodes mem_sub 3 [8]) (\<lambda>r s'. case r of Inl _ \<Rightarrow> True | Inr _ \<Rightarrow>
    st_links (mem_view s') = [] \<and> map n_ID (st_nodes (mem_view s')) = [8]) one_link"
proof (rule wp_mono [OF pruneSubscriptionNodes_exact])
  show "reliable (ss_W mem_sub) mem_view" by (rule mem_sub.stores)
  show "distinct (map l_ID (st_links (mem_view one_link)))" by (simp add: one_link_def mem_view_def)
  fix r :: "error + unit" and s'
  assume "case r of Inl _ \<Rightarrow> True | Inr _ \<Rightarrow> tables mem_view s' = relinked
    (filter (\<lambda>l. l_SubscriptionID l = 3 \<longrightarrow> l_NodeID l \<in> set [8]) (st_links (mem_view one_link))) (tables mem_view one_link)"
  then show "case r of Inl _ \<Rightarrow> True | Inr _ \<Rightarrow> st_links (mem_view s') = [] \<and> map n_ID (st_nodes (mem_view s')) = [8]"
    by (auto simp: one_link_def mem_view_def zero_link_def relinked_def linked_def split: sum.splits)
qed

lemma nodes_losing_links:
  assumes links: "set links = {l \<in> set L. l_SubscriptionID l = subID}"
    and nodes: "set nodes = {n \<in> set N. n_ID n \<in> l_NodeID ` set links}"
    and L': "L' = filter (\<lambda>l. l_SubscriptionID l \<noteq> subID) L"
  shows "filter (\<lambda>n. n_ID n \<in> n_ID ` set nodes \<longrightarrow> linked L' (n_ID n)) N =
    filter (\<lambda>n. linked L (n_ID n) \<longrightarrow> linked L' (n_ID n)) N"
proof (rule filter_cong [OF refl])
  fix n assume "n \<in> set N"
  then have "n_ID n \<in> n_ID ` set nodes \<longleftrightarrow> (\<exists>l\<in>set L. l_SubscriptionID l = subID \<and> l_NodeID l = n_ID n)"
    unfolding nodes links image_iff by force
  then show "(n_ID n \<in> n_ID ` set nodes \<longrightarrow> linked L' (n_ID n)) = (linked L (n_ID n) \<longrightarrow> linked L' (n_ID n))"
    unfolding linked_def L' by auto
qed

text \<open>
  C26: When the deletion of a subscription succeeds, it and its links are gone, a node is deleted
  exactly when it loses its last link, and nothing else in the database changes.
\<close>

theorem Delete_subscription_exact:
  assumes "reliable (ss_W g) view"
  shows "wp (Delete_subscription g subID) (\<lambda>err s'. case err of Some _ \<Rightarrow> True | None \<Rightarrow>
    tables view s' = (relinked (filter (\<lambda>l. l_SubscriptionID l \<noteq> subID) (st_links (view s))) (tables view s))
      \<lparr>st_subs := filter (\<lambda>b. s_ID b \<noteq> subID) (st_subs (view s))\<rparr>) s"
  unfolding Delete_subscription_def nodes_of_subscription_def wp_bind
proof (rule reliable.wp_Find_links [OF assms], simp only: sum.case, rule reliable.wp_Find_nodes [OF assms],
    simp only: sum.case wp_bind)
  let ?L = "filter (\<lambda>l. l_SubscriptionID l \<noteq> subID) (st_links (view s))"
  fix links s1 nodes s2
  assume v: "view s1 = view s" "view s2 = view s"
    and links: "mset links = filter_mset (\<lambda>l. l_SubscriptionID l = subID) (mset (st_links (view s)))"
    and nodes: "mset nodes = filter_mset (\<lambda>n. n_ID n \<in> l_NodeID ` set links) (mset (st_nodes (view s)))"
  have set_links: "set links = {l \<in> set (st_links (view s)). l_SubscriptionID l = subID}"
    using arg_cong [OF links, of set_mset] by auto
  have set_nodes: "set nodes = {n \<in> set (st_nodes (view s)). n_ID n \<in> l_NodeID ` set links}"
    using arg_cong [OF nodes, of set_mset] v by auto
  note gone = nodes_losing_links [OF set_links set_nodes refl]
  have rest: "wp (each (\<lambda>node. drop_if_unlinked g (n_ID node) (delete_node g node)) nodes)
      (\<lambda>r. wp (case r of Inl e \<Rightarrow> State_Monad.return (Some e)
        | Inr _ \<Rightarrow> db_Delete (subs_tbl (ss_W g)) (\<lambda>b. s_ID b = subID))
        (\<lambda>err s'. case err of Some _ \<Rightarrow> True | None \<Rightarrow>
          tables view s' = (relinked ?L (tables view s))\<lparr>st_subs := filter (\<lambda>b. s_ID b \<noteq> subID) (st_subs (view s))\<rparr>)) s3"
    if "view s3 = (view s)\<lparr>st_links := ?L\<rparr>" for s3
  proof (rule wp_mono [OF wp_each_drop [OF assms]])
    fix r :: "error + unit" and s4
    assume each: "r = Inr () \<longrightarrow> tables view s4 = (tables view s3)\<lparr>st_nodes :=
      filter (\<lambda>n. n_ID n \<in> n_ID ` set nodes \<longrightarrow> linked (st_links (view s3)) (n_ID n)) (st_nodes (view s3))\<rparr>"
    show "wp (case r of Inl e \<Rightarrow> State_Monad.return (Some e)
        | Inr _ \<Rightarrow> db_Delete (subs_tbl (ss_W g)) (\<lambda>b. s_ID b = subID))
        (\<lambda>err s'. case err of Some _ \<Rightarrow> True | None \<Rightarrow>
          tables view s' = (relinked ?L (tables view s))\<lparr>st_subs := filter (\<lambda>b. s_ID b \<noteq> subID) (st_subs (view s))\<rparr>) s4"
    proof (cases r)
      case (Inr u)
      then have t4: "tables view s4 = relinked ?L (tables view s)"
        using each that gone by (simp add: relinked_def)
      have "st_subs (view s4) = st_subs (view s)"
        using arg_cong [OF t4, of st_subs] by (simp add: relinked_def)
      then show ?thesis
        unfolding Inr sum.case t4 [symmetric] by (intro reliable.wp_Delete_subs [OF assms]) simp_all
    qed simp
  qed
  show "wp (db_Delete (links_tbl (ss_W g)) (\<lambda>l. l_SubscriptionID l = subID))
      (\<lambda>err. wp (case err of None \<Rightarrow> do {
           r \<leftarrow> each (\<lambda>node. drop_if_unlinked g (n_ID node) (delete_node g node)) nodes;
           case r of Inl e \<Rightarrow> State_Monad.return (Some e) | Inr _ \<Rightarrow> db_Delete (subs_tbl (ss_W g)) (\<lambda>b. s_ID b = subID)
         } | Some e \<Rightarrow> State_Monad.return (Some e))
        (\<lambda>err s'. case err of Some _ \<Rightarrow> True | None \<Rightarrow>
          tables view s' = (relinked ?L (tables view s))\<lparr>st_subs := filter (\<lambda>b. s_ID b \<noteq> subID) (st_subs (view s))\<rparr>)) s2"
    by (rule reliable.wp_Delete_links [OF assms]; simp only: option.case wp_bind wp_return)
      (use rest v in simp)
qed

theorem Delete_subscription_exact_witness:
  "wp (Delete_subscription mem_sub 3) (\<lambda>err s'. case err of Some _ \<Rightarrow> True | None \<Rightarrow>
    st_links (mem_view s') = [] \<and> map n_ID (st_nodes (mem_view s')) = [8]) one_link"
proof (rule wp_mono [OF Delete_subscription_exact [OF mem_sub.stores]])
  fix err :: "error option" and s'
  assume "case err of Some _ \<Rightarrow> True | None \<Rightarrow> tables mem_view s' = (relinked (filter (\<lambda>l. l_SubscriptionID l \<noteq> 3)
      (st_links (mem_view one_link))) (tables mem_view one_link))
      \<lparr>st_subs := filter (\<lambda>b. s_ID b \<noteq> 3) (st_subs (mem_view one_link))\<rparr>"
  then show "case err of Some _ \<Rightarrow> True | None \<Rightarrow> st_links (mem_view s') = [] \<and> map n_ID (st_nodes (mem_view s')) = [8]"
    by (auto simp: one_link_def mem_view_def zero_link_def relinked_def linked_def split: option.splits)
qed

end
