(* ===== verification/SubSync.thy ===== *)
theory SubSync
  imports SubPersistProps
begin

text \<open>
  A synchronisation from end to end (\<^verbatim>\<open>Sync\<close> of \<^verbatim>\<open>internal/subscription/service.go\<close>): the document is
  fetched and parsed, its nodes are imported and linked, what the document no longer has is pruned.
  The refinement of the import and the exactness of pruning are composed over the tables between.
\<close>

section \<open>The fetch\<close>

text \<open>A service whose network leaves the database alone.\<close>

locale sub_fetch = sub_env +
  assumes get_keeps: "keeps (tables view) (ss_Get g url)"
    and err_keeps: "keeps (tables view) (ctx_Err (ss_ctx g))"
    and wait_keeps: "keeps (tables view) (ctx_wait (ss_ctx g) d)"
begin

lemma fetch_keeps: "keeps (tables view) (fetchSubscription g url)"
  unfolding fetchSubscription_def fetch_once_def
  by (intro keeps_retry err_keeps wait_keeps)
    (auto intro!: keeps_bind keeps_lift keeps_assign get_keeps split: sum.splits)

end

lemmas sub_fetchD = sub_fetch.axioms(1) sub_fetch.fetch_keeps

interpretation mem_sub: sub_fetch mem_sub mem_view "''secret''"
  by unfold_locales (simp_all add: mem_sub_def never_done_def)

section \<open>The links of an import\<close>

text \<open>From \<open>v\<close> to \<open>v'\<close> links of the subscription to nodes among \<open>ids\<close> were added, and besides only nodes written.\<close>

definition linked_to :: "nat \<Rightarrow> nat list \<Rightarrow> store \<Rightarrow> store \<Rightarrow> bool" where
  "linked_to subID ids v v' \<longleftrightarrow>
     (\<exists>new. st_links v' = st_links v @ new \<and> (\<forall>l\<in>set new. l_SubscriptionID l = subID \<and> l_NodeID l \<in> set ids)) \<and>
     (distinct (map l_ID (st_links v)) \<longrightarrow> distinct (map l_ID (st_links v'))) \<and>
     st_subs v' = st_subs v \<and> st_users v' = st_users v \<and> st_audit v' = st_audit v"

lemma linked_to_refl: "linked_to subID ids v v"
  by (simp add: linked_to_def)

lemma linked_to_rows: "linked_to subID ids v v' \<Longrightarrow> st_links w = st_links v' \<Longrightarrow> st_subs w = st_subs v' \<Longrightarrow>
    st_users w = st_users v' \<Longrightarrow> st_audit w = st_audit v' \<Longrightarrow> linked_to subID ids v w"
  by (simp add: linked_to_def)

lemma linked_to_trans:
  assumes "linked_to subID ids v v'" and "linked_to subID ids' v' v''"
  shows "linked_to subID (ids @ ids') v v''"
proof -
  obtain new where new: "st_links v' = st_links v @ new" "\<forall>l\<in>set new. l_SubscriptionID l = subID \<and> l_NodeID l \<in> set ids"
    using assms(1) unfolding linked_to_def by blast
  obtain new' where "st_links v'' = st_links v' @ new'" "\<forall>l\<in>set new'. l_SubscriptionID l = subID \<and> l_NodeID l \<in> set ids'"
    using assms(2) unfolding linked_to_def by blast
  with new have "st_links v'' = st_links v @ (new @ new')"
    "\<forall>l\<in>set (new @ new'). l_SubscriptionID l = subID \<and> l_NodeID l \<in> set (ids @ ids')" by auto
  then show ?thesis using assms unfolding linked_to_def by (intro conjI exI [of _ "new @ new'"]) simp_all
qed

lemma linked_to_mono: "linked_to subID ids v v' \<Longrightarrow> set ids \<subseteq> set ids' \<Longrightarrow> linked_to subID ids' v v'"
  unfolding linked_to_def by blast

lemma wp_link_node:
  assumes "reliable W view" and "\<And>s'. linked_to subID [nodeID] (view s) (view s') \<Longrightarrow> Q () s'"
  shows "wp (link_node W subID nodeID tag) Q s"
  unfolding link_node_def wp_bind
proof (rule reliable.wp_First_links [OF assms(1)])
  fix s1 assume v1: "view s1 = view s"
  have same: "Q () s'" if "view s' = view s1" for s' using assms(2) that v1 by (simp add: linked_to_refl)
  have create: "wp (db_Create (links_tbl W) link) (\<lambda>_. Q ()) s1"
    if "l_SubscriptionID link = subID" "l_NodeID link = nodeID" for link
    by (rule reliable.wp_Create_links [OF assms(1)])
      (use that v1 same in \<open>auto intro!: assms(2) simp: linked_to_def\<close>)
  show "wp (case first_answer (\<lambda>l. l_SubscriptionID l = subID \<and> l_NodeID l = nodeID) (st_links (view s)) of
      Inr _ \<Rightarrow> State_Monad.return ()
    | Inl err \<Rightarrow>
        if err = ErrRecordNotFound then do {
          _ \<leftarrow> db_Create (links_tbl W)
            (zero_link\<lparr>l_SubscriptionID := subID, l_NodeID := nodeID, l_RawTag := tag, l_AliasTag := tag\<rparr>);
          State_Monad.return ()
        }
        else State_Monad.return ()) Q s1"
    using same v1 create by (auto split: sum.split)
qed

lemma wp_persist_one_links:
  assumes env: "sub_env g view secret"
    and err: "\<And>e s'. linked_to subID [] (view s) (view s') \<Longrightarrow> Q (Inl e) s'"
    and ok: "\<And>i s'. linked_to subID (case i of Some i \<Rightarrow> [i] | None \<Rightarrow> []) (view s) (view s') \<Longrightarrow> Q (Inr i) s'"
  shows "wp (persist_one g (Some subID) p) Q s"
  unfolding persist_one_def note_persisted_def wp_bind Let_def option.case
proof (rule wp_Encrypt_stored [OF env], rule wp_Encrypt_stored [OF env])
  fix u s1 w s2
  assume v: "view s1 = view s" "view s2 = view s1"
  note R = sub_envD(1) [OF env]
  let ?node = "new_node p (or_empty (Inr u)) (or_empty (Inr w)) (Some subID)"
  have rest: "wp (db_First (nodes_tbl (ss_W g)) (\<lambda>n. same_address n ?node)) (\<lambda>persisted. wp (case persisted of
        Inl _ \<Rightarrow> State_Monad.return None
      | Inr persisted \<Rightarrow> do {
          _ \<leftarrow> link_node (ss_W g) subID (n_ID persisted) (p_Tag p);
          _ \<leftarrow> CacheNode (ss_W g) (ss_J g) persisted;
          State_Monad.return (Some (n_ID persisted)) }) (\<lambda>i. wp (State_Monad.return (Inr i)) Q)) s3"
    if s3: "linked_to subID [] (view s) (view s3)" for s3
  proof (rule reliable.wp_First_nodes [OF R])
    fix s4 assume v4: "view s4 = view s3"
    have linked: "wp (link_node (ss_W g) subID i (p_Tag p)) (\<lambda>_. wp (CacheNode (ss_W g) (ss_J g) n) (\<lambda>_. Q (Inr (Some i)))) s4"
      for i n
    proof (rule wp_link_node [OF R], rule wp_CacheNode_rows [OF sub_envD(2) [OF env]])
      fix s5 r s6
      assume "linked_to subID [i] (view s4) (view s5)" and t: "tables view s6 = tables view s5"
      then have "linked_to subID [i] (view s) (view s5)" using linked_to_trans [OF s3] v4 by simp
      then show "Q (Inr (Some i)) s6" by (intro ok) (auto intro: linked_to_rows simp: tables_eqD [of view s6 s5, OF t])
    qed
    show "wp (case first_answer (\<lambda>n. same_address n ?node) (st_nodes (view s3)) of
        Inl _ \<Rightarrow> State_Monad.return None
      | Inr persisted \<Rightarrow> do {
          _ \<leftarrow> link_node (ss_W g) subID (n_ID persisted) (p_Tag p);
          _ \<leftarrow> CacheNode (ss_W g) (ss_J g) persisted;
          State_Monad.return (Some (n_ID persisted)) }) (\<lambda>i. wp (State_Monad.return (Inr i)) Q) s4"
      using linked ok [of None] s3 v4 by (auto split: sum.split)
  qed
  show "wp (db_Upsert (nodes_tbl (ss_W g)) same_address (node_updates (Some subID)) ?node)
      (\<lambda>err. wp (case err of Some e \<Rightarrow> State_Monad.return (Inl e)
         | None \<Rightarrow> do { i \<leftarrow> do {
             persisted \<leftarrow> db_First (nodes_tbl (ss_W g)) (\<lambda>n. same_address n ?node);
             case persisted of
               Inl _ \<Rightarrow> State_Monad.return None
             | Inr persisted \<Rightarrow> do {
                 _ \<leftarrow> link_node (ss_W g) subID (n_ID persisted) (p_Tag p);
                 _ \<leftarrow> CacheNode (ss_W g) (ss_J g) persisted;
                 State_Monad.return (Some (n_ID persisted)) } };
             State_Monad.return (Inr i) }) Q) s2"
    by (rule reliable.wp_Upsert_nodes [OF R]; simp only: option.case wp_bind wp_return)
      (use rest err v in \<open>auto simp: linked_to_def\<close>)
qed

lemma wp_persist_links:
  assumes env: "sub_env g view secret"
  shows "wp (persistParsedNodes g (Some subID) ps)
    (\<lambda>r s'. \<forall>ids. r = Inr ids \<longrightarrow> linked_to subID ids (view s) (view s')) s"
proof (induction ps arbitrary: s)
  case Nil
  then show ?case by (simp add: linked_to_refl)
next
  case (Cons p ps)
  show ?case
    unfolding persistParsedNodes.simps wp_bind
  proof (rule wp_persist_one_links [OF env]; simp only: sum.case wp_bind wp_return)
    fix i s1
    assume "linked_to subID (case i of Some i \<Rightarrow> [i] | None \<Rightarrow> []) (view s) (view s1)"
    then show "wp (persistParsedNodes g (Some subID) ps)
        (\<lambda>rest s'. \<forall>ids. (case rest of Inl err \<Rightarrow> Inl err | Inr ids \<Rightarrow> Inr ((case i of Some i \<Rightarrow> [i] | None \<Rightarrow> []) @ ids)) = Inr ids \<longrightarrow>
           linked_to subID ids (view s) (view s')) s1"
      by (intro wp_mono [OF Cons.IH]) (auto split: sum.splits intro: linked_to_trans)
  qed simp
qed

section \<open>After a synchronisation\<close>

text \<open>
  What the document \<open>nodes\<close> of the subscription makes of the store \<open>v\<close>: each of its nodes is in the
  table under the id returned and holds what the document says; the links of the subscription lead to
  its nodes only and those of others are as before; of the nodes there were, those go that the
  subscription linked, the document has no more, and no other subscription links.
\<close>

definition other_links :: "nat \<Rightarrow> store \<Rightarrow> SubscriptionNode list" where
  "other_links subID v = filter (\<lambda>l. l_SubscriptionID l \<noteq> subID) (st_links v)"

definition synchronised :: "aead \<Rightarrow> nat \<Rightarrow> parsedNode list \<Rightarrow> nat list \<Rightarrow> store \<Rightarrow> store \<Rightarrow> bool" where
  "synchronised c subID nodes ids v v' \<longleftrightarrow>
     list_all2 (names_node (st_nodes v')) ids nodes \<and>
     (\<forall>p\<in>set nodes. book c (st_nodes v') (parsed_address p) = import_nodes nodes (book c (st_nodes v)) (parsed_address p)) \<and>
     (\<forall>l\<in>set (st_links v'). l_SubscriptionID l = subID \<longrightarrow> l_NodeID l \<in> set ids) \<and>
     other_links subID v' = other_links subID v \<and>
     (\<forall>n\<in>set (st_nodes v). n_ID n \<in> n_ID ` set (st_nodes v') \<longleftrightarrow>
        n_ID n \<in> set ids \<or> linked (other_links subID v) (n_ID n) \<or> \<not> linked (st_links v) (n_ID n))"

lemma names_node_filter: "names_node rows i p \<Longrightarrow> (\<And>n. n \<in> set rows \<Longrightarrow> n_ID n = i \<Longrightarrow> P n) \<Longrightarrow>
    names_node (filter P rows) i p"
  unfolding names_node_def by auto

lemma book_filter:
  assumes "distinct (map node_address rows)" and "n \<in> set rows" and "node_address n = a" and "P n"
  shows "book c (filter P rows) a = book c rows a"
proof -
  have "find (\<lambda>n. node_address n = a) rows = Some n"
    if "distinct (map node_address rows)" "n \<in> set rows" "node_address n = a" for rows
    using that by (induction rows) (auto simp: image_iff)
  moreover have "distinct (map node_address (filter P rows))" using assms(1) by (induction rows) auto
  ultimately show ?thesis using assms by (simp add: book_def)
qed

lemma list_all2_right: "list_all2 P xs ys \<Longrightarrow> y \<in> set ys \<Longrightarrow> \<exists>x\<in>set xs. P x y"
  by (induction rule: list_all2_induct) auto

lemma other_filter: "filter (\<lambda>l. l_SubscriptionID l \<noteq> subID) (filter (\<lambda>l. l_SubscriptionID l = subID \<longrightarrow> l_NodeID l \<in> ids) links) =
    filter (\<lambda>l. l_SubscriptionID l \<noteq> subID) links"
  by (induction links) auto

text \<open>The import, then the pruning.\<close>

lemma synchronisedI:
  assumes import_: "imported c nodes (st_nodes v) (Inr ids) (st_nodes mid)" and "unique_nodes (st_nodes v)"
    and links: "linked_to subID ids v mid"
    and L: "L = filter (\<lambda>l. l_SubscriptionID l = subID \<longrightarrow> l_NodeID l \<in> set ids) (st_links mid)"
    and v': "st_links v' = L" "st_nodes v' = st_nodes (relinked L mid)"
  shows "synchronised c subID nodes ids v v'"
proof -
  obtain new where new: "st_links mid = st_links v @ new" "\<forall>l\<in>set new. l_SubscriptionID l = subID \<and> l_NodeID l \<in> set ids"
    using links unfolding linked_to_def by blast
  obtain rows where rows: "map kept (st_nodes mid) = map kept (st_nodes v) @ rows"
    using import_ unfolding imported_def by blast
  let ?stays = "\<lambda>n. linked (st_links mid) (n_ID n) \<longrightarrow> linked L (n_ID n)"
  have nodes: "st_nodes v' = filter ?stays (st_nodes mid)" using v'(2) by (simp add: relinked_def)
  have stays: "?stays n \<longleftrightarrow> n_ID n \<in> set ids \<or> linked (other_links subID v) (n_ID n) \<or> \<not> linked (st_links v) (n_ID n)" for n
    using new by (auto simp: L linked_def other_links_def)
  have named: "list_all2 (names_node (st_nodes mid)) ids nodes"
    and booked: "book c (st_nodes mid) = import_nodes nodes (book c (st_nodes v))"
    and unique: "distinct (map node_address (st_nodes mid))"
    using import_ assms(2) unfolding imported_def unique_nodes_def by auto
  have "list_all2 (names_node (st_nodes v')) ids nodes"
    unfolding nodes by (rule list.rel_mono_strong [OF named]) (intro names_node_filter, use stays in auto)
  moreover have "book c (st_nodes v') (parsed_address p) = import_nodes nodes (book c (st_nodes v)) (parsed_address p)"
    if p: "p \<in> set nodes" for p
  proof -
    obtain i where "i \<in> set ids" "names_node (st_nodes mid) i p"
      using list_all2_right [OF named p] by blast
    then obtain n where "n \<in> set (st_nodes mid)" "node_address n = parsed_address p" "?stays n"
      unfolding names_node_def using stays by blast
    from book_filter [OF unique this(1,2), of ?stays c] this(3) show ?thesis unfolding nodes booked by blast
  qed
  moreover have "n_ID n \<in> n_ID ` set (st_nodes v') \<longleftrightarrow>
      n_ID n \<in> set ids \<or> linked (other_links subID v) (n_ID n) \<or> \<not> linked (st_links v) (n_ID n)"
    if "n \<in> set (st_nodes v)" for n
  proof -
    have "kept n \<in> set (map kept (st_nodes mid))" using rows that by simp
    then obtain n' where "n' \<in> set (st_nodes mid)" "kept n' = kept n" by auto
    then have "n_ID n \<in> n_ID ` set (st_nodes mid)" using kept_address [of n' n] by (metis imageI)
    then show ?thesis unfolding nodes using stays [of n] by (auto simp: stays image_iff)
  qed
  moreover have "other_links subID v' = other_links subID v"
    using new other_filter [of subID "set ids" "st_links v"] by (simp add: v'(1) L other_links_def filter_empty_conv del: filter_filter)
  ultimately show ?thesis unfolding synchronised_def by (auto simp: v'(1) L)
qed

definition stamped :: "nat \<Rightarrow> time \<Rightarrow> Subscription list \<Rightarrow> Subscription list" where
  "stamped subID now = map (\<lambda>b. if s_ID b = subID then b\<lparr>s_LastSyncAt := Some now\<rparr> else b)"

lemma wp_sync_import:
  assumes F: "sub_fetch g view secret" and unique: "unique_nodes (st_nodes (view s))"
    and ids: "distinct (map l_ID (st_links (view s)))"
    and err: "\<And>e s'. Q (f e) s'"
    and ok: "\<And>ids mid s'. imported (ss_cipher g) nodes (st_nodes (view s)) (Inr ids) (st_nodes mid) \<Longrightarrow>
      linked_to subID ids (view s) mid \<Longrightarrow> tables view s' = relinked
        (filter (\<lambda>l. l_SubscriptionID l = subID \<longrightarrow> l_NodeID l \<in> set ids) (st_links mid)) (mid\<lparr>st_keys := Map.empty\<rparr>) \<Longrightarrow>
      wp (h ids) Q s'"
  shows "wp (persistParsedNodes g (Some subID) nodes) (\<lambda>imported. wp (case imported of
        Inl e \<Rightarrow> State_Monad.return (f e)
      | Inr ids \<Rightarrow> do {
          pruned \<leftarrow> pruneSubscriptionNodes g subID ids;
          case pruned of Inl e \<Rightarrow> State_Monad.return (f e) | Inr _ \<Rightarrow> h ids
        }) Q) s"
proof (rule wp_mono [OF wp_conj [OF wp_persistParsedNodes [where sub = "Some subID"] wp_persist_links]])
  show env: "sub_env g view secret" "sub_env g view secret" by (rule sub_fetchD(1) [OF F])+
  fix r s1
  assume r: "imported (ss_cipher g) nodes (st_nodes (view s)) r (st_nodes (view s1)) \<and>
    (\<forall>ids. r = Inr ids \<longrightarrow> linked_to subID ids (view s) (view s1))"
  show "wp (case r of Inl e \<Rightarrow> State_Monad.return (f e)
    | Inr ids \<Rightarrow> do {
        pruned \<leftarrow> pruneSubscriptionNodes g subID ids;
        case pruned of Inl e \<Rightarrow> State_Monad.return (f e) | Inr _ \<Rightarrow> h ids }) Q s1"
  proof (cases r)
    case (Inr i)
    then have lt: "linked_to subID i (view s) (view s1)" using r by blast
    then have "distinct (map l_ID (st_links (view s1)))" using ids unfolding linked_to_def by blast
    from wp_pruneSubscriptionNodes [OF sub_envD(1) [OF env(1)] this, of subID i] show ?thesis
      unfolding Inr sum.case wp_bind
      by (rule wp_mono) (use r Inr lt in \<open>auto split: sum.splits intro: err ok\<close>)
  qed (simp add: err)
qed

lemma keepsD: "keeps obs m \<Longrightarrow> run_state m s = (r, s') \<Longrightarrow> obs s' = obs s"
  unfolding keeps_def by blast

lemma sync_agrees:
  assumes w: "tables view s2 = tables view s" and "unique_nodes (st_nodes (view s))"
    and "imported c nodes (st_nodes (view s2)) (Inr ids) (st_nodes mid)"
    and "linked_to subID ids (view s2) mid"
    and pruned: "tables view s3 = relinked
      (filter (\<lambda>l. l_SubscriptionID l = subID \<longrightarrow> l_NodeID l \<in> set ids) (st_links mid)) (mid\<lparr>st_keys := Map.empty\<rparr>)"
    and stamp: "view s4 = (view s3)\<lparr>st_subs := stamped subID now (st_subs (view s3))\<rparr>"
  shows "synchronised c subID nodes ids (view s) (view s4) \<and> length ids = length nodes \<and>
    st_subs (view s4) = stamped subID now (st_subs (view s)) \<and>
    st_users (view s4) = st_users (view s) \<and> st_audit (view s4) = st_audit (view s)"
proof -
  note same = tables_eqD [of view s2 s, OF w]
  let ?L = "filter (\<lambda>l. l_SubscriptionID l = subID \<longrightarrow> l_NodeID l \<in> set ids) (st_links mid)"
  have lt: "linked_to subID ids (view s) mid" using assms(4) same by (simp add: linked_to_def)
  have s3: "st_links (view s3) = ?L" "st_nodes (view s3) = st_nodes (relinked ?L mid)" "st_subs (view s3) = st_subs mid"
    "st_users (view s3) = st_users mid" "st_audit (view s3) = st_audit mid"
    using arg_cong [OF pruned, of st_links] arg_cong [OF pruned, of st_nodes] arg_cong [OF pruned, of st_subs]
      arg_cong [OF pruned, of st_users] arg_cong [OF pruned, of st_audit] by (simp_all add: relinked_def)
  have "synchronised c subID nodes ids (view s) (view s4)"
    by (rule synchronisedI [OF _ assms(2) lt refl]) (use assms(3) same s3 stamp in simp_all)
  moreover have "length ids = length nodes" using assms(3) by (auto simp: imported_def dest: list_all2_lengthD)
  ultimately show ?thesis using lt s3 stamp by (simp add: linked_to_def)
qed

lemma wp_stamp:
  assumes "reliable W view"
    and "\<And>now s'. view s' = (view s)\<lparr>st_subs := stamped subID now (st_subs (view s))\<rparr> \<Longrightarrow> Q a s'"
    and "\<And>e s'. Q (f e) s'"
  shows "wp (do {
      now \<leftarrow> time_Now W;
      err \<leftarrow> db_Updates (subs_tbl W) (\<lambda>b. s_ID b = subID) (\<lambda>b. b\<lparr>s_LastSyncAt := Some now\<rparr>);
      State_Monad.return (case err of Some e \<Rightarrow> f e | None \<Rightarrow> a) }) Q s"
  unfolding wp_bind wp_return
  by (rule reliable.wp_time_Now [OF assms(1)], rule reliable.wp_Updates_subs [OF assms(1)])
    (use assms(2,3) in \<open>simp_all add: stamped_def\<close>)

lemma wp_Sync:
  assumes F: "sub_fetch g view secret" and unique: "unique_nodes (st_nodes (view s))"
    and ids: "distinct (map l_ID (st_links (view s)))"
    and err: "\<And>e m' s'. Q ((\<lparr>sr_SubscriptionID = subID, sr_ImportedNodeIDs = [], sr_ImportedCount = 0\<rparr>, Some e), m') s'"
    and ok: "\<And>sub body nodes s1 s2 ids now s'. find (\<lambda>b. s_ID b = subID) (st_subs (view s)) = Some sub \<Longrightarrow>
      view s1 = view s \<Longrightarrow> run_state (fetchSubscription g (s_URL sub)) s1 = ((None, body), s2) \<Longrightarrow>
      parseSubscriptionBody (ss_F g) (s_Type sub) body = Inr nodes \<Longrightarrow>
      synchronised (ss_cipher g) subID nodes ids (view s) (view s') \<and> length ids = length nodes \<and>
        st_subs (view s') = stamped subID now (st_subs (view s)) \<and>
        st_users (view s') = st_users (view s) \<and> st_audit (view s') = st_audit (view s) \<Longrightarrow>
      Q ((\<lparr>sr_SubscriptionID = subID, sr_ImportedNodeIDs = ids, sr_ImportedCount = length ids\<rparr>, None),
        map_option IncSubscriptionSync m) s'"
  shows "wp (Sync g subID m) Q s"
  unfolding Sync_def Let_def wp_bind
proof (rule reliable.wp_First_subs [OF sub_envD(1) [OF sub_fetchD(1) [OF F]]], goal_cases)
  case (1 s1)
  note R = sub_envD(1) [OF sub_fetchD(1) [OF F]]
  show ?case
  proof (cases "find (\<lambda>b. s_ID b = subID) (st_subs (view s))")
    case (Some sub)
    have sub: "s_ID sub = subID" using find_SomeD [OF Some] by simp
    show ?thesis
      unfolding first_answer_def Some option.case sum.case wp_bind sub
    proof (rule wp_runI, goal_cases)
      case (1 fetched s2)
      obtain e body where f: "fetched = (e, body)" by (cases fetched)
      have t2: "tables view s2 = tables view s" using keepsD [OF sub_fetchD(2) [OF F] 1] \<open>view s1 = view s\<close> by simp
      note rows = tables_eqD [of view s2 s, OF t2]
      show ?case
      proof (cases e)
        case None
        show ?thesis
        proof (cases "parseSubscriptionBody (ss_F g) (s_Type sub) body")
          case (Inr nodes)
          show ?thesis
            unfolding f None prod.case option.case Inr sum.case wp_bind
            by (rule wp_sync_import [OF F], simp_all only: rows unique ids err SyncResult.update_convs)
              (rule wp_stamp [OF R], rule ok [OF Some \<open>view s1 = view s\<close> 1 [unfolded f None] Inr],
                rule sync_agrees [of view s2 s, OF t2 unique], simp_all add: err rows)
        qed (simp add: f None err)
      qed (simp add: f err)
    qed
  qed (simp add: first_answer_def err)
qed


definition one_sub :: mem where
  "one_sub = one_link\<lparr>mem_nodes := [zero_node\<lparr>n_ID := 7, n_Host := ''a''\<rparr>, zero_node\<lparr>n_ID := 8, n_Host := ''b''\<rparr>], mem_subs := [\<lparr>s_ID = 3, s_Name = ''list'', s_Type = ''manual'', s_URL = ''http://h/l'', s_Enabled = True,
     s_SyncIntervalSeconds = 60, s_LastSyncAt = None, s_Remark = []\<rparr>]\<rparr>"

lemma mem_sub_fetch:
  assumes "run_state (fetchSubscription mem_sub url) s = ((None, body), s')"
  shows "body = print_entries two_entries"
  using assms
  by (simp add: fetchSubscription_def fetch_once_def Do_retry_def mem_sub_def DefaultConfig_def never_done_def
      lift_context_def with_var_def lift_state_def assign_def run_state_bind numeral_eq_Suc del: print_entries_def)

lemma manual_is_manual: "parseSubscriptionBody F ''manual'' body = ParseManualProxyList F body ''http''"
proof -
  have "ToLower (TrimSpace ''manual'') = ''manual''" by code_simp
  then show ?thesis by (simp add: parseSubscriptionBody_def)
qed

lemma mem_sub_document: "parseSubscriptionBody no_formats ''manual'' (print_entries two_entries) =
    Inr (map (entry_node no_formats ''http'') two_entries)"
  unfolding manual_is_manual
proof (rule parse_print_entries [OF _ two_entries_ok])
  show "ToLower (TrimSpace ''http'') = ''http''" by code_simp
  then show "isSupportedOutboundProtocol ''http''" by (simp add: isSupportedOutboundProtocol_def)
qed (simp_all add: two_entries_def)


end
