(* ===== verification/Selector.thy ===== *)
theory Selector
  imports Quota
begin

text \<open>
  Package \<^verbatim>\<open>selector\<close> (\<^verbatim>\<open>internal/selector/service.go\<close>): the two forms of the proxy user name
  (\<^verbatim>\<open>uid__key=value\<close> and \<^verbatim>\<open>uid-key-value\<close>) and the choice of a node for a user and a filter: the
  sticky node of the session, else a random one of the candidates, which are looked up in the
  Redis indexes and, when these give none, in the database.  \<open>H\<close> is SHA-1.
\<close>

section \<open>User names\<close>

record Filters =
  f_Region :: string
  f_State :: string
  f_City :: string
  f_ASN :: string
  f_ISP :: string
  f_SID :: string

definition no_filters :: Filters where
  "no_filters = \<lparr>f_Region = [], f_State = [], f_City = [], f_ASN = [], f_ISP = [], f_SID = []\<rparr>"

text \<open>The \<^verbatim>\<open>switch\<close> that both parsers share.\<close>

definition set_filter :: "string \<Rightarrow> string \<Rightarrow> Filters \<Rightarrow> Filters" where
  "set_filter key value f =
     (if key = ''region'' then f\<lparr>f_Region := value\<rparr>
      else if key = ''st'' \<or> key = ''state'' then f\<lparr>f_State := value\<rparr>
      else if key = ''city'' then f\<lparr>f_City := value\<rparr>
      else if key = ''asn'' then f\<lparr>f_ASN := value\<rparr>
      else if key = ''isp'' then f\<lparr>f_ISP := value\<rparr>
      else if key = ''sid'' then f\<lparr>f_SID := value\<rparr>
      else f)"

fun legacy_filters :: "string list \<Rightarrow> Filters \<Rightarrow> Filters" where
  "legacy_filters [] f = f"
| "legacy_filters (part # parts) f =
     (case SplitN2 part ''='' of
        [k, v] \<Rightarrow> legacy_filters parts (set_filter k v f)
      | _ \<Rightarrow> legacy_filters parts f)"

definition parseLegacyUsername :: "string \<Rightarrow> string \<times> Filters" where
  "parseLegacyUsername raw =
     (case Split raw ''__'' of
        [] \<Rightarrow> ([], no_filters)
      | uid # parts \<Rightarrow> (uid, legacy_filters parts no_filters))"

text \<open>The loop takes the parts after the first in pairs and ignores an odd last one.\<close>

fun dash_filters :: "string list \<Rightarrow> Filters \<Rightarrow> Filters" where
  "dash_filters (k # v # parts) f = dash_filters parts (set_filter (TrimSpace k) (TrimSpace v) f)"
| "dash_filters _ f = f"

definition parseDashUsername :: "string \<Rightarrow> string \<times> Filters" where
  "parseDashUsername raw =
     (let raw = TrimSpace raw
      in if raw = [] then ([], no_filters)
         else case Split raw ''-'' of
           [] \<Rightarrow> ([], no_filters)
         | p # parts \<Rightarrow> (TrimSpace p, if parts = [] then no_filters else dash_filters parts no_filters))"

definition ParseUsername :: "string \<Rightarrow> string \<times> Filters" where
  "ParseUsername raw = (if Contains raw ''__'' then parseLegacyUsername raw else parseDashUsername raw)"

section \<open>Choosing a node\<close>

definition hex_digit :: "nat \<Rightarrow> char" where
  "hex_digit n = ''0123456789abcdef'' ! n"

definition hex_EncodeToString :: "string \<Rightarrow> string" where
  "hex_EncodeToString s = concat (map (\<lambda>c. [hex_digit (byte_of c div 16), hex_digit (byte_of c mod 16)]) s)"

definition filter_string :: "Filters \<Rightarrow> string" where
  "filter_string f = f_Region f @ ''|'' @ f_State f @ ''|'' @ f_City f @ ''|'' @ f_ASN f @ ''|'' @ f_ISP f"

definition FilterHash :: "(string \<Rightarrow> string) \<Rightarrow> Filters \<Rightarrow> string" where
  "FilterHash H f = hex_EncodeToString (H (filter_string f))"

text \<open>\<open>Inr None\<close>: no answer from the indexes (\<^verbatim>\<open>ok\<close> false).\<close>

definition matchNodeIDs :: "'s world \<Rightarrow> Filters \<Rightarrow> ('s, error + nat list option) state" where
  "matchNodeIDs W f =
     (let sets = [''healthy_nodes''] @
            (if f_Region f \<noteq> [] \<and> f_State f = [] then [RegionKey (f_Region f)] else [])
      in if f_State f \<noteq> [] then State_Monad.return (Inr None)
         else
           let sets = sets @
                 (if f_City f \<noteq> [] then [CityKey (f_City f)] else []) @
                 (if f_ASN f \<noteq> [] then [ASNKey (f_ASN f)] else []) @
                 (if f_ISP f \<noteq> [] then [ISPKey (f_ISP f)] else [])
           in if length sets = 1 \<and> f_ISP f = [] then do {
                members \<leftarrow> redis_SMembers W ''healthy_nodes'';
                State_Monad.return (case members of
                    Inl err \<Rightarrow> Inl err
                  | Inr ms \<Rightarrow> Inr (Some (ParseUintMembers ms)))
              }
              else if length sets \<le> 1 then State_Monad.return (Inr None)
              else do {
                members \<leftarrow> redis_SInter W sets;
                State_Monad.return (case members of
                    Inl err \<Rightarrow> Inl err
                  | Inr ms \<Rightarrow> Inr (Some (ParseUintMembers ms)))
              })"

primrec load_candidates :: "'s world \<Rightarrow> node_json \<Rightarrow> Filters \<Rightarrow> nat list \<Rightarrow> ('s, ProxyNode list) state" where
  "load_candidates W J f [] = State_Monad.return []"
| "load_candidates W J f (i # ids) = do {
     loaded \<leftarrow> LoadNode W J i;
     nodes \<leftarrow> load_candidates W J f ids;
     State_Monad.return (case loaded of
         Inl _ \<Rightarrow> nodes
       | Inr node \<Rightarrow>
           if n_Healthy node \<and> \<not> n_Disabled node \<and>
              (f_ISP f = [] \<or> n_ISP node = f_ISP f \<or> n_Org node = f_ISP f)
           then node # nodes else nodes)
   }"

text \<open>The conditions of the query of the fallback.\<close>

definition db_match :: "Filters \<Rightarrow> ProxyNode \<Rightarrow> bool" where
  "db_match f n \<longleftrightarrow> n_Healthy n \<and> \<not> n_Disabled n \<and>
     (f_Region f \<noteq> [] \<longrightarrow>
        n_Country n = f_Region f \<or> n_DetectedRegion n = f_Region f \<or> n_ExpectedRegion n = f_Region f) \<and>
     (f_State f \<noteq> [] \<longrightarrow> n_DetectedRegion n = f_State f) \<and>
     (f_City f \<noteq> [] \<longrightarrow> n_City n = f_City f) \<and>
     (f_ASN f \<noteq> [] \<longrightarrow> n_ASN n = f_ASN f) \<and>
     (f_ISP f \<noteq> [] \<longrightarrow> n_ISP n = f_ISP f \<or> n_Org n = f_ISP f)"

definition candidates :: "'s world \<Rightarrow> node_json \<Rightarrow> Filters \<Rightarrow> ('s, error + ProxyNode list) state" where
  "candidates W J f = do {
     matched \<leftarrow> matchNodeIDs W f;
     case matched of
       Inl err \<Rightarrow> State_Monad.return (Inl err)
     | Inr ids \<Rightarrow> do {
         nodes \<leftarrow> load_candidates W J f (case ids of None \<Rightarrow> [] | Some ids \<Rightarrow> ids);
         if nodes \<noteq> [] then State_Monad.return (Inr nodes)
         else db_Find (nodes_tbl W) (db_match f)
       }
   }"

definition sticky_lookup :: "'s world \<Rightarrow> string \<Rightarrow> ('s, ProxyNode option) state" where
  "sticky_lookup W stickyKey = do {
     r \<leftarrow> redis_Get W stickyKey;
     case Uint64 r of
       Inl _ \<Rightarrow> State_Monad.return None
     | Inr nodeID \<Rightarrow> do {
         found \<leftarrow> db_First (nodes_tbl W) (\<lambda>n. n_ID n = nodeID \<and> n_Healthy n \<and> \<not> n_Disabled n);
         case found of
           Inr node \<Rightarrow> State_Monad.return (Some node)
         | Inl _ \<Rightarrow> do { _ \<leftarrow> redis_Del W [stickyKey]; State_Monad.return None }
       }
   }"

definition Pick ::
  "'s world \<Rightarrow> node_json \<Rightarrow> (string \<Rightarrow> string) \<Rightarrow> duration \<Rightarrow> string \<Rightarrow> Filters \<Rightarrow> ('s, error + ProxyNode) state" where
  "Pick W J H stickyTTL uid f = do {
     let stickyKey = StickyKey uid (FilterHash H f) (f_SID f);
     sticky \<leftarrow> (if f_SID f \<noteq> [] then sticky_lookup W stickyKey else State_Monad.return None);
     case sticky of
       Some node \<Rightarrow> State_Monad.return (Inr node)
     | None \<Rightarrow> do {
         nodes \<leftarrow> candidates W J f;
         case nodes of
           Inl err \<Rightarrow> State_Monad.return (Inl err)
         | Inr nodes \<Rightarrow>
             if nodes = [] then State_Monad.return (Inl ErrNoHealthyNode)
             else do {
               i \<leftarrow> rand_Intn W (length nodes);
               let node = nodes ! i;
               _ \<leftarrow> (if f_SID f \<noteq> [] then redis_Set W stickyKey (show_nat (n_ID node)) stickyTTL
                    else State_Monad.return None);
               State_Monad.return (Inr node)
             }
       }
   }"

section \<open>What the candidates are\<close>

text \<open>The ids the indexes give for a filter.\<close>

definition index_sets :: "Filters \<Rightarrow> string list" where
  "index_sets f =
     ''healthy_nodes'' #
     (if f_Region f \<noteq> [] then [RegionKey (f_Region f)] else []) @
     (if f_City f \<noteq> [] then [CityKey (f_City f)] else []) @
     (if f_ASN f \<noteq> [] then [ASNKey (f_ASN f)] else []) @
     (if f_ISP f \<noteq> [] then [ISPKey (f_ISP f)] else [])"

lemma index_sets_keys: "k \<in> set (index_sets f) \<Longrightarrow> index_key k \<or> k = ''healthy_nodes''"
  by (auto simp: index_sets_def index_key_def RegionKey_def CityKey_def ASNKey_def ISPKey_def
      HasPrefix_def split: if_splits)

lemma typed_index_sets: "typed_sets m \<Longrightarrow> k \<in> set (index_sets f) \<Longrightarrow> set_key m k"
  using index_sets_keys by (auto simp: typed_sets_def)

lemma ParseUintMembers_set: "set (ParseUintMembers xs) = {i. \<exists>x\<in>set xs. ParseUint x = Some i}"
  by (induction xs) (auto split: option.splits)

definition indexed_ids :: "keyspace \<Rightarrow> Filters \<Rightarrow> nat set" where
  "indexed_ids m f = {i. i < 2 ^ 64 \<and> (\<forall>k\<in>set (index_sets f). show_nat i \<in> members m k)}"

lemma parsed_members:
  assumes "canonical m" and "set xs = {x. \<forall>k\<in>set (index_sets f). x \<in> members m k}"
  shows "set (ParseUintMembers xs) = indexed_ids m f"
proof -
  have "''healthy_nodes'' \<in> set (index_sets f)" by (simp add: index_sets_def)
  then have "\<exists>i < 2 ^ 64. x = show_nat i" if "x \<in> set xs" for x
    using that assms index_sets_keys unfolding canonical_def by blast
  then show ?thesis
    using assms(2) by (fastforce simp: ParseUintMembers_set indexed_ids_def)
qed

context reliable
begin

lemma wp_matchNodeIDs:
  assumes "typed_sets (st_keys (view s))" and "canonical (st_keys (view s))"
    and "\<And>s' ids. view s' = view s \<Longrightarrow>
      (case ids of None \<Rightarrow> f_State f \<noteq> []
       | Some ids \<Rightarrow> f_State f = [] \<and> set ids = indexed_ids (st_keys (view s)) f) \<Longrightarrow> Q (Inr ids) s'"
  shows "wp (matchNodeIDs W f) Q s"
proof (cases "f_State f = []")
  case False
  then show ?thesis using assms(3) by (simp add: matchNodeIDs_def Let_def)
next
  case st: True
  let ?m = "st_keys (view s)"
  have typed: "list_all (set_key ?m) (index_sets f)"
    using typed_index_sets [OF assms(1)] by (simp add: list_all_iff)
  have answer: "Q (Inr (Some (ParseUintMembers xs))) s'"
    if "view s' = view s" "set xs = {x. \<forall>k\<in>set (index_sets f). x \<in> members ?m k}" for xs s'
    using assms(3) that parsed_members [OF assms(2) that(2)] st by simp
  have prog: "matchNodeIDs W f = (if length (index_sets f) = 1 then
       redis_SMembers W ''healthy_nodes'' \<bind> (\<lambda>members. State_Monad.return (case members of
          Inl err \<Rightarrow> Inl err | Inr ms \<Rightarrow> Inr (Some (ParseUintMembers ms))))
     else redis_SInter W (index_sets f) \<bind> (\<lambda>members. State_Monad.return (case members of
          Inl err \<Rightarrow> Inl err | Inr ms \<Rightarrow> Inr (Some (ParseUintMembers ms)))))"
    using st by (simp add: matchNodeIDs_def index_sets_def Let_def)
  show ?thesis
  proof (cases "length (index_sets f) = 1")
    case True
    then have one: "index_sets f = [''healthy_nodes'']"
      by (auto simp: index_sets_def split: if_splits)
    show ?thesis
      unfolding prog if_P [OF True] wp_bind wp_return
      by (rule wp_redis_SMembers) (use answer typed one in auto)
  next
    case False
    show ?thesis
      unfolding prog if_not_P [OF False] wp_bind wp_return
      by (rule wp_redis_SInter) (use answer typed in \<open>auto simp: index_sets_def\<close>)
  qed
qed

end

definition usable :: "Filters \<Rightarrow> ProxyNode \<Rightarrow> bool" where
  "usable f n \<longleftrightarrow> n_Healthy n \<and> \<not> n_Disabled n \<and> (f_ISP f = [] \<or> n_ISP n = f_ISP f \<or> n_Org n = f_ISP f)"

definition cached_candidates :: "node_json \<Rightarrow> keyspace \<Rightarrow> Filters \<Rightarrow> nat list \<Rightarrow> ProxyNode list" where
  "cached_candidates J m f ids =
     List.map_filter (\<lambda>i. case cached J m i of Some n \<Rightarrow> if usable f n then Some n else None | None \<Rightarrow> None) ids"

lemma cached_candidates_set:
  "set (cached_candidates J m f ids) = {n. \<exists>i\<in>set ids. cached J m i = Some n \<and> usable f n}"
  by (force simp: cached_candidates_def List.map_filter_def split: option.splits if_splits)

lemma nodeIndexKeys_iff:
  "RegionKey r \<in> set (nodeIndexKeys n) \<longleftrightarrow> r = index_region n \<and> r \<noteq> []"
  "CityKey r \<in> set (nodeIndexKeys n) \<longleftrightarrow> r = n_City n \<and> r \<noteq> []"
  "ASNKey r \<in> set (nodeIndexKeys n) \<longleftrightarrow> r = n_ASN n \<and> r \<noteq> []"
  "ISPKey r \<in> set (nodeIndexKeys n) \<longleftrightarrow> r = n_ISP n \<and> r \<noteq> []"
  by (auto simp: nodeIndexKeys_def RegionKey_def CityKey_def ASNKey_def ISPKey_def)

text \<open>What the indexes select, in terms of the cached node.\<close>

definition index_match :: "Filters \<Rightarrow> ProxyNode \<Rightarrow> bool" where
  "index_match f n \<longleftrightarrow> n_Healthy n \<and> \<not> n_Disabled n \<and>
     (f_Region f \<noteq> [] \<longrightarrow> index_region n = f_Region f) \<and>
     (f_City f \<noteq> [] \<longrightarrow> n_City n = f_City f) \<and>
     (f_ASN f \<noteq> [] \<longrightarrow> n_ASN n = f_ASN f) \<and>
     (f_ISP f \<noteq> [] \<longrightarrow> n_ISP n = f_ISP f)"

lemma indexed_ids_match:
  assumes "cache_inv J m" and "cached J m i = Some n" and "i < 2 ^ 64"
  shows "i \<in> indexed_ids m f \<longleftrightarrow> index_match f n"
proof -
  have idx: "show_nat i \<in> members m k \<longleftrightarrow> k \<in> set (nodeIndexKeys n)" if "index_key k" for k
    using assms that by (auto simp: cache_inv_def indexed_def)
  have healthy: "show_nat i \<in> members m ''healthy_nodes'' \<longleftrightarrow> n_Healthy n \<and> \<not> n_Disabled n"
    using assms by (auto simp: cache_inv_def indexed_def)
  have keys: "index_key (RegionKey r)" "index_key (CityKey r)" "index_key (ASNKey r)" "index_key (ISPKey r)" for r
    by (simp_all add: index_key_def HasPrefix_def RegionKey_def CityKey_def ASNKey_def ISPKey_def)
  show ?thesis
    using assms(3) by (auto simp: indexed_ids_def index_sets_def index_match_def healthy idx keys nodeIndexKeys_iff)
qed

lemma index_match_usable: "index_match f n \<Longrightarrow> usable f n"
  by (auto simp: index_match_def usable_def)

lemma index_match_db_match: "f_State f = [] \<Longrightarrow> index_match f n \<Longrightarrow> db_match f n"
  by (auto simp: index_match_def db_match_def index_region_def split: if_splits)

lemma indexed_cached: "cache_inv J m \<Longrightarrow> i \<in> indexed_ids m f \<Longrightarrow> \<exists>n. cached J m i = Some n"
  by (auto simp: cache_inv_def indexed_def indexed_ids_def index_sets_def split: option.splits)

text \<open>The nodes the cache offers for a filter.\<close>

definition offered :: "node_json \<Rightarrow> keyspace \<Rightarrow> Filters \<Rightarrow> ProxyNode set" where
  "offered J m f = {n. \<exists>i < 2 ^ 64. cached J m i = Some n \<and> index_match f n}"

lemma cached_candidates_offered:
  assumes "cache_inv J m" and "set ids = indexed_ids m f"
  shows "set (cached_candidates J m f ids) = offered J m f"
proof -
  have "i \<in> indexed_ids m f \<and> cached J m i = Some n \<and> usable f n \<longleftrightarrow>
      i < 2 ^ 64 \<and> cached J m i = Some n \<and> index_match f n" for i n
    using indexed_ids_match [OF assms(1), of i n f] index_match_usable [of f n]
    unfolding indexed_ids_def by blast
  then show ?thesis
    unfolding cached_candidates_set assms(2) offered_def by blast
qed

context reliable
begin

lemma wp_load_candidates:
  assumes "\<And>s'. view s' = view s \<Longrightarrow> Q (cached_candidates J (st_keys (view s)) f ids) s'"
  shows "wp (load_candidates W J f ids) Q s"
  using assms
proof (induction ids arbitrary: Q s)
  case Nil
  then show ?case by (simp add: cached_candidates_def List.map_filter_def)
next
  case (Cons i ids)
  show ?case
    unfolding load_candidates.simps wp_bind wp_return
  proof (rule wp_LoadNode, rule Cons.IH)
    fix r :: "error + ProxyNode" and s1 s2
    assume v: "view s1 = view s" "view s2 = view s1"
      and r: "(case r of Inr n \<Rightarrow> Some n | Inl _ \<Rightarrow> None) = cached J (st_keys (view s)) i"
    have "cached_candidates J (st_keys (view s)) f (i # ids) =
       (case r of Inl _ \<Rightarrow> cached_candidates J (st_keys (view s1)) f ids
        | Inr node \<Rightarrow>
           if n_Healthy node \<and> \<not> n_Disabled node \<and>
              (f_ISP f = [] \<or> n_ISP node = f_ISP f \<or> n_Org node = f_ISP f)
           then node # cached_candidates J (st_keys (view s1)) f ids
           else cached_candidates J (st_keys (view s1)) f ids)"
      using v r by (auto simp: cached_candidates_def List.map_filter_def usable_def split: sum.splits option.splits)
    then show "Q (case r of Inl _ \<Rightarrow> cached_candidates J (st_keys (view s1)) f ids
        | Inr node \<Rightarrow>
           if n_Healthy node \<and> \<not> n_Disabled node \<and>
              (f_ISP f = [] \<or> n_ISP node = f_ISP f \<or> n_Org node = f_ISP f)
           then node # cached_candidates J (st_keys (view s1)) f ids
           else cached_candidates J (st_keys (view s1)) f ids) s2"
      using Cons.prems v by simp
  qed
qed

text \<open>
  The candidates: those the cache offers if the filter has no state and there are any, else the
  matching rows of the database.
\<close>

lemma wp_candidates:
  assumes inv: "cache_inv J (st_keys (view s))"
    and Q: "\<And>nodes s'. view s' = view s \<Longrightarrow>
      (if f_State f = [] \<and> offered J (st_keys (view s)) f \<noteq> {}
       then set nodes = offered J (st_keys (view s)) f
       else mset nodes = mset (filter (db_match f) (st_nodes (view s)))) \<Longrightarrow> Q (Inr nodes) s'"
  shows "wp (candidates W J f) Q s"
  unfolding candidates_def wp_bind
proof (rule wp_matchNodeIDs)
  show "typed_sets (st_keys (view s))" "canonical (st_keys (view s))"
    using inv by (simp_all add: cache_inv_def)
  fix s1 ids
  assume v1: "view s1 = view s"
    and ids: "case ids of None \<Rightarrow> f_State f \<noteq> []
       | Some ids \<Rightarrow> f_State f = [] \<and> set ids = indexed_ids (st_keys (view s)) f"
  let ?ids = "case ids of None \<Rightarrow> [] | Some ids \<Rightarrow> ids"
  let ?c = "cached_candidates J (st_keys (view s1)) f ?ids"
  show "wp (case Inr ids of Inl err \<Rightarrow> State_Monad.return (Inl err)
       | Inr ids \<Rightarrow> load_candidates W J f (case ids of None \<Rightarrow> [] | Some ids \<Rightarrow> ids) \<bind>
           (\<lambda>nodes. if nodes \<noteq> [] then State_Monad.return (Inr nodes)
                    else db_Find (nodes_tbl W) (db_match f))) Q s1"
    unfolding sum.case wp_bind
  proof (rule wp_load_candidates)
    fix s2 assume v2: "view s2 = view s1"
    have set: "set ?c = (if f_State f = [] then offered J (st_keys (view s)) f else {})"
    proof (cases ids)
      case None
      then show ?thesis using ids by (simp add: cached_candidates_set)
    next
      case (Some js)
      then show ?thesis using ids cached_candidates_offered [OF inv, of js f] v1 by simp
    qed
    show "wp (if ?c \<noteq> [] then State_Monad.return (Inr ?c) else db_Find (nodes_tbl W) (db_match f)) Q s2"
    proof (cases "?c = []")
      case True
      then show ?thesis
        using set v1 v2 by (auto intro!: wp_Find_nodes Q split: if_splits)
    next
      case False
      then have "set ?c \<noteq> {}" by simp
      then show ?thesis
        using set False v1 v2 by (auto intro!: Q split: if_splits)
    qed
  qed
qed

end

section \<open>What Pick returns\<close>

definition pool :: "node_json \<Rightarrow> store \<Rightarrow> Filters \<Rightarrow> ProxyNode set" where
  "pool J v f =
     (if f_State f = [] \<and> offered J (st_keys v) f \<noteq> {} then offered J (st_keys v) f
      else {n \<in> set (st_nodes v). db_match f n})"

definition usable_row :: "nat \<Rightarrow> ProxyNode \<Rightarrow> bool" where
  "usable_row i n \<longleftrightarrow> n_ID n = i \<and> n_Healthy n \<and> \<not> n_Disabled n"

definition sticky_row :: "store \<Rightarrow> string \<Rightarrow> ProxyNode option" where
  "sticky_row v k =
     (case Uint64 (get_answer (st_keys v) k) of
        Inl _ \<Rightarrow> None
      | Inr i \<Rightarrow> find (usable_row i) (st_nodes v))"

lemma pool_db_match: "n \<in> pool J v f \<Longrightarrow> db_match f n"
  using index_match_db_match by (auto simp: pool_def offered_def split: if_splits)

lemma StickyKey_prefix: "HasPrefix (StickyKey uid h sid) ''sticky:''"
  by (simp add: StickyKey_def HasPrefix_def)

lemma pool_drop:
  assumes "HasPrefix k ''sticky:''"
  shows "pool J (v\<lparr>st_keys := st_keys v |` (- {k})\<rparr>) f = pool J v f"
    and "cache_inv J (st_keys v |` (- {k})) = cache_inv J (st_keys v)"
proof -
  have "offered J (st_keys v |` (- {k})) f = offered J (st_keys v) f"
    using cached_drop_sticky [of "{k}" J "st_keys v"] assms by (simp add: offered_def)
  then show "pool J (v\<lparr>st_keys := st_keys v |` (- {k})\<rparr>) f = pool J v f"
    by (simp add: pool_def)
  show "cache_inv J (st_keys v |` (- {k})) = cache_inv J (st_keys v)"
    by (rule cache_inv_drop_sticky) (use assms in simp)
qed

context reliable
begin

lemma wp_sticky_lookup:
  assumes "\<And>node s'. sticky_row (view s) k = Some node \<Longrightarrow> view s' = view s \<Longrightarrow> Q (Some node) s'"
    and "\<And>s'. sticky_row (view s) k = None \<Longrightarrow>
      view s' = view s \<or> view s' = (view s)\<lparr>st_keys := st_keys (view s) |` (- {k})\<rparr> \<Longrightarrow> Q None s'"
  shows "wp (sticky_lookup W k) Q s"
  unfolding sticky_lookup_def wp_bind
proof (rule wp_redis_Get)
  fix s1 assume v1: "view s1 = view s"
  show "wp (case Uint64 (get_answer (st_keys (view s)) k) of
      Inl _ \<Rightarrow> State_Monad.return None
    | Inr nodeID \<Rightarrow>
        db_First (nodes_tbl W) (\<lambda>n. n_ID n = nodeID \<and> n_Healthy n \<and> \<not> n_Disabled n) \<bind>
        (\<lambda>found. case found of
           Inl _ \<Rightarrow> redis_Del W [k] \<bind> (\<lambda>_. State_Monad.return None)
         | Inr node \<Rightarrow> State_Monad.return (Some node))) Q s1"
  proof (cases "Uint64 (get_answer (st_keys (view s)) k)")
    case (Inl e)
    then show ?thesis using assms(2) v1 by (simp add: sticky_row_def)
  next
    case (Inr i)
    then have row: "sticky_row (view s) k = find (usable_row i) (st_nodes (view s))"
      by (simp add: sticky_row_def)
    show ?thesis
      unfolding Inr sum.case wp_bind
    proof (rule wp_First_nodes)
      fix s2 assume v2: "view s2 = view s1"
      show "wp (case first_answer (\<lambda>n. n_ID n = i \<and> n_Healthy n \<and> \<not> n_Disabled n) (st_nodes (view s1)) of
          Inl _ \<Rightarrow> redis_Del W [k] \<bind> (\<lambda>_. State_Monad.return None)
        | Inr node \<Rightarrow> State_Monad.return (Some node)) Q s2"
        using row assms v1 v2
        by (cases "find (usable_row i) (st_nodes (view s))")
          (auto simp: first_answer_def usable_row_def [abs_def] intro!: wp_redis_Del)
    qed
  qed
qed

lemma wp_Pick:
  fixes H :: "string \<Rightarrow> string" and uid f and s :: 's
  defines "k \<equiv> StickyKey uid (FilterHash H f) (f_SID f)"
  defines "sticky \<equiv> (if f_SID f = [] then None else sticky_row (view s) k)"
  assumes inv: "cache_inv J (st_keys (view s))"
    and hit: "\<And>node s'. sticky = Some node \<Longrightarrow> view s' = view s \<Longrightarrow> Q (Inr node) s'"
    and pick: "\<And>node s'. sticky = None \<Longrightarrow> node \<in> pool J (view s) f \<Longrightarrow>
      view s' = (if f_SID f = [] then view s
        else (view s)\<lparr>st_keys := (st_keys (view s))(k \<mapsto> VStr (show_nat (n_ID node)) ttl)\<rparr>) \<Longrightarrow> Q (Inr node) s'"
    and empty: "\<And>s'. sticky = None \<Longrightarrow> pool J (view s) f = {} \<Longrightarrow>
      view s' = view s \<or> view s' = (view s)\<lparr>st_keys := st_keys (view s) |` (- {k})\<rparr> \<Longrightarrow>
      Q (Inl ErrNoHealthyNode) s'"
  shows "wp (Pick W J H ttl uid f) Q s"
proof -
  let ?rest = "candidates W J f \<bind> (\<lambda>nodes. case nodes of
       Inl err \<Rightarrow> State_Monad.return (Inl err)
     | Inr nodes \<Rightarrow>
         if nodes = [] then State_Monad.return (Inl ErrNoHealthyNode)
         else rand_Intn W (length nodes) \<bind> (\<lambda>i. let node = nodes ! i in
           (if f_SID f \<noteq> [] then redis_Set W k (show_nat (n_ID node)) ttl else State_Monad.return None) \<bind>
           (\<lambda>_. State_Monad.return (Inr node))))"
  have rest: "wp ?rest Q s1"
    if none: "sticky = None"
      and v1: "view s1 = view s \<or> (f_SID f \<noteq> [] \<and> view s1 = (view s)\<lparr>st_keys := st_keys (view s) |` (- {k})\<rparr>)" for s1
  proof -
    have pool1: "pool J (view s1) f = pool J (view s) f" "cache_inv J (st_keys (view s1))"
      using v1 inv pool_drop [of k J "view s"] StickyKey_prefix by (auto simp: k_def)
    show ?thesis
      unfolding wp_bind
    proof (rule wp_candidates [OF pool1(2)])
      fix nodes s2
      assume v2: "view s2 = view s1"
        and nodes: "if f_State f = [] \<and> offered J (st_keys (view s1)) f \<noteq> {}
           then set nodes = offered J (st_keys (view s1)) f
           else mset nodes = mset (filter (db_match f) (st_nodes (view s1)))"
      have "set nodes = pool J (view s1) f"
      proof (cases "f_State f = [] \<and> offered J (st_keys (view s1)) f \<noteq> {}")
        case True
        then show ?thesis using nodes by (simp add: pool_def)
      next
        case False
        then show ?thesis
          using mset_eq_setD [OF nodes [unfolded if_not_P [OF False]]] by (simp only: pool_def if_False set_filter)
      qed
      then have set: "set nodes = pool J (view s) f" using pool1(1) by simp
      show "wp (case Inr nodes of Inl err \<Rightarrow> State_Monad.return (Inl err)
         | Inr nodes \<Rightarrow> if nodes = [] then State_Monad.return (Inl ErrNoHealthyNode)
           else rand_Intn W (length nodes) \<bind> (\<lambda>i. let node = nodes ! i in
             (if f_SID f \<noteq> [] then redis_Set W k (show_nat (n_ID node)) ttl else State_Monad.return None) \<bind>
             (\<lambda>_. State_Monad.return (Inr node)))) Q s2"
      proof (cases "nodes = []")
        case True
        then show ?thesis using empty [OF none] set v1 v2 by auto
      next
        case False
        have "wp (rand_Intn W (length nodes)) (\<lambda>i. wp
            (if f_SID f \<noteq> [] then redis_Set W k (show_nat (n_ID (nodes ! i))) ttl else State_Monad.return None)
            (\<lambda>_. Q (Inr (nodes ! i)))) s2"
        proof (rule wp_rand_Intn)
          fix i s3
          assume v3: "view s3 = view s2" and "0 < length nodes \<longrightarrow> i < length nodes"
          then have "nodes ! i \<in> pool J (view s) f" using False set nth_mem by blast
          note pick = pick [OF none this]
          show "wp (if f_SID f \<noteq> [] then redis_Set W k (show_nat (n_ID (nodes ! i))) ttl else State_Monad.return None)
              (\<lambda>_. Q (Inr (nodes ! i))) s3"
          proof (cases "f_SID f = []")
            case True
            then show ?thesis using pick v1 v2 v3 by simp
          next
            case sid: False
            have upd: "(st_keys (view s3))(k \<mapsto> x) = (st_keys (view s))(k \<mapsto> x)" for x
              using v1 v2 v3 by (auto simp: restrict_map_def)
            have "(view s3)\<lparr>st_keys := m\<rparr> = (view s)\<lparr>st_keys := m\<rparr>" for m
              using v1 v2 v3 by auto
            then show ?thesis using pick sid upd by (auto intro!: wp_redis_Set)
          qed
        qed
        then show ?thesis using False by (simp add: Let_def)
      qed
    qed
  qed
  have prog: "Pick W J H ttl uid f =
     (if f_SID f \<noteq> [] then sticky_lookup W k else State_Monad.return None) \<bind>
     (\<lambda>sticky. case sticky of Some node \<Rightarrow> State_Monad.return (Inr node) | None \<Rightarrow> ?rest)"
    by (simp only: Pick_def k_def Let_def)
  show ?thesis
  proof (cases "f_SID f = []")
    case True
    then show ?thesis
      unfolding prog wp_bind using rest [of s] by (simp add: sticky_def)
  next
    case False
    then have s: "sticky = sticky_row (view s) k" by (simp add: sticky_def)
    have look: "(if f_SID f \<noteq> [] then sticky_lookup W k else State_Monad.return None) = sticky_lookup W k"
      using False by simp
    show ?thesis
      unfolding prog wp_bind look
    proof (rule wp_sticky_lookup)
      fix node s' assume "sticky_row (view s) k = Some node" "view s' = view s"
      then show "wp (case Some node of Some node \<Rightarrow> State_Monad.return (Inr node) | None \<Rightarrow> ?rest) Q s'"
        using hit s by simp
    next
      fix s' assume "sticky_row (view s) k = None"
        and "view s' = view s \<or> view s' = (view s)\<lparr>st_keys := st_keys (view s) |` (- {k})\<rparr>"
      then show "wp (case None of Some node \<Rightarrow> State_Monad.return (Inr node) | None \<Rightarrow> ?rest) Q s'"
        unfolding option.case by (intro rest) (use s False in auto)
    qed
  qed
qed

end

section \<open>Reading what a client wrote\<close>

text \<open>The filters as the pairs a client writes, the empty ones left out, in the two forms.\<close>

definition filter_pairs :: "Filters \<Rightarrow> (string \<times> string) list" where
  "filter_pairs f = filter (\<lambda>(k, v). v \<noteq> [])
     [(''region'', f_Region f), (''st'', f_State f), (''city'', f_City f), (''asn'', f_ASN f),
      (''isp'', f_ISP f), (''sid'', f_SID f)]"

definition dash_name :: "string \<Rightarrow> Filters \<Rightarrow> string" where
  "dash_name uid f = Join (uid # concat (map (\<lambda>(k, v). [k, v]) (filter_pairs f))) ''-''"

definition legacy_name :: "string \<Rightarrow> Filters \<Rightarrow> string" where
  "legacy_name uid f = Join (uid # map (\<lambda>(k, v). k @ ''='' @ v) (filter_pairs f)) ''__''"

definition word_ok :: "string \<Rightarrow> bool" where
  "word_ok s \<longleftrightarrow> plain s \<and> CHR ''-'' \<notin> set s \<and> CHR ''_'' \<notin> set s"

definition filter_values :: "Filters \<Rightarrow> string list" where
  "filter_values f = [f_Region f, f_State f, f_City f, f_ASN f, f_ISP f, f_SID f]"

lemma filter_pairs_fold:
  "fold (\<lambda>(k, v). set_filter k v) (filter_pairs f) no_filters = f"
  by (cases f) (simp add: filter_pairs_def no_filters_def set_filter_def)

lemma filter_pairs_in:
  assumes "(k, v) \<in> set (filter_pairs f)"
  shows "k \<in> {''region'', ''st'', ''city'', ''asn'', ''isp'', ''sid''}" and "v \<in> set (filter_values f)"
  using assms unfolding filter_pairs_def filter_values_def set_filter by auto

lemma filter_keys:
  assumes "k \<in> {''region'', ''st'', ''city'', ''asn'', ''isp'', ''sid''}"
  shows "word_ok k" and "CHR ''='' \<notin> set k"
  using assms by (auto simp: word_ok_def plain_char_def byte_of_def)

lemma dash_filters_pairs:
  "\<forall>(k, v)\<in>set kvs. plain k \<and> plain v \<Longrightarrow>
     dash_filters (concat (map (\<lambda>(k, v). [k, v]) kvs)) f = fold (\<lambda>(k, v). set_filter k v) kvs f"
  by (induction kvs arbitrary: f) auto

lemma legacy_filters_pairs:
  "\<forall>(k, v)\<in>set kvs. CHR ''='' \<notin> set k \<Longrightarrow>
     legacy_filters (map (\<lambda>(k, v). k @ ''='' @ v) kvs) f = fold (\<lambda>(k, v). set_filter k v) kvs f"
proof (induction kvs arbitrary: f)
  case (Cons kv kvs)
  obtain k v where kv: "kv = (k, v)" by (cases kv)
  have "cut_at (k @ ''='' @ v) ''='' = Some (k, v)"
    using cut_at_first [of "CHR ''=''" k "[]" v] Cons.prems kv by simp
  then show ?case using Cons kv by (simp add: SplitN2_def)
qed simp

lemma Join_absent: "\<forall>x\<in>set xs. c \<notin> set x \<Longrightarrow> c \<notin> set sep \<Longrightarrow> c \<notin> set (Join xs sep)"
  by (induction xs sep rule: Join.induct) auto

lemma Join_head: "x \<noteq> [] \<Longrightarrow> Join (x # xs) sep \<noteq> []"
  by (cases xs) simp_all

section \<open>Properties\<close>

lemma pairs_ok:
  assumes "list_all word_ok (filter_values f)" and "(k, v) \<in> set (filter_pairs f)"
  shows "word_ok k" and "word_ok v"
  using assms filter_pairs_in [OF assms(2)] filter_keys(1) by (auto simp: list_all_iff)

text \<open>
  C40: A user name with dashes is read back to the user and the filters it was written for, when no
  part has a dash, an underscore or white space.
\<close>

theorem ParseUsername_dash:
  assumes "word_ok uid" and "uid \<noteq> []" and "list_all word_ok (filter_values f)"
  shows "ParseUsername (dash_name uid f) = (uid, f)"
proof -
  let ?parts = "concat (map (\<lambda>(k, v). [k, v]) (filter_pairs f))"
  have ok: "word_ok x" if "x \<in> set (uid # ?parts)" for x
    using that assms(1) pairs_ok [OF assms(3)] by (auto split: prod.splits)
  have "CHR ''_'' \<notin> set (dash_name uid f)"
    unfolding dash_name_def by (rule Join_absent) (use ok in \<open>simp_all add: word_ok_def\<close>)
  then have dash: "\<not> Contains (dash_name uid f) ''__''" by (rule Contains_absent)
  have "plain ''-''" by (simp add: plain_char_def byte_of_def)
  then have "plain (dash_name uid f)"
    unfolding dash_name_def by (rule plain_Join) (use ok in \<open>simp add: word_ok_def\<close>)
  moreover have "Split (dash_name uid f) ''-'' = uid # ?parts"
    unfolding dash_name_def by (rule Split_Join) (use ok in \<open>simp_all add: word_ok_def\<close>)
  moreover have "dash_name uid f \<noteq> []" using assms(2) by (simp add: dash_name_def Join_head)
  moreover have "dash_filters ?parts no_filters = f"
    using dash_filters_pairs [of "filter_pairs f" no_filters] pairs_ok [OF assms(3)] filter_pairs_fold
    by (auto simp: word_ok_def)
  moreover have "?parts = [] \<Longrightarrow> f = no_filters"
    using filter_pairs_fold [of f] by (cases "filter_pairs f") auto
  ultimately show ?thesis
    using dash assms(1) by (auto simp: ParseUsername_def parseDashUsername_def Let_def word_ok_def)
qed

theorem ParseUsername_dash_witness:
  "ParseUsername ''alice-region-JP-sid-s1'' = (''alice'', no_filters\<lparr>f_Region := ''JP'', f_SID := ''s1''\<rparr>)"
proof -
  have "dash_name ''alice'' (no_filters\<lparr>f_Region := ''JP'', f_SID := ''s1''\<rparr>) = ''alice-region-JP-sid-s1''"
    by (simp add: dash_name_def filter_pairs_def no_filters_def)
  then show ?thesis
    using ParseUsername_dash [of "''alice''" "no_filters\<lparr>f_Region := ''JP'', f_SID := ''s1''\<rparr>"]
    by (simp add: word_ok_def filter_values_def no_filters_def plain_char_def byte_of_def)
qed

text \<open>
  The older form with double underscores is read back too, when no part has an underscore and
  there is a filter at all; the values may hold dashes, equal signs and spaces.
\<close>

theorem ParseUsername_legacy:
  assumes "CHR ''_'' \<notin> set uid" and "list_all (\<lambda>v. CHR ''_'' \<notin> set v) (filter_values f)"
    and "filter_pairs f \<noteq> []"
  shows "ParseUsername (legacy_name uid f) = (uid, f)"
proof -
  let ?parts = "map (\<lambda>(k, v). k @ ''='' @ v) (filter_pairs f)"
  have keys: "word_ok k" "CHR ''='' \<notin> set k" "CHR ''_'' \<notin> set v" if "(k, v) \<in> set (filter_pairs f)" for k v
    using filter_pairs_in [OF that] filter_keys assms(2) by (auto simp: list_all_iff)
  have "CHR ''_'' \<notin> set x" if "x \<in> set (uid # ?parts)" for x
    using that assms(1) keys by (auto simp: word_ok_def)
  then have split: "Split (legacy_name uid f) ''__'' = uid # ?parts"
    unfolding legacy_name_def by (intro Split_Join) simp_all
  obtain p ps where "?parts = p # ps" using assms(3) by (cases ?parts) simp_all
  then have "legacy_name uid f = uid @ ''__'' @ Join (p # ps) ''__''" by (simp add: legacy_name_def)
  then have "Contains (legacy_name uid f) ''__''" by (simp only: Contains_append)
  moreover have "legacy_filters ?parts no_filters = f"
    using legacy_filters_pairs [of "filter_pairs f" no_filters] keys filter_pairs_fold by auto
  ultimately show ?thesis
    by (simp add: ParseUsername_def parseLegacyUsername_def split)
qed

theorem ParseUsername_legacy_witness:
  "ParseUsername ''bob__city=Aix-en-Provence'' = (''bob'', no_filters\<lparr>f_City := ''Aix-en-Provence''\<rparr>)"
proof -
  have "legacy_name ''bob'' (no_filters\<lparr>f_City := ''Aix-en-Provence''\<rparr>) = ''bob__city=Aix-en-Provence''"
    by (simp add: legacy_name_def filter_pairs_def no_filters_def)
  then show ?thesis
    using ParseUsername_legacy [of "''bob''" "no_filters\<lparr>f_City := ''Aix-en-Provence''\<rparr>"]
    by (simp add: filter_values_def filter_pairs_def no_filters_def)
qed



text \<open>
  C25: A session keeps its node: a second Pick with the same filters and session returns the node
  of the first again, as long as the database has it healthy and enabled.
\<close>

theorem Pick_sticky:
  assumes "reliable W view" and "cache_inv J (st_keys (view s))" and "f_SID f \<noteq> []"
  shows "wp (do { r1 \<leftarrow> Pick W J H ttl uid f; r2 \<leftarrow> Pick W J H ttl uid f; State_Monad.return (r1, r2) })
    (\<lambda>(r1, r2) s'. \<forall>n1. r1 = Inr n1 \<longrightarrow> n_ID n1 < 2 ^ 64 \<longrightarrow>
       (\<exists>n\<in>set (st_nodes (view s)). usable_row (n_ID n1) n) \<longrightarrow>
       (\<exists>n2. r2 = Inr n2 \<and> n_ID n2 = n_ID n1)) s"
proof -
  let ?k = "StickyKey uid (FilterHash H f) (f_SID f)"
  let ?P = "\<lambda>r1 r2. \<forall>n1. r1 = Inr n1 \<longrightarrow> n_ID n1 < 2 ^ 64 \<longrightarrow>
       (\<exists>n\<in>set (st_nodes (view s)). usable_row (n_ID n1) n) \<longrightarrow>
       (\<exists>n2. r2 = Inr n2 \<and> n_ID n2 = n_ID n1)"
  have again: "wp (Pick W J H ttl uid f) (\<lambda>r2 _. ?P (Inr n1) r2) s1"
    if inv1: "cache_inv J (st_keys (view s1))"
      and row: "\<exists>n\<in>set (st_nodes (view s)). usable_row (n_ID n1) n \<Longrightarrow> n_ID n1 < 2 ^ 64 \<Longrightarrow>
         \<exists>n2. sticky_row (view s1) ?k = Some n2 \<and> n_ID n2 = n_ID n1" for n1 s1
    by (rule reliable.wp_Pick [OF assms(1) inv1]) (use row assms(3) in \<open>fastforce simp: if_not_P\<close>)+
  have row: "\<exists>n2. find (usable_row i) (st_nodes (view s)) = Some n2 \<and> n_ID n2 = i"
    if "\<exists>n\<in>set (st_nodes (view s)). usable_row i n" for i
    using that by (cases "find (usable_row i) (st_nodes (view s))")
      (auto simp: find_None_iff find_Some_iff usable_row_def)
  show ?thesis
    unfolding wp_bind wp_return prod.case
  proof (rule reliable.wp_Pick [OF assms(1,2)], goal_cases hit pick empty)
    case (hit node s1)
    then have "sticky_row (view s1) ?k = Some node" using assms(3) by simp
    then show ?case using hit(2) assms(2) by (intro again) auto
  next
    case (pick node s1)
    then have v: "view s1 = (view s)\<lparr>st_keys := (st_keys (view s))(?k \<mapsto> VStr (show_nat (n_ID node)) ttl)\<rparr>"
      using assms(3) by simp
    have drop: "((st_keys (view s))(?k \<mapsto> x)) |` (- {?k}) = st_keys (view s) |` (- {?k})" for x
      by (auto simp: restrict_map_def)
    have inv1: "cache_inv J (st_keys (view s1))"
      using cache_inv_drop_sticky [of "{?k}" J "st_keys (view s1)"]
        cache_inv_drop_sticky [of "{?k}" J "st_keys (view s)"] assms(2) StickyKey_prefix
      by (simp add: v drop)
    show ?case
    proof (rule again [OF inv1])
      assume "\<exists>n\<in>set (st_nodes (view s)). usable_row (n_ID node) n" and "n_ID node < 2 ^ 64"
      then show "\<exists>n2. sticky_row (view s1) ?k = Some n2 \<and> n_ID n2 = n_ID node"
        using row by (simp add: v sticky_row_def get_answer_def)
    qed
  next
    case (empty s1)
    have inv1: "cache_inv J (st_keys (view s1))"
      using empty(3) pool_drop(2) [OF StickyKey_prefix, where v = "view s"] assms(2) by auto
    show ?case
      by (rule reliable.wp_Pick [OF assms(1) inv1]) simp_all
  qed
qed

theorem Pick_sticky_witness:
  "wp (do { r1 \<leftarrow> Pick mem_world mem_json (\<lambda>x. x) 3600 ''alice'' (no_filters\<lparr>f_SID := ''s''\<rparr>);
            r2 \<leftarrow> Pick mem_world mem_json (\<lambda>x. x) 3600 ''alice'' (no_filters\<lparr>f_SID := ''s''\<rparr>);
            State_Monad.return (r1, r2) })
    (\<lambda>(r1, r2) s'. r1 = Inr node7 \<longrightarrow> (\<exists>n2. r2 = Inr n2 \<and> n_ID n2 = 7)) (mem0\<lparr>mem_nodes := [node7]\<rparr>)"
  by (rule wp_mono [OF Pick_sticky [OF mem.reliable_axioms]])
    (auto simp: mem0_def mem_view_def mem_keys_def no_filters_def node7_def zero_node_def usable_row_def)

section \<open>The index and the query\<close>

text \<open>The cache holds the rows of the table, all that are in service.\<close>

definition mirrors :: "node_json \<Rightarrow> store \<Rightarrow> bool" where
  "mirrors J v \<longleftrightarrow>
     (\<forall>i n. cached J (st_keys v) i = Some n \<longrightarrow> n \<in> set (st_nodes v)) \<and>
     (\<forall>n\<in>set (st_nodes v). n_Healthy n \<longrightarrow> \<not> n_Disabled n \<longrightarrow>
        n_ID n < 2 ^ 64 \<and> cached J (st_keys v) (n_ID n) = Some n)"

text \<open>
  The index has one region and the ISP of a node, the query asks for country, both regions, ISP and
  organisation; they agree on a node that these fields do not tell apart.
\<close>

definition told_apart :: "Filters \<Rightarrow> ProxyNode \<Rightarrow> bool" where
  "told_apart f n \<longleftrightarrow>
     (f_Region f \<noteq> [] \<and> f_Region f \<noteq> index_region n \<and>
        f_Region f \<in> {n_Country n, n_DetectedRegion n, n_ExpectedRegion n}) \<or>
     (f_ISP f \<noteq> [] \<and> f_ISP f \<noteq> n_ISP n \<and> f_ISP f = n_Org n)"

lemma index_match_iff_db_match:
  "f_State f = [] \<Longrightarrow> \<not> told_apart f n \<Longrightarrow> index_match f n \<longleftrightarrow> db_match f n"
  unfolding index_match_def db_match_def told_apart_def index_region_def by auto

lemma offered_rows:
  assumes "mirrors J v" and "f_State f = []" and "\<forall>n\<in>set (st_nodes v). \<not> told_apart f n"
  shows "offered J (st_keys v) f = {n \<in> set (st_nodes v). db_match f n}"
proof (intro set_eqI iffI; clarsimp simp: offered_def)
  fix n i assume "cached J (st_keys v) i = Some n" and m: "index_match f n"
  then have "n \<in> set (st_nodes v)" using assms(1) unfolding mirrors_def by blast
  then show "n \<in> set (st_nodes v) \<and> db_match f n"
    using m assms(2,3) index_match_iff_db_match by blast
next
  fix n assume n: "n \<in> set (st_nodes v)" "db_match f n"
  then have "index_match f n" using assms(2,3) index_match_iff_db_match by blast
  moreover have "n_ID n < 2 ^ 64 \<and> cached J (st_keys v) (n_ID n) = Some n"
    using n assms(1) by (auto simp: mirrors_def db_match_def)
  ultimately show "\<exists>i<18446744073709551616. cached J (st_keys v) i = Some n \<and> index_match f n" by auto
qed



end
