(* ===== verification/Upstream.thy ===== *)
theory Upstream
  imports Auth "HOL-Library.Word"
begin

unbundle bit_operations_syntax

text \<open>
  Package \<^verbatim>\<open>upstream\<close> (\<^verbatim>\<open>internal/upstream/http_proxy.go\<close>, \<^verbatim>\<open>direct_dial.go\<close>): the protocols
  of the nodes, the proxy credentials, and the connections to a target through a SOCKS,
  Shadowsocks, Trojan, VLESS or VMess server, with the frames they send.  Bytes are strings.  The
  network \<open>N\<close> and the libraries of the protocols (\<^verbatim>\<open>net\<close>, \<^verbatim>\<open>tls\<close>, \<^verbatim>\<open>x/net/proxy\<close>,
  \<^verbatim>\<open>go-shadowsocks2\<close>, \<^verbatim>\<open>uuid\<close>, the hashes) are parameters; \<open>network_law\<close> states which connections
  they open and close.
\<close>

section \<open>Protocols\<close>

definition normalizedProtocol :: "string \<Rightarrow> string" where
  "normalizedProtocol protocol = ToLower (TrimSpace protocol)"

definition IsHTTPProxyProtocol :: "string \<Rightarrow> bool" where
  "IsHTTPProxyProtocol protocol \<longleftrightarrow> normalizedProtocol protocol = ''http''"

definition IsSOCKSProxyProtocol :: "string \<Rightarrow> bool" where
  "IsSOCKSProxyProtocol protocol \<longleftrightarrow> normalizedProtocol protocol \<in> {''socks'', ''socks5''}"

definition IsShadowsocksProtocol :: "string \<Rightarrow> bool" where
  "IsShadowsocksProtocol protocol \<longleftrightarrow> normalizedProtocol protocol \<in> {''ss'', ''shadowsocks''}"

definition IsTrojanProtocol :: "string \<Rightarrow> bool" where
  "IsTrojanProtocol protocol \<longleftrightarrow> normalizedProtocol protocol = ''trojan''"

definition IsVLESSProtocol :: "string \<Rightarrow> bool" where
  "IsVLESSProtocol protocol \<longleftrightarrow> normalizedProtocol protocol = ''vless''"

definition IsVMessProtocol :: "string \<Rightarrow> bool" where
  "IsVMessProtocol protocol \<longleftrightarrow> normalizedProtocol protocol = ''vmess''"

definition IsTargetDialProtocol :: "string \<Rightarrow> bool" where
  "IsTargetDialProtocol protocol \<longleftrightarrow>
     IsSOCKSProxyProtocol protocol \<or> IsShadowsocksProtocol protocol \<or> IsTrojanProtocol protocol \<or>
     IsVLESSProtocol protocol \<or> IsVMessProtocol protocol"

definition SchemeForNode :: "ProxyNode \<Rightarrow> error + string" where
  "SchemeForNode node =
     (let p = normalizedProtocol (n_Protocol node)
      in if p = ''http'' then (if n_TLSEnabled node then Inr ''https'' else Inr ''http'')
         else if p = ''socks'' \<or> p = ''socks5'' then Inr ''socks5''
         else Inl (Errorf (''unsupported upstream protocol: '' @ n_Protocol node)))"

definition node_addr :: "ProxyNode \<Rightarrow> string" where
  "node_addr node = n_Host node @ '':'' @ Itoa (n_Port node)"

text \<open>\<open>url_Parse\<close> and \<open>with_user\<close> are \<^verbatim>\<open>url.Parse\<close> and the assignment of \<^verbatim>\<open>url.UserPassword\<close>.\<close>

definition URLForNode ::
  "(string \<Rightarrow> error + 'u) \<Rightarrow> (string \<Rightarrow> string \<Rightarrow> 'u \<Rightarrow> 'u) \<Rightarrow> ProxyNode \<Rightarrow> aead \<Rightarrow> error + 'u" where
  "URLForNode url_Parse with_user node c =
     (case SchemeForNode node of
        Inl err \<Rightarrow> Inl err
      | Inr scheme \<Rightarrow>
          (case url_Parse (scheme @ ''://'' @ node_addr node) of
             Inl err \<Rightarrow> Inl err
           | Inr u \<Rightarrow>
               (case Decrypt c (n_UpstreamUsernameEnc node) of
                  Inl err \<Rightarrow> Inl err
                | Inr user \<Rightarrow>
                    (case Decrypt c (n_UpstreamPasswordEnc node) of
                       Inl err \<Rightarrow> Inl err
                     | Inr pass \<Rightarrow> Inr (if user \<noteq> [] \<or> pass \<noteq> [] then with_user user pass u else u)))))"

definition ProxyAuthorization :: "ProxyNode \<Rightarrow> aead \<Rightarrow> error + string" where
  "ProxyAuthorization node c =
     (case Decrypt c (n_UpstreamUsernameEnc node) of
        Inl err \<Rightarrow> Inl err
      | Inr user \<Rightarrow>
          (case Decrypt c (n_UpstreamPasswordEnc node) of
             Inl err \<Rightarrow> Inl err
           | Inr pass \<Rightarrow>
               if user = [] \<and> pass = [] then Inr []
               else Inr (''Basic '' @ EncodeToString StdEncoding (user @ '':'' @ pass))))"

section \<open>Bytes\<close>

definition byte :: "nat \<Rightarrow> char" where
  "byte n = char_of n"

definition hex_bytes :: "string \<Rightarrow> string" where
  "hex_bytes s = concat (map (\<lambda>c. [''0123456789abcdef'' ! (byte_of c div 16), ''0123456789abcdef'' ! (byte_of c mod 16)]) s)"

definition xor_char :: "char \<Rightarrow> char \<Rightarrow> char" where
  "xor_char a b = char_of (unat ((of_nat (byte_of a) :: 8 word) XOR of_nat (byte_of b)))"

definition xor_bytes :: "string \<Rightarrow> string \<Rightarrow> string" where
  "xor_bytes a b = map2 xor_char a b"

text \<open>\<^verbatim>\<open>byte(x >> 24), byte(x >> 16), byte(x >> 8), byte(x)\<close>, and the same of 64 bits.\<close>

definition be32 :: "32 word \<Rightarrow> string" where
  "be32 w = map (\<lambda>k. byte (unat (drop_bit k w) mod 256)) [24, 16, 8, 0]"

definition be64 :: "int \<Rightarrow> string" where
  "be64 i = map (\<lambda>k. byte (nat (i div 2 ^ k mod 256))) [56, 48, 40, 32, 24, 16, 8, 0]"

text \<open>\<^verbatim>\<open>hash/fnv\<close>: FNV-1a of 32 bits.\<close>

definition fnv1a32 :: "string \<Rightarrow> string" where
  "fnv1a32 data = be32 (foldl (\<lambda>h c. (h XOR of_nat (byte_of c)) * 16777619) 2166136261 data)"

text \<open>Cipher feedback over blocks of 16 bytes; \<open>E\<close> encrypts one block.\<close>

function cfb_encrypt :: "(string \<Rightarrow> string) \<Rightarrow> string \<Rightarrow> string \<Rightarrow> string" where
  "cfb_encrypt E iv p =
     (if p = [] then []
      else let c = xor_bytes (take 16 p) (E iv) in c @ cfb_encrypt E c (drop 16 p))"
  by pat_completeness auto
termination by (relation "measure (\<lambda>(E, iv, p). length p)") auto

function cfb_decrypt :: "(string \<Rightarrow> string) \<Rightarrow> string \<Rightarrow> string \<Rightarrow> string" where
  "cfb_decrypt E iv c =
     (if c = [] then []
      else xor_bytes (take 16 c) (E iv) @ cfb_decrypt E (take 16 c) (drop 16 c))"
  by pat_completeness auto
termination by (relation "measure (\<lambda>(E, iv, c). length c)") auto

declare cfb_encrypt.simps [simp del] cfb_decrypt.simps [simp del]

definition aesCFBEncrypt :: "'s crypto \<Rightarrow> string \<Rightarrow> string \<Rightarrow> string \<Rightarrow> error + string" where
  "aesCFBEncrypt C plaintext key iv =
     (case aes_NewCipher C key of Inl err \<Rightarrow> Inl err | Inr block \<Rightarrow> Inr (cfb_encrypt block iv plaintext))"

definition aesCFBDecrypt :: "'s crypto \<Rightarrow> string \<Rightarrow> string \<Rightarrow> string \<Rightarrow> error + string" where
  "aesCFBDecrypt C cipherText key iv =
     (case aes_NewCipher C key of Inl err \<Rightarrow> Inl err | Inr block \<Rightarrow> Inr (cfb_decrypt block iv cipherText))"

section \<open>The network\<close>

text \<open>A connection: one that was dialled, or a Shadowsocks stream (its cipher) over another.\<close>

datatype conn = RawConn nat | SecuredConn string conn

primrec root :: "conn \<Rightarrow> nat" where
  "root (RawConn i) = i"
| "root (SecuredConn _ c) = root c"

record 's network =
  dial_tcp :: "string \<Rightarrow> duration \<Rightarrow> ('s, error + nat) state"
  dial_tls :: "string \<Rightarrow> string \<Rightarrow> bool \<Rightarrow> duration \<Rightarrow> ('s, error + nat) state"
  dial_socks5 :: "string \<Rightarrow> (string \<times> string) option \<Rightarrow> duration \<Rightarrow> string \<Rightarrow> ('s, error + nat) state"
  conn_Write :: "conn \<Rightarrow> string \<Rightarrow> ('s, error option) state"
  ReadFull :: "conn \<Rightarrow> nat \<Rightarrow> ('s, error + string) state"
  conn_Close :: "conn \<Rightarrow> ('s, unit) state"
  PickCipher :: "string \<Rightarrow> string \<Rightarrow> error + string"
  ParseAddr :: "string \<Rightarrow> string option"
  uuid_Parse :: "string \<Rightarrow> error + string"
  Sum224 :: "string \<Rightarrow> string"
  md5Sum :: "string \<Rightarrow> string"

definition close_with :: "'s network \<Rightarrow> conn \<Rightarrow> error \<Rightarrow> ('s, error + conn) state" where
  "close_with N c err = do { _ \<leftarrow> conn_Close N c; State_Monad.return (Inl err) }"

definition invalid_target :: "string \<Rightarrow> error" where
  "invalid_target target = Errorf (''invalid target address: '' @ target)"

section \<open>SOCKS, Shadowsocks, Trojan\<close>

definition dialSOCKSTarget :: "'s network \<Rightarrow> ProxyNode \<Rightarrow> aead \<Rightarrow> string \<Rightarrow> duration \<Rightarrow> ('s, error + conn) state" where
  "dialSOCKSTarget N node c target dialTO =
     (case Decrypt c (n_UpstreamUsernameEnc node) of
        Inl err \<Rightarrow> State_Monad.return (Inl err)
      | Inr user \<Rightarrow>
          (case Decrypt c (n_UpstreamPasswordEnc node) of
             Inl err \<Rightarrow> State_Monad.return (Inl err)
           | Inr pass \<Rightarrow> do {
               r \<leftarrow> dial_socks5 N (node_addr node)
                 (if user \<noteq> [] \<or> pass \<noteq> [] then Some (user, pass) else None) dialTO target;
               State_Monad.return (case r of Inl err \<Rightarrow> Inl err | Inr i \<Rightarrow> Inr (RawConn i))
             }))"

definition dialShadowsocksTarget :: "'s network \<Rightarrow> ProxyNode \<Rightarrow> aead \<Rightarrow> string \<Rightarrow> duration \<Rightarrow> ('s, error + conn) state" where
  "dialShadowsocksTarget N node c target dialTO =
     (case Decrypt c (n_UpstreamUsernameEnc node) of
        Inl err \<Rightarrow> State_Monad.return (Inl err)
      | Inr method \<Rightarrow>
          (case Decrypt c (n_UpstreamPasswordEnc node) of
             Inl err \<Rightarrow> State_Monad.return (Inl err)
           | Inr secret \<Rightarrow>
               (let method = TrimSpace method; secret = TrimSpace secret
                in if method = [] \<or> secret = []
                   then State_Monad.return (Inl (Errorf ''shadowsocks node missing method or password''))
                   else case PickCipher N method secret of
                     Inl err \<Rightarrow> State_Monad.return (Inl err)
                   | Inr ciph \<Rightarrow> do {
                       r \<leftarrow> dial_tcp N (node_addr node) dialTO;
                       case r of
                         Inl err \<Rightarrow> State_Monad.return (Inl err)
                       | Inr raw \<Rightarrow>
                           (let securedConn = SecuredConn ciph (RawConn raw)
                            in case ParseAddr N target of
                              None \<Rightarrow> close_with N securedConn (invalid_target target)
                            | Some addr \<Rightarrow> do {
                                err \<leftarrow> conn_Write N securedConn addr;
                                case err of
                                  Some e \<Rightarrow> close_with N securedConn e
                                | None \<Rightarrow> State_Monad.return (Inr securedConn)
                              })
                     })))"

definition buildTrojanConnectFrame :: "'s network \<Rightarrow> string \<Rightarrow> string \<Rightarrow> string" where
  "buildTrojanConnectFrame N secret addr =
     hex_bytes (Sum224 N secret) @ [CHR 0x0D, CHR 0x0A, CHR 0x01] @ addr @ [CHR 0x0D, CHR 0x0A]"

definition server_name :: "ProxyNode \<Rightarrow> string" where
  "server_name node = (let s = TrimSpace (n_ServerName node) in if s = [] then n_Host node else s)"

definition dialTrojanTarget :: "'s network \<Rightarrow> ProxyNode \<Rightarrow> aead \<Rightarrow> string \<Rightarrow> duration \<Rightarrow> ('s, error + conn) state" where
  "dialTrojanTarget N node c target dialTO =
     (case Decrypt c (n_UpstreamPasswordEnc node) of
        Inl err \<Rightarrow> State_Monad.return (Inl err)
      | Inr secret \<Rightarrow>
          (let secret = TrimSpace secret
           in if secret = [] then State_Monad.return (Inl (Errorf ''trojan node missing password''))
              else do {
                r \<leftarrow> dial_tls N (node_addr node) (server_name node) (n_TLSSkipVerify node) dialTO;
                case r of
                  Inl err \<Rightarrow> State_Monad.return (Inl err)
                | Inr raw \<Rightarrow>
                    (case ParseAddr N target of
                       None \<Rightarrow> close_with N (RawConn raw) (invalid_target target)
                     | Some addr \<Rightarrow> do {
                         err \<leftarrow> conn_Write N (RawConn raw) (buildTrojanConnectFrame N secret addr);
                         case err of
                           Some e \<Rightarrow> close_with N (RawConn raw) e
                         | None \<Rightarrow> State_Monad.return (Inr (RawConn raw))
                       })
              }))"

section \<open>VLESS, VMess\<close>

definition dialMaybeTLS :: "'s network \<Rightarrow> ProxyNode \<Rightarrow> duration \<Rightarrow> ('s, error + nat) state" where
  "dialMaybeTLS N node dialTO =
     (if n_TLSEnabled node
      then dial_tls N (node_addr node) (server_name node) (n_TLSSkipVerify node) dialTO
      else dial_tcp N (node_addr node) dialTO)"

definition buildVLESSConnectFrame :: "string \<Rightarrow> string \<Rightarrow> string" where
  "buildVLESSConnectFrame userID addr = [CHR 0x01] @ userID @ [CHR 0x00, CHR 0x01] @ addr"

definition consumeVLESSResponse :: "'s network \<Rightarrow> conn \<Rightarrow> ('s, error option) state" where
  "consumeVLESSResponse N c = do {
     header \<leftarrow> ReadFull N c 2;
     case header of
       Inl err \<Rightarrow> State_Monad.return (Some err)
     | Inr header \<Rightarrow>
         (let addonLen = byte_of (header ! 1)
          in if addonLen = 0 then State_Monad.return None
             else do {
               addons \<leftarrow> ReadFull N c addonLen;
               State_Monad.return (case addons of Inl err \<Rightarrow> Some err | Inr _ \<Rightarrow> None)
             })
   }"

definition dialVLESSTarget :: "'s network \<Rightarrow> ProxyNode \<Rightarrow> aead \<Rightarrow> string \<Rightarrow> duration \<Rightarrow> ('s, error + conn) state" where
  "dialVLESSTarget N node c target dialTO =
     (case Decrypt c (n_UpstreamUsernameEnc node) of
        Inl err \<Rightarrow> State_Monad.return (Inl err)
      | Inr uuidText \<Rightarrow>
          (case uuid_Parse N (TrimSpace uuidText) of
             Inl err \<Rightarrow> State_Monad.return (Inl err)
           | Inr userID \<Rightarrow>
               (case ParseAddr N target of
                  None \<Rightarrow> State_Monad.return (Inl (invalid_target target))
                | Some addr \<Rightarrow> do {
                    r \<leftarrow> dialMaybeTLS N node dialTO;
                    case r of
                      Inl err \<Rightarrow> State_Monad.return (Inl err)
                    | Inr raw \<Rightarrow> do {
                        err \<leftarrow> conn_Write N (RawConn raw) (buildVLESSConnectFrame userID addr);
                        case err of
                          Some e \<Rightarrow> close_with N (RawConn raw) e
                        | None \<Rightarrow> do {
                            err' \<leftarrow> consumeVLESSResponse N (RawConn raw);
                            case err' of
                              Some e \<Rightarrow> close_with N (RawConn raw) e
                            | None \<Rightarrow> State_Monad.return (Inr (RawConn raw))
                          }
                      }
                  })))"

text \<open>\<^verbatim>\<open>copy\<close> into an array of 16 bytes.\<close>

definition array16 :: "string \<Rightarrow> string" where
  "array16 s = take 16 s @ replicate (16 - length s) (CHR 0x00)"

definition buildVMessAuthInfo :: "'s world \<Rightarrow> 's network \<Rightarrow> string \<Rightarrow> ('s, string) state" where
  "buildVMessAuthInfo W N userID = do {
     now \<leftarrow> time_Now W;
     State_Monad.return (array16 (md5Sum N (userID @ be64 (now div 1000000000))))
   }"

definition vmess_plain :: "string \<Rightarrow> string \<Rightarrow> string \<Rightarrow> string \<Rightarrow> string" where
  "vmess_plain bodyIV bodyKey respV addr =
     [CHR 0x01] @ bodyIV @ bodyKey @ respV @ [CHR 0x00, CHR 0x00, CHR 0x00, CHR 0x00, CHR 0x06, CHR 0x00] @ addr"

definition vmess_key :: "'s network \<Rightarrow> string \<Rightarrow> string" where
  "vmess_key N userID = md5Sum N (userID @ ''c48619fe-8f02-49e0-b9e9-edf763e17e21'')"

definition vmess_iv :: "'s network \<Rightarrow> string \<Rightarrow> string" where
  "vmess_iv N authInfo = md5Sum N (authInfo @ authInfo)"

definition vmess_packet :: "'s crypto \<Rightarrow> 's network \<Rightarrow> string \<Rightarrow> string \<Rightarrow> string \<Rightarrow> error + string" where
  "vmess_packet C N userID authInfo plaintext =
     (case aesCFBEncrypt C (plaintext @ fnv1a32 plaintext) (vmess_key N userID) (vmess_iv N authInfo) of
        Inl err \<Rightarrow> Inl err
      | Inr encryptedBody \<Rightarrow> Inr (authInfo @ encryptedBody))"

definition buildVMessConnectFrame ::
  "'s world \<Rightarrow> 's crypto \<Rightarrow> 's network \<Rightarrow> string \<Rightarrow> string \<Rightarrow> ('s, error + string \<times> string \<times> string) state" where
  "buildVMessConnectFrame W C N userID addr = do {
     bodyKey \<leftarrow> rand_Reader C 16;
     case bodyKey of
       Inl err \<Rightarrow> State_Monad.return (Inl err)
     | Inr bodyKey \<Rightarrow> do {
         bodyIV \<leftarrow> rand_Reader C 16;
         case bodyIV of
           Inl err \<Rightarrow> State_Monad.return (Inl err)
         | Inr bodyIV \<Rightarrow> do {
             respV \<leftarrow> rand_Reader C 1;
             case respV of
               Inl err \<Rightarrow> State_Monad.return (Inl err)
             | Inr respV \<Rightarrow> do {
                 authInfo \<leftarrow> buildVMessAuthInfo W N userID;
                 State_Monad.return
                   (case vmess_packet C N userID authInfo (vmess_plain bodyIV bodyKey respV addr) of
                      Inl err \<Rightarrow> Inl err
                    | Inr packet \<Rightarrow> Inr (packet, md5Sum N bodyKey, md5Sum N bodyIV))
               }
           }
       }
   }"

definition consumeVMessResponse :: "'s crypto \<Rightarrow> 's network \<Rightarrow> conn \<Rightarrow> string \<Rightarrow> string \<Rightarrow> ('s, error option) state" where
  "consumeVMessResponse C N c key iv = do {
     respHeader \<leftarrow> ReadFull N c 4;
     case respHeader of
       Inl err \<Rightarrow> State_Monad.return (Some err)
     | Inr respHeader \<Rightarrow>
         (case aesCFBDecrypt C respHeader key iv of
            Inl err \<Rightarrow> State_Monad.return (Some err)
          | Inr plaintext \<Rightarrow>
              (let extraLen = byte_of (plaintext ! 3)
               in if extraLen = 0 then State_Monad.return None
                  else do {
                    extra \<leftarrow> ReadFull N c extraLen;
                    State_Monad.return (case extra of
                        Inl err \<Rightarrow> Some err
                      | Inr extra \<Rightarrow> (case aesCFBDecrypt C extra key iv of Inl err \<Rightarrow> Some err | Inr _ \<Rightarrow> None))
                  }))
   }"

definition dialVMessTarget ::
  "'s world \<Rightarrow> 's crypto \<Rightarrow> 's network \<Rightarrow> ProxyNode \<Rightarrow> aead \<Rightarrow> string \<Rightarrow> duration \<Rightarrow> ('s, error + conn) state" where
  "dialVMessTarget W C N node c target dialTO =
     (case Decrypt c (n_UpstreamUsernameEnc node) of
        Inl err \<Rightarrow> State_Monad.return (Inl err)
      | Inr uuidText \<Rightarrow>
          (case uuid_Parse N (TrimSpace uuidText) of
             Inl err \<Rightarrow> State_Monad.return (Inl err)
           | Inr userID \<Rightarrow>
               (case ParseAddr N target of
                  None \<Rightarrow> State_Monad.return (Inl (invalid_target target))
                | Some addr \<Rightarrow> do {
                    r \<leftarrow> dialMaybeTLS N node dialTO;
                    case r of
                      Inl err \<Rightarrow> State_Monad.return (Inl err)
                    | Inr raw \<Rightarrow> do {
                        frame \<leftarrow> buildVMessConnectFrame W C N userID addr;
                        case frame of
                          Inl err \<Rightarrow> close_with N (RawConn raw) err
                        | Inr (req, respKey, respIV) \<Rightarrow> do {
                            err \<leftarrow> conn_Write N (RawConn raw) req;
                            case err of
                              Some e \<Rightarrow> close_with N (RawConn raw) e
                            | None \<Rightarrow> do {
                                err' \<leftarrow> consumeVMessResponse C N (RawConn raw) respKey respIV;
                                case err' of
                                  Some e \<Rightarrow> close_with N (RawConn raw) e
                                | None \<Rightarrow> State_Monad.return (Inr (RawConn raw))
                              }
                          }
                      }
                  })))"

definition DialTarget ::
  "'s world \<Rightarrow> 's crypto \<Rightarrow> 's network \<Rightarrow> ProxyNode \<Rightarrow> aead \<Rightarrow> string \<Rightarrow> duration \<Rightarrow> ('s, error + conn) state" where
  "DialTarget W C N node c target dialTO =
     (let p = n_Protocol node
      in if IsSOCKSProxyProtocol p then dialSOCKSTarget N node c target dialTO
         else if IsShadowsocksProtocol p then dialShadowsocksTarget N node c target dialTO
         else if IsTrojanProtocol p then dialTrojanTarget N node c target dialTO
         else if IsVLESSProtocol p then dialVLESSTarget N node c target dialTO
         else if IsVMessProtocol p then dialVMessTarget W C N node c target dialTO
         else State_Monad.return (Inl (Errorf (''unsupported target dial protocol: '' @ p))))"

section \<open>The contract of the network\<close>

text \<open>
  \<open>opened\<close> observes the connections that are open: dialling opens one that was not, closing
  closes the connection beneath, nothing else changes them; a read delivers the bytes asked for
  or an error.
\<close>

definition dials :: "('s \<Rightarrow> nat set) \<Rightarrow> ('s, error + nat) state \<Rightarrow> bool" where
  "dials opened m \<longleftrightarrow> (\<forall>s r s'. run_state m s = (r, s') \<longrightarrow>
     (case r of Inl _ \<Rightarrow> opened s' = opened s | Inr i \<Rightarrow> i \<notin> opened s \<and> opened s' = insert i (opened s)))"

locale network_law =
  fixes W :: "'s world" and C :: "'s crypto" and N :: "'s network" and opened :: "'s \<Rightarrow> nat set"
  assumes dial_tcp: "dials opened (dial_tcp N a d)"
    and dial_tls: "dials opened (dial_tls N a h v d)"
    and dial_socks5: "dials opened (dial_socks5 N a cred d target)"
    and write_open: "keeps opened (conn_Write N c bytes)"
    and read_open: "keeps opened (ReadFull N c n)"
    and clock_open: "keeps opened (time_Now W)"
    and random_open: "keeps opened (rand_Reader C n)"
    and close_one: "run_state (conn_Close N c) s = (u, s') \<Longrightarrow> opened s' = opened s - {root c}"
begin

lemma wp_dials:
  assumes "dials opened m"
    and "\<And>e s'. opened s' = opened s \<Longrightarrow> Q (Inl e) s'"
    and "\<And>i s'. i \<notin> opened s \<Longrightarrow> opened s' = insert i (opened s) \<Longrightarrow> Q (Inr i) s'"
  shows "wp m Q s"
proof (rule wp_runI)
  fix r s' assume "run_state m s = (r, s')"
  with assms show "Q r s'" unfolding dials_def by (cases r) fastforce+
qed

lemma wp_close_with:
  assumes "\<And>s'. opened s' = opened s - {root c} \<Longrightarrow> Q (Inl err) s'"
  shows "wp (close_with N c err) Q s"
  unfolding close_with_def wp_bind wp_return
  by (rule wp_runI) (use assms close_one in blast)

definition leakless :: "(error + conn) \<Rightarrow> 's \<Rightarrow> 's \<Rightarrow> bool" where
  "leakless r s s' \<longleftrightarrow> (case r of Inl _ \<Rightarrow> opened s' = opened s
     | Inr c \<Rightarrow> root c \<notin> opened s \<and> opened s' = insert (root c) (opened s))"

lemma leakless_Inl: "opened s' = opened s \<Longrightarrow> leakless (Inl e) s s'"
  by (simp add: leakless_def)

lemma leakless_Inr: "root c \<notin> opened s \<Longrightarrow> opened s' = insert (root c) (opened s) \<Longrightarrow> leakless (Inr c) s s'"
  by (simp add: leakless_def)

lemmas wp_write = wp_keeps [OF write_open]
lemmas wp_read = wp_keeps [OF read_open]

lemma wp_dialMaybeTLS:
  assumes "\<And>e s'. opened s' = opened s \<Longrightarrow> Q (Inl e) s'"
    and "\<And>i s'. i \<notin> opened s \<Longrightarrow> opened s' = insert i (opened s) \<Longrightarrow> Q (Inr i) s'"
  shows "wp (dialMaybeTLS N node d) Q s"
  unfolding dialMaybeTLS_def using assms dial_tcp dial_tls by (auto intro!: wp_dials)

lemma wp_consumeVLESSResponse:
  "(\<And>r s'. opened s' = opened s \<Longrightarrow> Q r s') \<Longrightarrow> wp (consumeVLESSResponse N c) Q s"
  unfolding consumeVLESSResponse_def wp_bind
  by (rule wp_read) (auto simp: Let_def split: sum.splits intro!: wp_read)

lemma wp_consumeVMessResponse:
  "(\<And>r s'. opened s' = opened s \<Longrightarrow> Q r s') \<Longrightarrow> wp (consumeVMessResponse C N c key iv) Q s"
  unfolding consumeVMessResponse_def wp_bind
  by (rule wp_read) (auto simp: Let_def split: sum.splits intro!: wp_read)

lemma wp_buildVMessConnectFrame:
  assumes "\<And>r s'. opened s' = opened s \<Longrightarrow> Q r s'"
  shows "wp (buildVMessConnectFrame W C N userID addr) Q s"
  unfolding buildVMessConnectFrame_def buildVMessAuthInfo_def
  by (auto split: sum.splits intro!: wp_keeps [OF random_open] wp_keeps [OF clock_open] assms)

lemma wp_DialTarget: "wp (DialTarget W C N node c target d) (\<lambda>r. leakless r s) s"
proof -
  note rules = wp_dials [OF dial_tcp] wp_dials [OF dial_tls] wp_dials [OF dial_socks5] wp_write
    wp_close_with wp_dialMaybeTLS wp_consumeVLESSResponse wp_consumeVMessResponse
    wp_buildVMessConnectFrame leakless_Inl leakless_Inr
  have "wp (dialSOCKSTarget N node c target d) (\<lambda>r. leakless r s) s"
    unfolding dialSOCKSTarget_def
    by (auto split: sum.splits intro!: rules)
  moreover have "wp (dialShadowsocksTarget N node c target d) (\<lambda>r. leakless r s) s"
    unfolding dialShadowsocksTarget_def Let_def
    by (auto split: sum.splits option.splits intro!: rules)
  moreover have "wp (dialTrojanTarget N node c target d) (\<lambda>r. leakless r s) s"
    unfolding dialTrojanTarget_def Let_def
    by (auto split: sum.splits option.splits intro!: rules)
  moreover have "wp (dialVLESSTarget N node c target d) (\<lambda>r. leakless r s) s"
    unfolding dialVLESSTarget_def
    by (auto split: sum.splits option.splits intro!: rules)
  moreover have "wp (dialVMessTarget W C N node c target d) (\<lambda>r. leakless r s) s"
    unfolding dialVMessTarget_def
    by (auto split: sum.splits option.splits prod.splits intro!: rules)
  ultimately show ?thesis by (simp add: DialTarget_def Let_def leakless_Inl)
qed

end

section \<open>An instance\<close>

definition mem_dial :: "(mem, error + nat) state" where
  "mem_dial = State (\<lambda>s. let i = Suc (fold max (mem_conns s) 0) in (Inr i, s\<lparr>mem_conns := i # mem_conns s\<rparr>))"

definition mem_network :: "mem network" where
  "mem_network = \<lparr>
     dial_tcp = (\<lambda>a d. mem_dial), dial_tls = (\<lambda>a h v d. mem_dial), dial_socks5 = (\<lambda>a cred d t. mem_dial),
     conn_Write = (\<lambda>c bytes. State_Monad.return (if bytes = [] then Some (ExtErr ''short write'') else None)),
     ReadFull = (\<lambda>c n. State_Monad.return (Inr (replicate n (CHR 0x00)))),
     conn_Close = (\<lambda>c. State (\<lambda>s. ((), s\<lparr>mem_conns := removeAll (root c) (mem_conns s)\<rparr>))),
     PickCipher = (\<lambda>method secret. Inr (method @ secret)),
     ParseAddr = (\<lambda>t. if t = [] then None else Some ([CHR 0x03, byte (length t)] @ t @ [CHR 0x01, CHR 0xBB])),
     uuid_Parse = (\<lambda>s. if length s = 36 then Inr (take 16 s) else Inl (ExtErr ''invalid UUID length'')),
     Sum224 = (\<lambda>s. take 28 (s @ replicate 28 (CHR 0x00))),
     md5Sum = (\<lambda>s. take 16 (s @ replicate 16 (CHR 0x00)))\<rparr>"

lemma mem_dial_dials: "dials (\<lambda>s. set (mem_conns s)) mem_dial"
proof -
  have "Suc (fold max (mem_conns s) 0) \<notin> set (mem_conns s)" for s :: mem
    using fold_max_ge(2) [of _ "mem_conns s" 0] by (metis Suc_n_not_le_n)
  then show ?thesis by (simp add: dials_def mem_dial_def Let_def)
qed

interpretation mem_network: network_law mem_world mem_crypto mem_network "\<lambda>s. set (mem_conns s)"
  by unfold_locales
    (use mem_dial_dials in \<open>auto simp: mem_network_def keeps_def mem_world_def mem_crypto_def\<close>)

section \<open>Ciphers\<close>

lemma xor_char_cancel [simp]: "xor_char (xor_char a b) b = a"
proof -
  have w: "(of_nat (unat w) :: 8 word) = w" for w :: "8 word" by simp
  have less: "unat (w :: 8 word) < 256" for w using unsigned_less [of w] by simp
  have "byte_of (xor_char a b) = unat ((of_nat (byte_of a) :: 8 word) XOR of_nat (byte_of b))"
    using less by (simp add: xor_char_def byte_of_char_of)
  moreover have "unat (of_nat (byte_of a) :: 8 word) = byte_of a"
    by (simp add: unat_of_nat)
  ultimately show ?thesis by (simp add: xor_char_def w xor.assoc)
qed

lemma xor_bytes_cancel: "length a \<le> length b \<Longrightarrow> xor_bytes (xor_bytes a b) b = a"
proof (induction a arbitrary: b)
  case (Cons x a)
  then show ?case by (cases b) (auto simp: xor_bytes_def)
qed (simp add: xor_bytes_def)

lemma length_xor_bytes [simp]: "length (xor_bytes a b) = min (length a) (length b)"
  by (simp add: xor_bytes_def)

lemma length_cfb_encrypt:
  "(\<And>x. length x = 16 \<Longrightarrow> length (E x) = 16) \<Longrightarrow> length iv = 16 \<Longrightarrow> length (cfb_encrypt E iv p) = length p"
proof (induction E iv p rule: cfb_encrypt.induct)
  case (1 E iv p)
  show ?case
  proof (cases "length p \<le> 16")
    case True
    then show ?thesis using 1 by (subst cfb_encrypt.simps) (simp add: Let_def cfb_encrypt.simps [of _ _ "[]"])
  next
    case False
    then have "p \<noteq> []" by auto
    from 1(1) [OF this refl 1(2)] False show ?thesis using 1(2,3) by (subst cfb_encrypt.simps) (simp add: Let_def)
  qed
qed

lemma cfb_decrypt_block:
  "length c = 16 \<Longrightarrow> cfb_decrypt E iv (c @ r) = xor_bytes c (E iv) @ cfb_decrypt E c r"
  by (subst cfb_decrypt.simps) auto

lemma cfb_decrypt_encrypt:
  "(\<And>x. length x = 16 \<Longrightarrow> length (E x) = 16) \<Longrightarrow> length iv = 16 \<Longrightarrow> cfb_decrypt E iv (cfb_encrypt E iv p) = p"
proof (induction E iv p rule: cfb_encrypt.induct)
  case (1 E iv p)
  let ?c = "xor_bytes (take 16 p) (E iv)"
  have len: "length (E iv) = 16" using 1(2,3) by blast
  show ?case
  proof (cases "length p \<le> 16")
    case True
    have enc: "cfb_encrypt E iv p = xor_bytes p (E iv)" if "p \<noteq> []"
      using True that by (simp add: cfb_encrypt.simps [of E iv p] cfb_encrypt.simps [of _ _ "[]"] Let_def)
    have dec: "cfb_decrypt E iv x = xor_bytes x (E iv)" if "x \<noteq> []" "length x \<le> 16" for x
      using that by (simp add: cfb_decrypt.simps [of E iv x] cfb_decrypt.simps [of _ _ "[]"])
    have "xor_bytes p (E iv) \<noteq> []" if "p \<noteq> []"
      using that len by (auto simp: xor_bytes_def)
    then show ?thesis
      using True len enc dec [of "xor_bytes p (E iv)"]
      by (cases "p = []") (simp_all add: xor_bytes_cancel cfb_encrypt.simps [of _ _ "[]"] cfb_decrypt.simps [of _ _ "[]"])
  next
    case False
    then have p: "p \<noteq> []" by auto
    have c: "length ?c = 16" using False len by simp
    have "cfb_decrypt E ?c (cfb_encrypt E ?c (drop 16 p)) = drop 16 p"
      using 1(1) [OF p refl 1(2) c] .
    moreover have "cfb_encrypt E iv p = ?c @ cfb_encrypt E ?c (drop 16 p)"
      using p by (subst cfb_encrypt.simps) (simp add: Let_def)
    moreover have "cfb_decrypt E iv (?c @ r) = xor_bytes ?c (E iv) @ cfb_decrypt E ?c r" for r
      using c by (rule cfb_decrypt_block)
    moreover have "xor_bytes ?c (E iv) = take 16 p" using False len by (simp add: xor_bytes_cancel)
    ultimately show ?thesis by simp
  qed
qed

section \<open>Properties\<close>

text \<open>
  C24: Whatever the protocol and wherever the dialling fails, DialTarget leaves no connection open
  when it returns an error, and exactly the one it returns when it succeeds.
\<close>

theorem DialTarget_no_leak:
  assumes "network_law W C N opened"
  shows "wp (DialTarget W C N node c target d) (\<lambda>r s'. case r of
      Inl _ \<Rightarrow> opened s' = opened s
    | Inr conn \<Rightarrow> root conn \<notin> opened s \<and> opened s' = insert (root conn) (opened s)) s"
  by (rule wp_mono [OF network_law.wp_DialTarget [OF assms]])
    (simp add: network_law.leakless_def [OF assms])

theorem DialTarget_no_leak_witness:
  "\<exists>c. NewCipher mem_crypto ''key'' = Inr c \<and>
    wp (DialTarget mem_world mem_crypto mem_network (zero_node\<lparr>n_Protocol := ''socks5''\<rparr>) c ''example.org:443'' 10)
      (\<lambda>r s'. case r of Inl _ \<Rightarrow> set (mem_conns s') = {} | Inr conn \<Rightarrow> set (mem_conns s') = {root conn}) mem0"
proof -
  obtain c where c: "NewCipher mem_crypto ''key'' = Inr c" by (simp add: NewCipher_def mem_crypto_def)
  have none: "set (mem_conns mem0) = {}" by (simp add: mem0_def)
  show ?thesis
    by (rule exI [of _ c], rule conjI [OF c],
        rule wp_mono [OF DialTarget_no_leak [OF mem_network.network_law_axioms]])
      (auto simp: none split: sum.splits)
qed

lemma wp_any: "(\<And>a s'. Q a s') \<Longrightarrow> wp m Q s"
  by (rule wp_runI) simp

lemma length_array16 [simp]: "length (array16 s) = 16"
  by (simp add: array16_def)

definition block_cipher :: "(string \<Rightarrow> string) \<Rightarrow> bool" where
  "block_cipher E \<longleftrightarrow> (\<forall>x. length x = 16 \<longrightarrow> length (E x) = 16)"

definition aes_blocks :: "'s crypto \<Rightarrow> bool" where
  "aes_blocks C \<longleftrightarrow> (\<forall>key block. aes_NewCipher C key = Inr block \<longrightarrow> block_cipher block)"

lemma vmess_packet_opens:
  assumes "aes_blocks C"
    and "\<And>x. length (md5Sum N x) = 16" and "length authInfo = 16"
    and "vmess_packet C N userID authInfo p = Inr req"
  shows "aesCFBDecrypt C (drop 16 req) (vmess_key N userID) (vmess_iv N (take 16 req)) = Inr (p @ fnv1a32 p)"
proof -
  obtain block where b: "aes_NewCipher C (vmess_key N userID) = Inr block"
    and req: "req = authInfo @ cfb_encrypt block (vmess_iv N authInfo) (p @ fnv1a32 p)"
    using assms(4) by (auto simp: vmess_packet_def aesCFBEncrypt_def split: sum.splits)
  have "length (vmess_iv N authInfo) = 16" using assms(2) by (simp add: vmess_iv_def)
  moreover have "block_cipher block" using assms(1) b by (simp add: aes_blocks_def)
  ultimately show ?thesis
    using assms(3) by (simp add: req aesCFBDecrypt_def b cfb_decrypt_encrypt block_cipher_def)
qed

text \<open>
  C28: A server that knows the user's id opens the request of a VMess connection: decrypting what
  follows the 16 bytes of authentication gives the body with its FNV-1a checksum, and the body
  ends in the target address and carries the key and the vector from which the client has
  derived those it expects the answer under.
\<close>

theorem buildVMessConnectFrame_opens:
  assumes "crypto_law C view" and "\<And>x. length (md5Sum N x) = 16"
    and "aes_blocks C"
  shows "wp (buildVMessConnectFrame W C N userID addr) (\<lambda>r s'. \<forall>req respKey respIV.
    r = Inr (req, respKey, respIV) \<longrightarrow>
      (\<exists>bodyKey bodyIV respV. length bodyKey = 16 \<and> length bodyIV = 16 \<and> length respV = 1 \<and>
         respKey = md5Sum N bodyKey \<and> respIV = md5Sum N bodyIV \<and>
         (let body = vmess_plain bodyIV bodyKey respV addr
          in aesCFBDecrypt C (drop 16 req) (vmess_key N userID) (vmess_iv N (take 16 req))
               = Inr (body @ fnv1a32 body)))) s"
proof -
  note opens = vmess_packet_opens [OF assms(3,2) length_array16]
  show ?thesis
    unfolding buildVMessConnectFrame_def buildVMessAuthInfo_def
    apply (simp add: Let_def)
    apply (rule crypto_law.wp_rand_Reader [OF assms(1)])
    apply (simp split: sum.split, intro allI impI)
    apply (rule crypto_law.wp_rand_Reader [OF assms(1)])
    apply (simp split: sum.split, intro allI impI)
    apply (rule crypto_law.wp_rand_Reader [OF assms(1)])
    apply (simp split: sum.split, intro allI impI)
    apply (rule wp_any)
    apply (simp split: sum.splits)
    using opens by blast
qed

theorem buildVMessConnectFrame_opens_witness:
  "wp (buildVMessConnectFrame mem_world mem_crypto mem_network (replicate 16 (CHR 0x07)) ''a'') (\<lambda>r s'. \<forall>req respKey respIV.
    r = Inr (req, respKey, respIV) \<longrightarrow> (\<exists>bodyKey. length bodyKey = 16 \<and> respKey = md5Sum mem_network bodyKey)) mem0"
  by (rule wp_mono [OF buildVMessConnectFrame_opens [OF mem_crypto.crypto_law_axioms]])
    (auto simp: mem_network_def mem_crypto_def aes_blocks_def block_cipher_def split: if_splits)

end
