(* ===== verification/Gateway.thy ===== *)
theory Gateway
  imports Selector Stats Upstream Metrics
begin

text \<open>
  Package \<^verbatim>\<open>proxy\<close> (\<^verbatim>\<open>internal/proxy/gateway.go\<close>): a request of a client is authenticated, takes
  a slot, gets a node and is relayed through it, as an HTTP request or as a CONNECT tunnel; the
  slot is given back, the connections are closed and the traffic is recorded.  A handler returns
  what the client is told (\<open>reply\<close>) and the metrics.  Of a request the model has what the code
  reads; \<^verbatim>\<open>net/http\<close> and \<^verbatim>\<open>io.Copy\<close> on connections are parameters (\<open>http_net\<close>).  The two
  goroutines of a tunnel are one step \<open>copy_both\<close>, after which each has closed its destination; its
  inside is \<open>Tunnel\<close>.
\<close>

section \<open>Requests, responses, connections\<close>

record request =
  rq_Method :: string
  rq_ProxyAuth :: string
  rq_URLHost :: string
  rq_Host :: string
  rq_ContentLength :: int

record response =
  rs_StatusCode :: int
  rs_Status :: string
  rs_Header :: "(string \<times> string list) list"

datatype reply =
    HttpError nat string bool
  | Relayed int "(string \<times> string) list" int
  | RawReply string
  | Tunnelled int int

record 's http_net =
  SetDeadline :: "conn \<Rightarrow> time option \<Rightarrow> ('s, unit) state"
  SetReadDeadline :: "conn \<Rightarrow> time \<Rightarrow> ('s, unit) state"
  SetWriteDeadline :: "conn \<Rightarrow> time \<Rightarrow> ('s, unit) state"
  ReadResponse :: "conn \<Rightarrow> ('s, error + response) state"
  request_Write :: "request \<Rightarrow> error + string"
  request_WriteProxy :: "request \<Rightarrow> error + string"
  Hijack :: "('s, error + nat) state"
  copy_body :: "conn \<Rightarrow> duration \<Rightarrow> ('s, int) state"
  copy_both :: "conn \<Rightarrow> conn \<Rightarrow> duration \<Rightarrow> ('s, int \<times> int) state"

record 's gateway =
  gw_W :: "'s world"
  gw_C :: "'s crypto"
  gw_N :: "'s network"
  gw_HN :: "'s http_net"
  gw_J :: node_json
  gw_H :: "string \<Rightarrow> string"
  gw_stickyTTL :: duration
  gw_cipher :: aead
  gw_dialTO :: duration
  gw_idleTO :: duration
  gw_respHdrTO :: duration
  gw_connectTO :: duration

section \<open>Connections with an idle time-out\<close>

definition bumpReadDeadline :: "'s gateway \<Rightarrow> duration \<Rightarrow> conn \<Rightarrow> ('s, unit) state" where
  "bumpReadDeadline g timeout c =
     (if timeout \<le> 0 then State_Monad.return ()
      else do { now \<leftarrow> time_Now (gw_W g); SetReadDeadline (gw_HN g) c (now + timeout) })"

definition bumpWriteDeadline :: "'s gateway \<Rightarrow> duration \<Rightarrow> conn \<Rightarrow> ('s, unit) state" where
  "bumpWriteDeadline g timeout c =
     (if timeout \<le> 0 then State_Monad.return ()
      else do { now \<leftarrow> time_Now (gw_W g); SetWriteDeadline (gw_HN g) c (now + timeout) })"

definition idle_Write :: "'s gateway \<Rightarrow> conn \<Rightarrow> string \<Rightarrow> ('s, error option) state" where
  "idle_Write g c bytes = do {
     _ \<leftarrow> (if gw_idleTO g > 0 then bumpWriteDeadline g (gw_idleTO g) c else State_Monad.return ());
     conn_Write (gw_N g) c bytes
   }"

section \<open>Authentication\<close>

definition parseBasicAuth :: "string \<Rightarrow> (string \<times> string) option" where
  "parseBasicAuth header =
     (if \<not> HasPrefix header ''Basic '' then None
      else case DecodeString StdEncoding (TrimPrefix header ''Basic '') of
        None \<Rightarrow> None
      | Some decoded \<Rightarrow> (case SplitN2 decoded '':'' of [u, p] \<Rightarrow> Some (u, p) | _ \<Rightarrow> None))"

text \<open>The user with a slot taken, or the error; with \<open>Inr\<close> the slot must be given back.\<close>

definition authenticate :: "'s gateway \<Rightarrow> request \<Rightarrow> ('s, error + User \<times> Filters) state" where
  "authenticate g r =
     (case parseBasicAuth (rq_ProxyAuth r) of
        None \<Rightarrow> State_Monad.return (Inl (Errorf ''missing auth''))
      | Some (uid, password) \<Rightarrow>
          (case ParseUsername uid of
             (realUID, filters) \<Rightarrow> do {
               user \<leftarrow> Authenticate (gw_W g) (gw_C g) realUID password;
               case user of
                 Inl err \<Rightarrow> State_Monad.return (Inl err)
               | Inr user \<Rightarrow> do {
                   err \<leftarrow> Acquire (gw_W g) user;
                   State_Monad.return (case err of Some e \<Rightarrow> Inl e | None \<Rightarrow> Inr (user, filters))
                 }
             }))"

definition errorsIsOneOf :: "error \<Rightarrow> error list \<Rightarrow> bool" where
  "errorsIsOneOf err targets \<longleftrightarrow> list_ex (\<lambda>target. err = target) targets"

definition writeProxyAccessError :: "error \<Rightarrow> reply" where
  "writeProxyAccessError err =
     (if errorsIsOneOf err [ErrQuotaExceeded, ErrUserDisabled, ErrUserExpired]
      then HttpError 403 (error_text err) False
      else if errorsIsOneOf err [ErrConcurrencyExceeded] then HttpError 429 (error_text err) False
      else HttpError 407 (error_text err) True)"

definition isAuthFailure :: "error \<Rightarrow> bool" where
  "isAuthFailure err \<longleftrightarrow>
     \<not> errorsIsOneOf err [ErrQuotaExceeded, ErrUserDisabled, ErrUserExpired, ErrConcurrencyExceeded]"

section \<open>The upstream\<close>

definition dialUpstream :: "'s gateway \<Rightarrow> ProxyNode \<Rightarrow> ('s, error + nat) state" where
  "dialUpstream g node =
     (if n_TLSEnabled node
      then dial_tls (gw_N g) (node_addr node)
             (if n_ServerName node = [] then n_Host node else n_ServerName node)
             (n_TLSSkipVerify node) (gw_dialTO g)
      else dial_tcp (gw_N g) (node_addr node) (gw_dialTO g))"

abbreviation crlf :: string where
  "crlf \<equiv> [CHR 0x0D, CHR 0x0A]"

definition connect_request :: "ProxyNode \<Rightarrow> aead \<Rightarrow> string \<Rightarrow> string" where
  "connect_request node c target =
     (let authValue = (case ProxyAuthorization node c of Inr v \<Rightarrow> v | Inl _ \<Rightarrow> []);
          authHeader = (if authValue \<noteq> [] then ''Proxy-Authorization: '' @ authValue @ crlf else [])
      in ''CONNECT '' @ target @ '' HTTP/1.1'' @ crlf @ ''Host: '' @ target @ crlf @ authHeader @ crlf)"

text \<open>\<^verbatim>\<open>StatusCode/100\<close> truncates toward zero; a status code is not negative.\<close>

definition establishTunnel :: "'s gateway \<Rightarrow> conn \<Rightarrow> ProxyNode \<Rightarrow> string \<Rightarrow> ('s, error option) state" where
  "establishTunnel g c node target = do {
     now \<leftarrow> time_Now (gw_W g);
     _ \<leftarrow> SetDeadline (gw_HN g) c (Some (now + gw_connectTO g));
     err \<leftarrow> conn_Write (gw_N g) c (connect_request node (gw_cipher g) target);
     case err of
       Some e \<Rightarrow> State_Monad.return (Some e)
     | None \<Rightarrow> do {
         resp \<leftarrow> ReadResponse (gw_HN g) c;
         case resp of
           Inl e \<Rightarrow> State_Monad.return (Some e)
         | Inr resp \<Rightarrow> do {
             _ \<leftarrow> SetDeadline (gw_HN g) c None;
             State_Monad.return
               (if rs_StatusCode resp div 100 \<noteq> 2
                then Some (Errorf (''upstream connect failed: '' @ rs_Status resp)) else None)
           }
       }
   }"

definition copyHeader :: "(string \<times> string) list \<Rightarrow> (string \<times> string list) list \<Rightarrow> (string \<times> string) list" where
  "copyHeader dst src = dst @ concat (map (\<lambda>(key, values). map (\<lambda>value. (key, value)) values) src)"

text \<open>The bytes of the request for an HTTP proxy, with the credentials after the first line if
  the writer has left them out.\<close>

definition patch_auth :: "string \<Rightarrow> string \<Rightarrow> string" where
  "patch_auth authValue raw =
     (if authValue \<noteq> [] \<and> \<not> Contains raw (crlf @ ''Proxy-Authorization: '')
      then case cut_at raw crlf of
        None \<Rightarrow> raw
      | Some (first, rest) \<Rightarrow> first @ crlf @ ''Proxy-Authorization: '' @ authValue @ crlf @ rest
      else raw)"

definition writeProxyRequest :: "'s gateway \<Rightarrow> conn \<Rightarrow> request \<Rightarrow> ('s, error option) state" where
  "writeProxyRequest g c req =
     (case request_WriteProxy (gw_HN g) req of
        Inl err \<Rightarrow> State_Monad.return (Some err)
      | Inr raw \<Rightarrow> idle_Write g c (patch_auth (rq_ProxyAuth req) raw))"

definition writeOriginRequest :: "'s gateway \<Rightarrow> conn \<Rightarrow> request \<Rightarrow> ('s, error option) state" where
  "writeOriginRequest g c req =
     (case request_Write (gw_HN g) req of
        Inl err \<Rightarrow> State_Monad.return (Some err)
      | Inr raw \<Rightarrow> idle_Write g c raw)"

definition pickRegion :: "ProxyNode \<Rightarrow> string" where
  "pickRegion node = (if n_DetectedRegion node \<noteq> [] then n_DetectedRegion node else n_ExpectedRegion node)"

definition safeContentLength :: "int \<Rightarrow> int" where
  "safeContentLength len = (if len < 0 then 0 else len)"

definition target_addr :: "string \<Rightarrow> string" where
  "target_addr host = (if \<not> Contains host '':'' then host @ '':80'' else host)"

section \<open>HTTP requests\<close>

abbreviation bad_gateway :: "error \<Rightarrow> reply" where
  "bad_gateway err \<equiv> HttpError 502 (error_text err) False"

definition traffic :: "User \<Rightarrow> ProxyNode \<Rightarrow> int \<Rightarrow> int \<Rightarrow> TrafficRecord" where
  "traffic user node up down = \<lparr>t_UID = u_UID user, t_NodeID = n_ID node, t_Region = pickRegion node,
     t_Upload = up, t_Download = down, t_Requests = 1\<rparr>"

text \<open>The answer is read, relayed and recorded.\<close>

definition relay_response ::
  "'s gateway \<Rightarrow> request \<Rightarrow> User \<Rightarrow> ProxyNode \<Rightarrow> conn \<Rightarrow> response \<Rightarrow> duration \<Rightarrow> ('s, reply) state" where
  "relay_response g r user node c resp timeout = do {
     written \<leftarrow> copy_body (gw_HN g) c timeout;
     _ \<leftarrow> RecordTraffic (gw_W g) (traffic user node (safeContentLength (rq_ContentLength r)) written);
     State_Monad.return (Relayed (rs_StatusCode resp) (copyHeader [] (rs_Header resp)) written)
   }"

definition http_via_target ::
  "'s gateway \<Rightarrow> request \<Rightarrow> User \<Rightarrow> ProxyNode \<Rightarrow> Registry option \<Rightarrow> ('s, reply \<times> Registry option) state" where
  "http_via_target g r user node m = do {
     let req = r\<lparr>rq_ProxyAuth := []\<rparr>;
     dialled \<leftarrow> DialTarget (gw_W g) (gw_C g) (gw_N g) node (gw_cipher g) (target_addr (rq_URLHost req)) (gw_dialTO g);
     case dialled of
       Inl err \<Rightarrow> State_Monad.return (bad_gateway err, map_option IncProxyUpstreamFailures m)
     | Inr targetConn \<Rightarrow> do {
         err \<leftarrow> writeOriginRequest g targetConn req;
         out \<leftarrow> (case err of
             Some e \<Rightarrow> State_Monad.return (bad_gateway e, map_option IncProxyUpstreamFailures m)
           | None \<Rightarrow> do {
               resp \<leftarrow> ReadResponse (gw_HN g) targetConn;
               case resp of
                 Inl e \<Rightarrow> State_Monad.return (bad_gateway e, map_option IncProxyUpstreamFailures m)
               | Inr resp \<Rightarrow> do {
                   reply \<leftarrow> relay_response g r user node targetConn resp (gw_idleTO g);
                   State_Monad.return (reply, m)
                 }
             });
         _ \<leftarrow> conn_Close (gw_N g) targetConn;
         State_Monad.return out
       }
   }"

definition http_via_proxy ::
  "'s gateway \<Rightarrow> request \<Rightarrow> User \<Rightarrow> ProxyNode \<Rightarrow> Registry option \<Rightarrow> ('s, reply \<times> Registry option) state" where
  "http_via_proxy g r user node m = do {
     let req = r\<lparr>rq_ProxyAuth := []\<rparr>;
     dialled \<leftarrow> dialUpstream g node;
     case dialled of
       Inl err \<Rightarrow> State_Monad.return (bad_gateway err, map_option IncProxyUpstreamFailures m)
     | Inr i \<Rightarrow> do {
         let c = RawConn i;
         let req = (case ProxyAuthorization node (gw_cipher g) of
             Inr v \<Rightarrow> if v \<noteq> [] then req\<lparr>rq_ProxyAuth := v\<rparr> else req
           | Inl _ \<Rightarrow> req);
         now \<leftarrow> time_Now (gw_W g);
         _ \<leftarrow> SetDeadline (gw_HN g) c (Some (now + gw_respHdrTO g));
         err \<leftarrow> writeProxyRequest g c req;
         out \<leftarrow> (case err of
             Some e \<Rightarrow> State_Monad.return (bad_gateway e, map_option IncProxyUpstreamFailures m)
           | None \<Rightarrow> do {
               resp \<leftarrow> ReadResponse (gw_HN g) c;
               case resp of
                 Inl e \<Rightarrow> State_Monad.return (bad_gateway e, map_option IncProxyUpstreamFailures m)
               | Inr resp \<Rightarrow> do {
                   _ \<leftarrow> SetDeadline (gw_HN g) c None;
                   reply \<leftarrow> relay_response g r user node c resp (gw_idleTO g);
                   State_Monad.return (reply, m)
                 }
             });
         _ \<leftarrow> conn_Close (gw_N g) c;
         State_Monad.return out
       }
   }"

definition handleHTTP :: "'s gateway \<Rightarrow> request \<Rightarrow> Registry option \<Rightarrow> ('s, reply \<times> Registry option) state" where
  "handleHTTP g r m = do {
     auth \<leftarrow> authenticate g r;
     case auth of
       Inl err \<Rightarrow> State_Monad.return (writeProxyAccessError err,
         if isAuthFailure err then map_option IncProxyAuthFailures m else m)
     | Inr (user, filters) \<Rightarrow> do {
         let m = map_option IncProxyRequests m;
         picked \<leftarrow> Pick (gw_W g) (gw_J g) (gw_H g) (gw_stickyTTL g) (u_UID user) filters;
         out \<leftarrow> (case picked of
             Inl err \<Rightarrow> State_Monad.return (bad_gateway err, map_option IncProxySelectionFailures m)
           | Inr node \<Rightarrow>
               if IsTargetDialProtocol (n_Protocol node) then http_via_target g r user node m
               else http_via_proxy g r user node m);
         _ \<leftarrow> Release (gw_W g) (u_UID user);
         State_Monad.return out
       }
   }"

section \<open>CONNECT tunnels\<close>

abbreviation reply_502 :: string where
  "reply_502 \<equiv> ''HTTP/1.1 502 Bad Gateway'' @ crlf @ crlf"

abbreviation reply_200 :: string where
  "reply_200 \<equiv> ''HTTP/1.1 200 Connection Established'' @ crlf @ crlf"

definition run_tunnel ::
  "'s gateway \<Rightarrow> User \<Rightarrow> ProxyNode \<Rightarrow> conn \<Rightarrow> conn \<Rightarrow> Registry option \<Rightarrow> ('s, reply \<times> Registry option) state" where
  "run_tunnel g user node client target m = do {
     let m = map_option IncActiveTunnels m;
     _ \<leftarrow> conn_Write (gw_N g) client reply_200;
     (upload, download) \<leftarrow> copy_both (gw_HN g) client target (gw_idleTO g);
     _ \<leftarrow> conn_Close (gw_N g) target;
     _ \<leftarrow> conn_Close (gw_N g) client;
     _ \<leftarrow> RecordTraffic (gw_W g) (traffic user node upload download);
     State_Monad.return (Tunnelled upload download, map_option DecActiveTunnels m)
   }"

definition refuse_tunnel :: "'s gateway \<Rightarrow> conn \<Rightarrow> Registry option \<Rightarrow> ('s, reply \<times> Registry option) state" where
  "refuse_tunnel g client m = do {
     _ \<leftarrow> conn_Write (gw_N g) client reply_502;
     State_Monad.return (RawReply reply_502, map_option IncProxyUpstreamFailures m)
   }"

definition tunnel ::
  "'s gateway \<Rightarrow> request \<Rightarrow> User \<Rightarrow> ProxyNode \<Rightarrow> conn \<Rightarrow> Registry option \<Rightarrow> ('s, reply \<times> Registry option) state" where
  "tunnel g r user node client m =
     (if IsTargetDialProtocol (n_Protocol node) then do {
        dialled \<leftarrow> DialTarget (gw_W g) (gw_C g) (gw_N g) node (gw_cipher g) (rq_Host r) (gw_dialTO g);
        case dialled of
          Inl err \<Rightarrow> refuse_tunnel g client m
        | Inr target \<Rightarrow> run_tunnel g user node client target m
      }
      else do {
        dialled \<leftarrow> dialUpstream g node;
        case dialled of
          Inl err \<Rightarrow> refuse_tunnel g client m
        | Inr i \<Rightarrow> do {
            err \<leftarrow> establishTunnel g (RawConn i) node (rq_Host r);
            case err of
              Some e \<Rightarrow> do {
                out \<leftarrow> refuse_tunnel g client m;
                _ \<leftarrow> conn_Close (gw_N g) (RawConn i);
                State_Monad.return out
              }
            | None \<Rightarrow> run_tunnel g user node client (RawConn i) m
          }
      })"

definition handleConnect :: "'s gateway \<Rightarrow> request \<Rightarrow> Registry option \<Rightarrow> ('s, reply \<times> Registry option) state" where
  "handleConnect g r m = do {
     auth \<leftarrow> authenticate g r;
     case auth of
       Inl err \<Rightarrow> State_Monad.return (writeProxyAccessError err,
         if isAuthFailure err then map_option IncProxyAuthFailures m else m)
     | Inr (user, filters) \<Rightarrow> do {
         let m = map_option IncProxyConnectRequests m;
         picked \<leftarrow> Pick (gw_W g) (gw_J g) (gw_H g) (gw_stickyTTL g) (u_UID user) filters;
         out \<leftarrow> (case picked of
             Inl err \<Rightarrow> State_Monad.return (bad_gateway err, map_option IncProxySelectionFailures m)
           | Inr node \<Rightarrow> do {
               hijacked \<leftarrow> Hijack (gw_HN g);
               case hijacked of
                 Inl err \<Rightarrow> State_Monad.return (HttpError 500 (error_text err) False, m)
               | Inr i \<Rightarrow> do {
                   out \<leftarrow> tunnel g r user node (RawConn i) m;
                   _ \<leftarrow> conn_Close (gw_N g) (RawConn i);
                   State_Monad.return out
                 }
             });
         _ \<leftarrow> Release (gw_W g) (u_UID user);
         State_Monad.return out
       }
   }"

definition Handler_gateway :: "'s gateway \<Rightarrow> request \<Rightarrow> Registry option \<Rightarrow> ('s, reply \<times> Registry option) state" where
  "Handler_gateway g r m =
     (if EqualFold (rq_Method r) ''CONNECT'' then handleConnect g r m else handleHTTP g r m)"

section \<open>The slot is given back\<close>

text \<open>The network does not touch the stores.\<close>

locale gateway_store = reliable "gw_W g" view for g :: "'s gateway" and view +
  assumes dial_apart: "keeps view (dial_tcp (gw_N g) a d)" "keeps view (dial_tls (gw_N g) a h v d)"
      "keeps view (dial_socks5 (gw_N g) a cred d target)"
    and conn_apart: "keeps view (conn_Write (gw_N g) c bytes)" "keeps view (ReadFull (gw_N g) c n)"
      "keeps view (conn_Close (gw_N g) c)" "keeps view (rand_Reader (gw_C g) n)"
    and http_apart: "keeps view (SetDeadline (gw_HN g) c o_t)" "keeps view (SetReadDeadline (gw_HN g) c t)"
      "keeps view (SetWriteDeadline (gw_HN g) c t)" "keeps view (ReadResponse (gw_HN g) c)"
      "keeps view (Hijack (gw_HN g))" "keeps view (copy_body (gw_HN g) c d)"
      "keeps view (copy_both (gw_HN g) c c' d)"

definition conn_keys :: "string set" where
  "conn_keys = range ConnKey"

lemma conn_keys [simp]:
  "StickyKey uid h sid \<notin> conn_keys" "UsageKey uid d \<notin> conn_keys" "RequestsKey uid \<notin> conn_keys"
  "NodeUsageKey i d \<notin> conn_keys" "NodeRequestsKey i \<notin> conn_keys" "RegionUsageKey r \<notin> conn_keys"
  "HourlyUsageKey h \<notin> conn_keys" "ConnKey uid \<in> conn_keys"
  by (auto simp: conn_keys_def StickyKey_def UsageKey_def RequestsKey_def NodeUsageKey_def
      NodeRequestsKey_def RegionUsageKey_def HourlyUsageKey_def ConnKey_def)

lemma keeps_through: "keeps view m \<Longrightarrow> keeps (keys_in view K) m"
  by (simp add: keeps_def)

context reliable
begin

abbreviation slots_kept :: "('s, 'a) state \<Rightarrow> bool" where
  "slots_kept \<equiv> keeps (keys_in view conn_keys)"

lemma load_keeps_slots: "slots_kept (load_candidates W J f ids)"
  by (induction ids) (auto simp: LoadNode_def intro!: keeps_bind calls_keep split: sum.splits)

lemma Pick_keeps_slots: "slots_kept (Pick W J H ttl uid f)"
proof -
  have m: "slots_kept (matchNodeIDs W f)"
    by (auto simp: matchNodeIDs_def Let_def intro!: keeps_bind calls_keep)
  have c: "slots_kept (candidates W J f)"
    unfolding candidates_def
    by (auto intro!: keeps_bind m load_keeps_slots calls_keep split: sum.splits)
  have s: "slots_kept (sticky_lookup W (StickyKey uid h sid))" for h sid
    unfolding sticky_lookup_def by (auto intro!: keeps_bind calls_keep split: sum.splits)
  show ?thesis
    unfolding Pick_def Let_def
    by (auto intro!: keeps_bind c s calls_keep clock_keeps split: option.splits sum.splits)
qed

lemma RecordTraffic_keeps_slots: "slots_kept (RecordTraffic W r)"
  unfolding RecordTraffic_def
  by (intro keeps_bind clock_keeps calls_keep) (auto simp: RecordTraffic_pipe_def)

end

context gateway_store
begin

lemmas apart = dial_apart conn_apart http_apart

lemma close_apart: "keeps view (close_with (gw_N g) c err)"
  unfolding close_with_def by (auto intro!: keeps_bind apart)

lemma dialMaybeTLS_apart: "keeps view (dialMaybeTLS (gw_N g) node d)"
  unfolding dialMaybeTLS_def by (auto intro!: apart)

lemma consume_apart: "keeps view (consumeVLESSResponse (gw_N g) c)"
  "keeps view (consumeVMessResponse (gw_C g) (gw_N g) c key iv)"
  unfolding consumeVLESSResponse_def consumeVMessResponse_def
  by (auto simp: Let_def intro!: keeps_bind apart split: sum.splits)

lemma frame_apart: "keeps view (buildVMessConnectFrame (gw_W g) (gw_C g) (gw_N g) userID addr)"
  unfolding buildVMessConnectFrame_def buildVMessAuthInfo_def
  by (auto simp: Let_def intro!: keeps_bind apart clock_view split: sum.splits)

lemmas dial_parts = keeps_bind apart close_apart dialMaybeTLS_apart consume_apart frame_apart

lemma DialTarget_apart: "keeps view (DialTarget (gw_W g) (gw_C g) (gw_N g) node c target d)"
proof -
  have "keeps view (dialSOCKSTarget (gw_N g) node c target d)"
    unfolding dialSOCKSTarget_def by (auto intro!: dial_parts split: sum.splits)
  moreover have "keeps view (dialShadowsocksTarget (gw_N g) node c target d)"
    unfolding dialShadowsocksTarget_def Let_def by (auto intro!: dial_parts split: sum.splits option.splits)
  moreover have "keeps view (dialTrojanTarget (gw_N g) node c target d)"
    unfolding dialTrojanTarget_def Let_def by (auto intro!: dial_parts split: sum.splits option.splits)
  moreover have "keeps view (dialVLESSTarget (gw_N g) node c target d)"
    unfolding dialVLESSTarget_def by (auto intro!: dial_parts split: sum.splits option.splits)
  moreover have "keeps view (dialVMessTarget (gw_W g) (gw_C g) (gw_N g) node c target d)"
    unfolding dialVMessTarget_def by (auto intro!: dial_parts split: sum.splits option.splits)
  ultimately show ?thesis by (simp add: DialTarget_def Let_def)
qed

lemma gateway_steps_apart:
  "keeps view (idle_Write g c bytes)" "keeps view (dialUpstream g node)"
  "keeps view (establishTunnel g c node target)" "keeps view (writeProxyRequest g c req)"
  "keeps view (writeOriginRequest g c req)" "keeps view (refuse_tunnel g c m)"
  unfolding idle_Write_def bumpWriteDeadline_def dialUpstream_def establishTunnel_def writeProxyRequest_def
    writeOriginRequest_def refuse_tunnel_def Let_def
  by (auto intro!: keeps_bind apart clock_view split: sum.splits option.splits)

lemmas steps_keep_slots = dial_apart [THEN keeps_through] conn_apart [THEN keeps_through] http_apart [THEN keeps_through]
  clock_view [THEN keeps_through] DialTarget_apart [THEN keeps_through] gateway_steps_apart [THEN keeps_through]

lemma relays_keep_slots:
  "slots_kept (relay_response g req user node c resp d)" "slots_kept (run_tunnel g user node c c' m)"
  unfolding relay_response_def run_tunnel_def Let_def
  by (auto intro!: keeps_bind steps_keep_slots RecordTraffic_keeps_slots)

lemma legs_apart:
  "slots_kept (http_via_target g req user node m)" "slots_kept (http_via_proxy g req user node m)"
  "slots_kept (tunnel g req user node c m)"
  unfolding http_via_target_def http_via_proxy_def tunnel_def Let_def
  by (auto intro!: keeps_bind steps_keep_slots relays_keep_slots split: sum.splits option.splits)

end

text \<open>The counters of all users, and those with one slot more for \<open>uid\<close>.\<close>

definition all_slots :: "store \<Rightarrow> string \<Rightarrow> int option" where
  "all_slots v = slots (st_keys v)"

definition taken :: "string \<Rightarrow> (string \<Rightarrow> int option) \<Rightarrow> string \<Rightarrow> int option" where
  "taken uid k = k(uid := map_option (\<lambda>n. n + 1) (k uid))"

definition counted :: "store \<Rightarrow> bool" where
  "counted v \<longleftrightarrow> (\<forall>uid. \<exists>n. all_slots v uid = Some n \<and> 0 \<le> n \<and> n < 2 ^ 63 - 1)"

lemma kept_slots: "keys_in view conn_keys s' = keys_in view conn_keys s \<Longrightarrow> all_slots (view s') = all_slots (view s)"
proof (rule ext)
  fix uid assume "keys_in view conn_keys s' = keys_in view conn_keys s"
  then have "keys_in view conn_keys s' (ConnKey uid) = keys_in view conn_keys s (ConnKey uid)" by simp
  then show "all_slots (view s') uid = all_slots (view s) uid" by (simp add: all_slots_def slots_def)
qed

lemma other_slots:
  "keeps_other_keys (ConnKey uid) v v' \<Longrightarrow> slots (st_keys v') uid = x \<Longrightarrow> all_slots v' = (all_slots v)(uid := x)"
  by (rule ext) (auto simp: keeps_other_keys_def all_slots_def slots_def)

context gateway_store
begin

lemma Authenticate_keeps_slots: "slots_kept (Authenticate (gw_W g) C uid password)"
  unfolding Authenticate_def UserPendingUsage_def
  by (auto simp: Let_def intro!: keeps_bind calls_keep clock_keeps split: sum.splits option.splits)

lemma wp_authenticate:
  assumes "counted (view s)"
    and refused: "\<And>err s'. all_slots (view s') = all_slots (view s) \<Longrightarrow> Q (Inl err) s'"
    and accepted: "\<And>user filters s'. all_slots (view s') = taken (u_UID user) (all_slots (view s)) \<Longrightarrow>
      Q (Inr (user, filters)) s'"
  shows "wp (authenticate g r) Q s"
proof -
  have acquire: "wp (Acquire (gw_W g) user)
      (\<lambda>err. Q (case err of Some e \<Rightarrow> Inl e | None \<Rightarrow> Inr (user, filters))) s1"
    if v1: "all_slots (view s1) = all_slots (view s)" for user filters s1
  proof -
    obtain n where n: "slots (st_keys (view s1)) (u_UID user) = Some n" "0 \<le> n" "n < 2 ^ 63 - 1"
      using assms(1) v1 unfolding counted_def by (metis all_slots_def)
    show ?thesis
    proof (rule wp_mono [OF wp_Acquire [OF n]])
      fix err s2
      assume post: "keeps_other_keys (ConnKey (u_UID user)) (view s1) (view s2) \<and>
        (if u_MaxConcurrency user > 0 \<and> n \<ge> u_MaxConcurrency user
         then err = Some ErrConcurrencyExceeded \<and> slots (st_keys (view s2)) (u_UID user) = Some n
         else err = None \<and> slots (st_keys (view s2)) (u_UID user) = Some (n + 1))"
      then have v2: "all_slots (view s2) = (all_slots (view s1))(u_UID user := slots (st_keys (view s2)) (u_UID user))"
        by (intro other_slots) simp_all
      from n(1) have "all_slots (view s1) (u_UID user) = Some n" by (simp add: all_slots_def)
      then have "all_slots (view s) (u_UID user) = Some n" by (simp add: v1)
      then show "Q (case err of Some e \<Rightarrow> Inl e | None \<Rightarrow> Inr (user, filters)) s2"
        using post v1 v2
        by (auto intro!: refused accepted simp: taken_def fun_upd_idem split: if_splits)
    qed
  qed
  show ?thesis
    unfolding authenticate_def
    by (auto intro!: refused wp_keeps [OF Authenticate_keeps_slots] dest!: kept_slots
        intro!: acquire split: option.splits prod.splits sum.splits)
qed

lemma wp_give_back:
  assumes "all_slots (view s) = taken uid k" and "\<And>u. \<exists>n. k u = Some n \<and> 0 \<le> n"
    and "\<And>s'. all_slots (view s') = k \<Longrightarrow> Q () s'"
  shows "wp (Release (gw_W g) uid) Q s"
proof -
  obtain n where n: "k uid = Some n" "0 \<le> n" using assms(2) by blast
  then have "slots (st_keys (view s)) uid = Some (n + 1)"
    using fun_cong [OF assms(1), of uid] by (simp add: all_slots_def taken_def)
  then show ?thesis
  proof (rule wp_mono [OF wp_Release])
    show "0 \<le> n + 1" using n(2) by simp
    fix x s'
    assume "keeps_other_keys (ConnKey uid) (view s) (view s') \<and>
      slots (st_keys (view s')) uid = Some (max 0 (n + 1 - 1))"
    then have "all_slots (view s') = (all_slots (view s))(uid := Some n)"
      using n(2) by (intro other_slots) simp_all
    then have "all_slots (view s') = k"
      using n(1) assms(1) by (auto simp: taken_def)
    then show "Q x s'" using assms(3) by simp
  qed
qed

end

context gateway_store
begin

lemma wp_Handler_slots:
  assumes "counted (view s)"
  shows "wp (Handler_gateway g r m) (\<lambda>_ s'. all_slots (view s') = all_slots (view s)) s"
proof -
  have nonneg: "\<exists>n. all_slots (view s) u = Some n \<and> 0 \<le> n" for u
    using assms unfolding counted_def by blast
  have gives_back: "wp (Release (gw_W g) uid) (\<lambda>_ s'. all_slots (view s') = all_slots (view s)) s1"
    if "all_slots (view s1) = taken uid (all_slots (view s))" for s1 uid
    by (rule wp_give_back [OF that nonneg]) simp
  have http: "wp (handleHTTP g r m) (\<lambda>_ s'. all_slots (view s') = all_slots (view s)) s"
    unfolding handleHTTP_def wp_bind Let_def
  proof (rule wp_authenticate [OF assms], goal_cases refused accepted)
    case (accepted user filters s1)
    have v: "all_slots (view s2) = taken (u_UID user) (all_slots (view s))"
      if "keys_in view conn_keys s2 = keys_in view conn_keys s1" for s2
      using kept_slots [of view s2 s1] that accepted by simp
    show ?case
      using v by (auto intro!: wp_keeps [OF Pick_keeps_slots] wp_keeps [OF legs_apart(1)]
          wp_keeps [OF legs_apart(2)] gives_back split: sum.splits)
  qed simp
  have connect: "wp (handleConnect g r m) (\<lambda>_ s'. all_slots (view s') = all_slots (view s)) s"
    unfolding handleConnect_def wp_bind Let_def
  proof (rule wp_authenticate [OF assms], goal_cases refused accepted)
    case (accepted user filters s1)
    have v: "all_slots (view s2) = taken (u_UID user) (all_slots (view s))"
      if "keys_in view conn_keys s2 = keys_in view conn_keys s1" for s2
      using kept_slots [of view s2 s1] that accepted by simp
    show ?case
      using v by (auto intro!: wp_keeps [OF Pick_keeps_slots] wp_keeps [OF legs_apart(3)]
          wp_keeps [OF keeps_through [OF http_apart(5), where K = conn_keys]]
          wp_keeps [OF keeps_through [OF conn_apart(3), where K = conn_keys]] gives_back split: sum.splits)
  qed simp
  from http connect show ?thesis by (simp add: Handler_gateway_def)
qed

end

section \<open>The connections are closed\<close>

text \<open>
  \<open>closes opened A B m\<close>: \<open>m\<close> closes the connections of \<open>A\<close>, none outside \<open>B\<close>, and leaves no new
  one open.
\<close>

definition closes :: "('s \<Rightarrow> nat set) \<Rightarrow> nat set \<Rightarrow> nat set \<Rightarrow> ('s, 'a) state \<Rightarrow> bool" where
  "closes opened A B m \<longleftrightarrow> (\<forall>s r s'. run_state m s = (r, s') \<longrightarrow>
     opened s - B \<subseteq> opened s' \<and> opened s' \<subseteq> opened s - A)"

lemma closes_keeps: "closes opened {} {} m \<longleftrightarrow> keeps opened m"
  unfolding closes_def keeps_def Diff_empty by (simp add: set_eq_subset conj_commute)

lemma closes_return [simp]: "closes opened {} B (State_Monad.return a)"
  by (auto simp: closes_def)

lemma closes_weaken: "closes opened A B m \<Longrightarrow> A' \<subseteq> A \<Longrightarrow> B \<subseteq> B' \<Longrightarrow> closes opened A' B' m"
  unfolding closes_def by blast

lemma closes_bind:
  assumes "closes opened A B m" and "\<And>a. closes opened A' B (f a)"
  shows "closes opened (A \<union> A') B (State_Monad.bind m f)"
  unfolding closes_def
proof (intro allI impI)
  fix s r s' assume "run_state (State_Monad.bind m f) s = (r, s')"
  then obtain a s1 where "run_state m s = (a, s1)" "run_state (f a) s1 = (r, s')"
    by (auto split: prod.splits)
  then have "opened s - B \<subseteq> opened s1" "opened s1 \<subseteq> opened s - A"
      "opened s1 - B \<subseteq> opened s'" "opened s' \<subseteq> opened s1 - A'"
    using assms unfolding closes_def by blast+
  then show "opened s - B \<subseteq> opened s' \<and> opened s' \<subseteq> opened s - (A \<union> A')" by blast
qed

lemma closes_then: "keeps opened m \<Longrightarrow> (\<And>a. closes opened A B (f a)) \<Longrightarrow> closes opened A B (State_Monad.bind m f)"
  using closes_bind [of opened "{}" B m A f] closes_weaken [of opened "{}" "{}" m "{}" B]
  by (simp add: closes_keeps)

lemma closes_after: "closes opened A B m \<Longrightarrow> (\<And>a. keeps opened (f a)) \<Longrightarrow> closes opened A B (State_Monad.bind m f)"
  using closes_bind [of opened A B m "{}" f] closes_weaken [of opened "{}" "{}" "f _" "{}" B]
  by (simp add: closes_keeps)

definition dials_by :: "('c \<Rightarrow> nat) \<Rightarrow> ('s \<Rightarrow> nat set) \<Rightarrow> ('s, error + 'c) state \<Rightarrow> bool" where
  "dials_by key opened m \<longleftrightarrow> (\<forall>s r s'. run_state m s = (r, s') \<longrightarrow>
     (case r of Inl _ \<Rightarrow> opened s' = opened s
      | Inr c \<Rightarrow> key c \<notin> opened s \<and> opened s' = insert (key c) (opened s)))"

lemma closes_dial_by:
  assumes "dials_by key opened m" and "\<And>e. closes opened A B (f (Inl e))"
    and "\<And>c. closes opened (insert (key c) A) (insert (key c) B) (f (Inr c))"
  shows "closes opened A B (State_Monad.bind m f)"
  unfolding closes_def
proof (intro allI impI)
  fix s r s' assume "run_state (State_Monad.bind m f) s = (r, s')"
  then obtain a s1 where m: "run_state m s = (a, s1)" and f: "run_state (f a) s1 = (r, s')"
    by (auto split: prod.splits)
  show "opened s - B \<subseteq> opened s' \<and> opened s' \<subseteq> opened s - A"
  proof (cases a)
    case (Inl e)
    then have "opened s1 = opened s" using m assms(1) unfolding dials_by_def by fastforce
    then show ?thesis using f assms(2) Inl unfolding closes_def by metis
  next
    case (Inr c)
    then have "key c \<notin> opened s \<and> opened s1 = insert (key c) (opened s)"
      using m assms(1) unfolding dials_by_def by fastforce
    moreover have "opened s1 - insert (key c) B \<subseteq> opened s'" "opened s' \<subseteq> opened s1 - insert (key c) A"
      using f assms(3) Inr unfolding closes_def by blast+
    ultimately show ?thesis by blast
  qed
qed

lemma closes_dial:
  assumes "dials opened m" and "\<And>e. closes opened A B (f (Inl e))"
    and "\<And>i. closes opened (insert i A) (insert i B) (f (Inr i))"
  shows "closes opened A B (State_Monad.bind m f)"
  by (rule closes_dial_by [where key = "\<lambda>i. i"]) (use assms in \<open>auto simp: dials_by_def dials_def\<close>)

locale gateway_net = network_law "gw_W g" "gw_C g" "gw_N g" opened
  for g :: "'s gateway" and opened +
  assumes http_open: "keeps opened (SetDeadline (gw_HN g) c o_t)" "keeps opened (SetReadDeadline (gw_HN g) c t)"
      "keeps opened (SetWriteDeadline (gw_HN g) c t)" "keeps opened (ReadResponse (gw_HN g) c)"
      "keeps opened (copy_body (gw_HN g) c d)" "keeps opened (copy_both (gw_HN g) c c' d)"
    and hijack: "dials opened (Hijack (gw_HN g))"
    and services_open: "keeps opened (redis_cl (gw_W g) cmd)" "keeps opened (users_tbl (gw_W g) uq)"
      "keeps opened (nodes_tbl (gw_W g) nq)" "keeps opened (rand_Intn (gw_W g) n)"
begin

lemma services_calls_open:
  "keeps opened (redis_Get (gw_W g) k)" "keeps opened (redis_SMembers (gw_W g) k)"
  "keeps opened (redis_SInter (gw_W g) ks)" "keeps opened (redis_Set (gw_W g) k v ttl)"
  "keeps opened (redis_Del (gw_W g) ks)" "keeps opened (redis_Exec (gw_W g) cs)"
  "keeps opened (redis_Incr (gw_W g) k)" "keeps opened (redis_Decr (gw_W g) k)"
  "keeps opened (db_First (users_tbl (gw_W g)) P)" "keeps opened (db_First (nodes_tbl (gw_W g)) P')"
  "keeps opened (db_Find (nodes_tbl (gw_W g)) P')"
  unfolding redis_Get_def redis_SMembers_def redis_SInter_def redis_Set_def redis_Del_def redis_Exec_def
    redis_Incr_def redis_Decr_def db_First_def db_Find_def
  by (auto intro!: keeps_bind services_open)

lemmas open_steps = keeps_bind services_calls_open services_open clock_open write_open http_open

lemma load_open: "keeps opened (load_candidates (gw_W g) J f ids)"
  by (induction ids) (auto simp: LoadNode_def intro!: open_steps split: sum.splits)

lemma Pick_open: "keeps opened (Pick (gw_W g) J H ttl uid f)"
proof -
  have m: "keeps opened (matchNodeIDs (gw_W g) f)"
    by (auto simp: matchNodeIDs_def Let_def intro!: open_steps)
  have c: "keeps opened (candidates (gw_W g) J f)"
    unfolding candidates_def by (auto intro!: m load_open open_steps split: sum.splits)
  have s: "keeps opened (sticky_lookup (gw_W g) k)" for k
    unfolding sticky_lookup_def by (auto intro!: open_steps split: sum.splits)
  show ?thesis
    unfolding Pick_def Let_def by (auto intro!: c s open_steps split: option.splits sum.splits)
qed

lemma authenticate_open: "keeps opened (authenticate g r)"
  unfolding authenticate_def Authenticate_def UserPendingUsage_def Acquire_def
  by (auto simp: Let_def intro!: open_steps split: option.splits sum.splits prod.splits)

lemma Release_open: "keeps opened (Release (gw_W g) uid)"
  unfolding Release_def by (auto intro!: open_steps split: sum.splits)

lemma steps_open:
  "keeps opened (idle_Write g c bytes)" "keeps opened (establishTunnel g c node target)"
  "keeps opened (writeProxyRequest g c req)" "keeps opened (writeOriginRequest g c req)"
  "keeps opened (relay_response g req user node c resp d)" "keeps opened (refuse_tunnel g c m)"
  unfolding idle_Write_def bumpWriteDeadline_def establishTunnel_def writeProxyRequest_def
    writeOriginRequest_def relay_response_def refuse_tunnel_def RecordTraffic_def Let_def
  by (auto intro!: open_steps split: sum.splits option.splits)

end

context gateway_net
begin

lemma closes_close: "closes opened {root c} {root c} (conn_Close (gw_N g) c)"
  using close_one by (force simp: closes_def)

text \<open>An answer kept while its connection is closed; a close of one of the connections.\<close>

lemma finally_close:
  assumes "\<And>a. keeps opened (f a)" and "keeps opened m" and "root c \<in> B"
  shows "closes opened {root c} B (m \<bind> (\<lambda>out. conn_Close (gw_N g) c \<bind> (\<lambda>_. f out)))"
  by (rule closes_weaken [OF closes_then [OF assms(2) closes_after [OF closes_close assms(1)]]])
    (use assms(3) in auto)

lemma DialTarget_dials: "dials_by root opened (DialTarget (gw_W g) (gw_C g) (gw_N g) node c target d)"
  unfolding dials_by_def using wp_DialTarget [unfolded leakless_def] by (blast dest: wp_runD)

lemma dialUpstream_dials: "dials opened (dialUpstream g node)"
  by (simp add: dialUpstream_def dial_tcp dial_tls)

lemma run_tunnel_closes:
  "closes opened {root target, root client} {root target, root client} (run_tunnel g user node client target m)"
proof -
  have c: "closes opened {root client} {root client, root target} (conn_Close (gw_N g) client \<bind>
      (\<lambda>_. RecordTraffic (gw_W g) rec \<bind> (\<lambda>_. State_Monad.return x)))" for rec and x :: "reply \<times> Registry option"
    by (rule closes_weaken [OF closes_after [OF closes_close]])
      (auto simp: RecordTraffic_def intro!: open_steps)
  have t: "closes opened {root target, root client} {root target, root client}
      (conn_Close (gw_N g) target \<bind> (\<lambda>_. conn_Close (gw_N g) client \<bind>
      (\<lambda>_. RecordTraffic (gw_W g) rec \<bind> (\<lambda>_. State_Monad.return x))))" for rec and x :: "reply \<times> Registry option"
  proof -
    have "closes opened ({root target} \<union> {root client}) {root client, root target}
      (conn_Close (gw_N g) target \<bind> (\<lambda>_. conn_Close (gw_N g) client \<bind>
      (\<lambda>_. RecordTraffic (gw_W g) rec \<bind> (\<lambda>_. State_Monad.return x))))"
      by (rule closes_bind [OF closes_weaken [OF closes_close] c]) auto
    then show ?thesis by (simp add: insert_commute)
  qed
  show ?thesis
    unfolding run_tunnel_def Let_def
    by (intro closes_then write_open http_open) (simp split: prod.split add: t)
qed

lemma http_via_target_closes: "closes opened {} {} (http_via_target g r user node m)"
  unfolding http_via_target_def Let_def
proof (rule closes_dial_by [OF DialTarget_dials], goal_cases refused dialled)
  case (dialled c)
  show ?case
    unfolding sum.case
    by (rule closes_then [OF steps_open(4)], rule finally_close)
      (auto intro!: keeps_bind steps_open http_open split: option.split sum.split)
qed simp

lemma http_via_proxy_closes: "closes opened {} {} (http_via_proxy g r user node m)"
  unfolding http_via_proxy_def Let_def
proof (rule closes_dial [OF dialUpstream_dials], goal_cases refused dialled)
  case (dialled i)
  have c: "root (RawConn i) \<in> {i}" by simp
  show ?case
    unfolding sum.case
    by (rule closes_then [OF clock_open], rule closes_then [OF http_open(1)],
        rule closes_then [OF steps_open(3)], rule finally_close [where c = "RawConn i", simplified])
      (auto intro!: keeps_bind steps_open http_open split: option.split sum.split)
qed simp

lemma tunnel_closes: "closes opened {} {root client} (tunnel g r user node client m)"
proof -
  have refuse: "closes opened {} B (refuse_tunnel g client m)" for B
    by (rule closes_weaken [OF steps_open(6) [folded closes_keeps]]) simp_all
  have run: "closes opened {root c} {root c, root client} (run_tunnel g user node client c m)" for c
    by (rule closes_weaken [OF run_tunnel_closes]) auto
  have refuse_close: "closes opened {root c} {root c, root client}
      (refuse_tunnel g client m \<bind> (\<lambda>out. conn_Close (gw_N g) c \<bind> (\<lambda>_. State_Monad.return out)))" for c
    by (rule finally_close) (simp_all add: steps_open)
  have target: "closes opened {} {root client}
      (DialTarget (gw_W g) (gw_C g) (gw_N g) node (gw_cipher g) (rq_Host r) (gw_dialTO g) \<bind>
        case_sum (\<lambda>err. refuse_tunnel g client m) (\<lambda>c. run_tunnel g user node client c m))"
    by (rule closes_dial_by [OF DialTarget_dials]) (simp_all add: refuse run)
  have proxy: "closes opened {} {root client}
      (dialUpstream g node \<bind> case_sum (\<lambda>err. refuse_tunnel g client m)
        (\<lambda>i. establishTunnel g (RawConn i) node (rq_Host r) \<bind> (\<lambda>err. case err of
           Some e \<Rightarrow> refuse_tunnel g client m \<bind>
             (\<lambda>out. conn_Close (gw_N g) (RawConn i) \<bind> (\<lambda>_. State_Monad.return out))
         | None \<Rightarrow> run_tunnel g user node client (RawConn i) m)))"
    using run [of "RawConn _"] refuse_close [of "RawConn _"]
    by (intro closes_dial [OF dialUpstream_dials])
      (auto intro!: refuse closes_then steps_open split: option.split)
  show ?thesis unfolding tunnel_def using target proxy by simp
qed

lemma Handler_open: "keeps opened (Handler_gateway g r m)"
proof -
  have http: "keeps opened (handleHTTP g r m)"
    unfolding handleHTTP_def Let_def
    by (auto intro!: keeps_bind authenticate_open Pick_open Release_open
        http_via_target_closes [unfolded closes_keeps] http_via_proxy_closes [unfolded closes_keeps]
        split: sum.split)
  have hijacked: "keeps opened (Hijack (gw_HN g) \<bind> (\<lambda>hijacked. case hijacked of
       Inl err \<Rightarrow> State_Monad.return (HttpError 500 (error_text err) False, m')
     | Inr i \<Rightarrow> tunnel g r user node (RawConn i) m' \<bind>
         (\<lambda>out. conn_Close (gw_N g) (RawConn i) \<bind> (\<lambda>_. State_Monad.return out))))" for user node m'
    unfolding closes_keeps [symmetric]
  proof (rule closes_dial [OF hijack], goal_cases refused dialled)
    case (dialled i)
    have "closes opened ({} \<union> {i}) {i} (tunnel g r user node (RawConn i) m' \<bind>
         (\<lambda>out. conn_Close (gw_N g) (RawConn i) \<bind> (\<lambda>_. State_Monad.return out)))"
      using tunnel_closes [of "RawConn i"] closes_close [of "RawConn i"]
      by (intro closes_bind closes_after) simp_all
    then show ?case by simp
  qed simp
  have "keeps opened (handleConnect g r m)"
    unfolding handleConnect_def Let_def
    by (auto intro!: keeps_bind authenticate_open Pick_open Release_open hijacked split: sum.split)
  with http show ?thesis by (simp add: Handler_gateway_def)
qed

end

section \<open>What is counted\<close>

text \<open>How a reply is counted: \<open>m\<close> before the request, \<open>acc\<close> after it was accepted.\<close>

fun reply_counts :: "Registry \<Rightarrow> Registry \<Rightarrow> reply \<Rightarrow> Registry option \<Rightarrow> bool" where
  "reply_counts m acc (HttpError code _ challenge) m' \<longleftrightarrow>
     (if code = 407 then challenge \<and> m' = Some (IncProxyAuthFailures m)
      else \<not> challenge \<and>
        (if code = 403 \<or> code = 429 then m' = Some m
         else if code = 500 then m' = Some acc
         else code = 502 \<and> m' \<in> {Some (IncProxySelectionFailures acc), Some (IncProxyUpstreamFailures acc)}))"
| "reply_counts m acc (RawReply raw) m' \<longleftrightarrow> m' = Some (IncProxyUpstreamFailures acc)"
| "reply_counts m acc (Relayed status hdrs written) m' \<longleftrightarrow> m' = Some acc"
| "reply_counts m acc (Tunnelled up down) m' \<longleftrightarrow> m' = Some acc"

definition returns :: "('a \<Rightarrow> bool) \<Rightarrow> ('s, 'a) state \<Rightarrow> bool" where
  "returns P m \<longleftrightarrow> (\<forall>s. P (fst (run_state m s)))"

lemma returns_return [simp]: "returns P (State_Monad.return a) = P a"
  by (simp add: returns_def)

lemma returns_any: "(\<And>a. returns P (f a)) \<Longrightarrow> returns P (State_Monad.bind m f)"
  by (auto simp: returns_def split: prod.split)

lemma returns_bind: "returns R m \<Longrightarrow> (\<And>a. R a \<Longrightarrow> returns P (f a)) \<Longrightarrow> returns P (State_Monad.bind m f)"
  by (auto simp: returns_def split: prod.split) (metis fst_conv)

text \<open>Steps whose answer does not matter between a result and its return.\<close>

lemma returns_after:
  "returns P m \<Longrightarrow> returns P (m \<bind> (\<lambda>out. n \<bind> (\<lambda>_. State_Monad.return out)))"
  by (rule returns_bind, assumption, rule returns_any) simp

definition counts_from :: "Registry \<Rightarrow> Registry \<Rightarrow> reply \<times> Registry option \<Rightarrow> bool" where
  "counts_from m acc out \<longleftrightarrow> reply_counts m acc (fst out) (snd out)"

lemma counts_from [simp]:
  "counts_from m acc (bad_gateway err, Some (IncProxyUpstreamFailures acc))"
  "counts_from m acc (bad_gateway err, Some (IncProxySelectionFailures acc))"
  "counts_from m acc (HttpError 500 txt False, Some acc)"
  "counts_from m acc (RawReply raw, Some (IncProxyUpstreamFailures acc))"
  "counts_from m acc (Tunnelled up down, Some acc)"
  "counts_from m acc (reply, Some acc) = reply_counts m acc reply (Some acc)"
  by (simp_all add: counts_from_def)

lemma relay_counts: "returns (\<lambda>reply. reply_counts m acc reply (Some acc)) (relay_response g r user node c resp d)"
  unfolding relay_response_def by (auto intro!: returns_any)

lemma legs_count:
  "returns (counts_from m acc) (http_via_target g r user node (Some acc))"
  "returns (counts_from m acc) (http_via_proxy g r user node (Some acc))"
  unfolding http_via_target_def http_via_proxy_def Let_def
  by ((rule returns_bind [OF relay_counts] returns_after returns_any | simp split: sum.split option.split
      | intro conjI allI impI)+)

lemma tunnel_counts:
  assumes "int64_range (activeTunnels acc)"
  shows "returns (counts_from m acc) (tunnel g r user node c (Some acc))"
proof -
  have "returns (counts_from m acc) (run_tunnel g user node c c' (Some acc))" for c'
    unfolding run_tunnel_def Let_def
    using assms by (auto intro!: returns_any simp: IncDecActiveTunnels)
  moreover have "returns (counts_from m acc) (refuse_tunnel g c (Some acc))"
    unfolding refuse_tunnel_def by (auto intro!: returns_any)
  ultimately show ?thesis
    unfolding tunnel_def by (auto intro!: returns_any returns_after split: sum.split option.split)
qed

lemma refusal_counts [simp]:
  "isAuthFailure err \<Longrightarrow> counts_from m acc (writeProxyAccessError err, Some (IncProxyAuthFailures m))"
  "\<not> isAuthFailure err \<Longrightarrow> counts_from m acc (writeProxyAccessError err, Some m)"
  by (auto simp: counts_from_def writeProxyAccessError_def isAuthFailure_def errorsIsOneOf_def)

lemma returns_counts:
  "returns (counts_from m acc) prog \<Longrightarrow> wp prog (\<lambda>out _. reply_counts m acc (fst out) (snd out)) s"
  by (simp add: returns_def wp_def counts_from_def split_beta)

lemma activeTunnels_requests [simp]: "activeTunnels (IncProxyConnectRequests m) = activeTunnels m"
  by (simp add: IncProxyConnectRequests_def)

definition accepted_as :: "request \<Rightarrow> Registry \<Rightarrow> Registry" where
  "accepted_as r m = (if EqualFold (rq_Method r) ''CONNECT'' then IncProxyConnectRequests m else IncProxyRequests m)"

lemma handleHTTP_counts: "returns (counts_from m (IncProxyRequests m)) (handleHTTP g r (Some m))"
  unfolding handleHTTP_def Let_def
  by ((rule legs_count returns_after returns_any
      | simp only: returns_return | simp split: sum.split prod.split | intro conjI allI impI)+)

lemma handleConnect_counts:
  "int64_range (activeTunnels m) \<Longrightarrow>
   returns (counts_from m (IncProxyConnectRequests m)) (handleConnect g r (Some m))"
  unfolding handleConnect_def Let_def
  by ((rule tunnel_counts returns_after returns_any
      | simp only: returns_return activeTunnels_requests | simp split: sum.split prod.split | intro conjI allI impI)+)

section \<open>An instance\<close>

definition mem_http :: "mem http_net" where
  "mem_http = \<lparr>
     SetDeadline = (\<lambda>c t. State_Monad.return ()), SetReadDeadline = (\<lambda>c t. State_Monad.return ()),
     SetWriteDeadline = (\<lambda>c t. State_Monad.return ()),
     ReadResponse = (\<lambda>c. State_Monad.return (Inr \<lparr>rs_StatusCode = 200, rs_Status = ''200 OK'', rs_Header = []\<rparr>)),
     request_Write = (\<lambda>r. Inr (rq_Method r @ '' / HTTP/1.1'' @ crlf @ crlf)),
     request_WriteProxy = (\<lambda>r. Inr (rq_Method r @ '' / HTTP/1.1'' @ crlf @ crlf)),
     Hijack = mem_dial, copy_body = (\<lambda>c d. State_Monad.return 5),
     copy_both = (\<lambda>c c' d. State_Monad.return (3, 5))\<rparr>"

definition mem_gateway :: "mem gateway" where
  "mem_gateway = \<lparr>gw_W = mem_world, gw_C = mem_crypto, gw_N = mem_network, gw_HN = mem_http, gw_J = mem_json,
     gw_H = (\<lambda>s. s), gw_stickyTTL = 3600, gw_cipher = \<lparr>NonceSize = 12, Seal = (\<lambda>n p. p @ n), Open = (\<lambda>n s. Inr s)\<rparr>,
     gw_dialTO = 10, gw_idleTO = 300, gw_respHdrTO = 30, gw_connectTO = 10\<rparr>"

lemma keeps_mem_dial: "keeps mem_view mem_dial"
  by (auto simp: keeps_def mem_dial_def Let_def mem_view_def mem_keys_def)

interpretation mem_gateway: gateway_store mem_gateway mem_view
proof -
  have [simp]: "gw_W mem_gateway = mem_world" by (simp add: mem_gateway_def)
  show "gateway_store mem_gateway mem_view"
    using mem.reliable_axioms keeps_mem_dial
    by (auto simp: gateway_store_def gateway_store_axioms_def mem_gateway_def mem_network_def mem_http_def
        mem_crypto_def keeps_def mem_view_def mem_keys_def)
qed

lemma keeps_conns:
  "keeps (\<lambda>s. set (mem_conns s)) (redis_cl mem_world cmd)"
  "keeps (\<lambda>s. set (mem_conns s)) (users_tbl mem_world uq)"
  "keeps (\<lambda>s. set (mem_conns s)) (nodes_tbl mem_world nq)"
  "keeps (\<lambda>s. set (mem_conns s)) (rand_Intn mem_world n)"
  by (cases cmd) (auto simp: keeps_def mem_world_def on_rows_def split: prod.splits)

interpretation mem_gateway_net: gateway_net mem_gateway "\<lambda>s. set (mem_conns s)"
  using mem_network.network_law_axioms keeps_conns mem_dial_dials
  by (auto simp: gateway_net_def gateway_net_axioms_def mem_gateway_def mem_http_def keeps_def)

section \<open>Properties\<close>


definition mem_request :: request where
  "mem_request = \<lparr>rq_Method = ''CONNECT'', rq_ProxyAuth = ''Basic YWxpY2U6cHc='', rq_URLHost = ''example.org:443'',
     rq_Host = ''example.org:443'', rq_ContentLength = 0\<rparr>"


text \<open>
  C2: A request leaves no connection open: those that were open before it are open after it, and
  those it dialled, and the client's that a CONNECT takes over, are closed on every path.
\<close>

theorem Handler_closes_connections:
  assumes "gateway_net g opened"
  shows "wp (Handler_gateway g r m) (\<lambda>_ s'. opened s' = opened s) s"
  by (rule wp_keeps [OF gateway_net.Handler_open [OF assms]])

theorem Handler_closes_connections_witness:
  "wp (Handler_gateway mem_gateway mem_request None) (\<lambda>_ s'. set (mem_conns s') = {4}) (mem_user\<lparr>mem_conns := [4]\<rparr>)"
  by (rule wp_mono [OF Handler_closes_connections [OF mem_gateway_net.gateway_net_axioms]]) simp



lemma relay_response_auth [simp]:
  "relay_response g (r\<lparr>rq_ProxyAuth := x\<rparr>) = relay_response g r"
  by (intro ext) (simp add: relay_response_def)

text \<open>
  C19: The client's credentials go no further than the gateway: what it does towards the upstream
  is the same whatever the client's Proxy-Authorization was.
\<close>

theorem credentials_not_forwarded:
  "http_via_target g (r\<lparr>rq_ProxyAuth := x\<rparr>) user node m = http_via_target g (r\<lparr>rq_ProxyAuth := y\<rparr>) user node m \<and>
   http_via_proxy g (r\<lparr>rq_ProxyAuth := x\<rparr>) user node m = http_via_proxy g (r\<lparr>rq_ProxyAuth := y\<rparr>) user node m \<and>
   tunnel g (r\<lparr>rq_ProxyAuth := x\<rparr>) user node c m = tunnel g (r\<lparr>rq_ProxyAuth := y\<rparr>) user node c m"
  by (simp_all add: http_via_target_def http_via_proxy_def tunnel_def Let_def cong: option.case_cong sum.case_cong)

lemma parseBasicAuth_encoded:
  assumes "CHR '':'' \<notin> set user"
  shows "parseBasicAuth (''Basic '' @ EncodeToString StdEncoding (user @ '':'' @ pass)) = Some (user, pass)"
proof -
  have "SplitN2 (user @ '':'' @ pass) '':'' = [user, pass]"
    using assms by (simp add: SplitN2_def cut_at_first [of _ _ "[]", simplified])
  then show ?thesis by (simp add: parseBasicAuth_def HasPrefix_def TrimPrefix_def)
qed

text \<open>
  The header the gateway sends to an upstream proxy is one that the gateway reads back: the
  credentials of the node, for a user name without a colon.
\<close>

theorem parseBasicAuth_ProxyAuthorization:
  assumes "Decrypt c (n_UpstreamUsernameEnc node) = Inr user"
    and "Decrypt c (n_UpstreamPasswordEnc node) = Inr pass"
    and "CHR '':'' \<notin> set user" and "user \<noteq> [] \<or> pass \<noteq> []"
  shows "\<exists>h. ProxyAuthorization node c = Inr h \<and> parseBasicAuth h = Some (user, pass)"
  using assms parseBasicAuth_encoded [OF assms(3)] by (auto simp: ProxyAuthorization_def)

theorem parseBasicAuth_ProxyAuthorization_witness:
  "\<exists>h. ProxyAuthorization (zero_node\<lparr>n_UpstreamUsernameEnc := EncodeToString StdEncoding ''a''\<rparr>) \<lparr>NonceSize = 0, Seal = (\<lambda>n p. p), Open = (\<lambda>n s. Inr s)\<rparr> = Inr h
     \<and> parseBasicAuth h = Some (''a'', [])"
  by (rule parseBasicAuth_ProxyAuthorization) (simp_all add: zero_node_def Decrypt_def Let_def del: EncodeToString.simps)

end
