(* ===== verification/GatewayServes.thy ===== *)
theory GatewayServes
  imports Gateway
begin

text \<open>
  That the gateway serves: a request of a user who may use it, with a slot free and a node that fits,
  is relayed or tunnelled when the network answers.
\<close>

section \<open>The parts answer\<close>

text \<open>Every connection is made, written to and answered with a success.\<close>

definition network_answers :: "'s gateway \<Rightarrow> bool" where
  "network_answers g \<longleftrightarrow>
     (\<forall>a d. returns (\<lambda>r. \<not> isl r) (dial_tcp (gw_N g) a d)) \<and>
     (\<forall>a h v d. returns (\<lambda>r. \<not> isl r) (dial_tls (gw_N g) a h v d)) \<and>
     (\<forall>c bytes. bytes \<noteq> [] \<longrightarrow> returns (\<lambda>e. e = None) (conn_Write (gw_N g) c bytes)) \<and>
     (\<forall>c. returns (\<lambda>r. \<exists>resp. r = Inr resp \<and> rs_StatusCode resp div 100 = 2) (ReadResponse (gw_HN g) c)) \<and>
     (\<forall>req. \<exists>raw. raw \<noteq> [] \<and> request_WriteProxy (gw_HN g) req = Inr raw) \<and>
     returns (\<lambda>r. \<not> isl r) (Hijack (gw_HN g))"

definition eligible :: "'s gateway \<Rightarrow> store \<Rightarrow> request \<Rightarrow> User \<Rightarrow> Filters \<Rightarrow> bool" where
  "eligible g v r u f \<longleftrightarrow>
     (\<exists>name password. parseBasicAuth (rq_ProxyAuth r) = Some (name, password) \<and> ParseUsername name = (u_UID u, f) \<and>
        (\<forall>now. may_use (gw_C g) password now (pending (st_keys v) (u_UID u)) u = None)) \<and>
     find (\<lambda>u'. u_UID u' = u_UID u) (st_users v) = Some u \<and>
     (\<exists>n. slots (st_keys v) (u_UID u) = Some n \<and> 0 \<le> n \<and> n < 2 ^ 63 - 1 \<and>
        (0 < u_MaxConcurrency u \<longrightarrow> n < u_MaxConcurrency u))"

text \<open>The cache is coherent, the table has a node for the filters, and all nodes are HTTP proxies.\<close>

definition provided :: "'s gateway \<Rightarrow> store \<Rightarrow> Filters \<Rightarrow> bool" where
  "provided g v f \<longleftrightarrow> cache_inv (gw_J g) (st_keys v) \<and> (\<exists>n\<in>set (st_nodes v). db_match f n) \<and>
     (\<forall>n\<in>set (st_nodes v) \<union> offered (gw_J g) (st_keys v) f. \<not> IsTargetDialProtocol (n_Protocol n))"

definition served :: "reply \<Rightarrow> bool" where
  "served rep \<longleftrightarrow> (case rep of Relayed _ _ _ \<Rightarrow> True | Tunnelled _ _ \<Rightarrow> True | _ \<Rightarrow> False)"

lemma provided_cong:
  assumes "provided g v f" and "keeps_other_keys (ConnKey uid) v v'"
  shows "provided g v' f"
proof -
  obtain m where v': "v' = v\<lparr>st_keys := m\<rparr>" and m: "\<And>j. j \<noteq> ConnKey uid \<Longrightarrow> m j = st_keys v j"
    using assms(2) unfolding keeps_other_keys_def by blast
  have node: "m (NodeKey j) = st_keys v (NodeKey j)" for j
    by (rule m) (simp add: NodeKey_def ConnKey_def)
  have "m k = st_keys v k" if "index_key k \<or> k = ''healthy_nodes''" for k
    using that by (intro m) (auto simp: ConnKey_def index_key_def HasPrefix_def)
  then have "cache_inv J m = cache_inv J (st_keys v)" for J
    by (intro cache_inv_cong node)
  moreover have "offered J m f = offered J (st_keys v) f" for J
    using cached_cong [of m _ "st_keys v" J, OF node] by (simp add: offered_def)
  ultimately show ?thesis using assms(1) by (simp add: provided_def v')
qed

lemma sticky_row_in: "sticky_row v k = Some n \<Longrightarrow> n \<in> set (st_nodes v)"
  by (auto simp: sticky_row_def find_Some_iff split: sum.splits)

lemma pool_in: "n \<in> pool J v f \<Longrightarrow> n \<in> set (st_nodes v) \<union> offered J (st_keys v) f"
  by (auto simp: pool_def split: if_splits)

lemma wp_Pick_provided:
  assumes "reliable (gw_W g) view" and "provided g (view s) f"
    and "\<And>n s'. \<not> IsTargetDialProtocol (n_Protocol n) \<Longrightarrow> Q (Inr n) s'"
  shows "wp (Pick (gw_W g) (gw_J g) H ttl uid f) Q s"
proof (rule reliable.wp_Pick [OF assms(1)], goal_cases inv hit pick empty)
  case (hit n s')
  then have "n \<in> set (st_nodes (view s))" by (auto intro: sticky_row_in split: if_splits)
  then show ?case using assms(2) by (intro assms(3)) (auto simp: provided_def)
next
  case (pick n s')
  then show ?case using assms(2) pool_in by (intro assms(3)) (auto simp: provided_def)
next
  case (empty s')
  then show ?case using assms(2) by (auto simp: provided_def pool_def split: if_splits)
qed (use assms(2) in \<open>simp add: provided_def\<close>)

lemma wp_authenticate_eligible:
  assumes "reliable (gw_W g) view" and "eligible g (view s) r u f"
    and "\<And>s'. keeps_other_keys (ConnKey (u_UID u)) (view s) (view s') \<Longrightarrow> Q (Inr (u, f)) s'"
  shows "wp (authenticate g r) Q s"
proof -
  obtain name password n where auth: "parseBasicAuth (rq_ProxyAuth r) = Some (name, password)"
      "ParseUsername name = (u_UID u, f)"
      "\<And>now. may_use (gw_C g) password now (pending (st_keys (view s)) (u_UID u)) u = None"
    and row: "find (\<lambda>u'. u_UID u' = u_UID u) (st_users (view s)) = Some u"
    and n: "slots (st_keys (view s)) (u_UID u) = Some n" "0 \<le> n" "n < 2 ^ 63 - 1"
      "0 < u_MaxConcurrency u \<Longrightarrow> n < u_MaxConcurrency u"
    using assms(2) unfolding eligible_def by blast
  have acquired: "wp (Acquire (gw_W g) u) (\<lambda>err. Q (case err of Some e \<Rightarrow> Inl e | None \<Rightarrow> Inr (u, f))) s1"
    if v1: "view s1 = view s" for s1
  proof (rule wp_mono [OF reliable.wp_Acquire [OF assms(1), of s1 u n]])
    fix err s2
    assume "keeps_other_keys (ConnKey (u_UID u)) (view s1) (view s2) \<and>
      (if u_MaxConcurrency u > 0 \<and> n \<ge> u_MaxConcurrency u
       then err = Some ErrConcurrencyExceeded \<and> slots (st_keys (view s2)) (u_UID u) = Some n
       else err = None \<and> slots (st_keys (view s2)) (u_UID u) = Some (n + 1))"
    then show "Q (case err of Some e \<Rightarrow> Inl e | None \<Rightarrow> Inr (u, f)) s2"
      using n(4) v1 by (auto intro!: assms(3) split: if_splits)
  qed (use n v1 in simp_all)
  show ?thesis
    unfolding authenticate_def auth(1) option.case prod.case auth(2) wp_bind
    by (rule wp_Authenticate [OF assms(1)])
      (use row auth(3) acquired in \<open>auto split: sum.split\<close>)
qed

section \<open>The request is served\<close>

lemma patch_auth_nonempty: "raw \<noteq> [] \<Longrightarrow> patch_auth authValue raw \<noteq> []"
  by (auto simp: patch_auth_def split: option.split)

lemma returns_wp: "returns P m \<Longrightarrow> wp m (\<lambda>a _. P a) s"
  by (simp add: returns_def wp_def split_beta)

lemma returns_wp_after: "returns P m \<Longrightarrow> wp m (\<lambda>a. wp n (\<lambda>_ _. P a)) s"
  using returns_wp [OF returns_after [of P m n], of s] by simp

lemma answers_parts:
  assumes "network_answers g"
  shows "returns (\<lambda>r. \<not> isl r) (dialUpstream g node)"
    and "bytes \<noteq> [] \<Longrightarrow> returns (\<lambda>e. e = None) (idle_Write g c bytes)"
    and "returns (\<lambda>e. e = None) (writeProxyRequest g c req)"
    and "returns (\<lambda>e. e = None) (establishTunnel g c node target)"
proof -
  have sends: "bytes \<noteq> [] \<Longrightarrow> returns (\<lambda>e. e = None) (conn_Write (gw_N g) c bytes)" for c bytes
    using assms by (simp add: network_answers_def)
  show "returns (\<lambda>r. \<not> isl r) (dialUpstream g node)"
    using assms by (simp add: dialUpstream_def network_answers_def)
  show idle: "returns (\<lambda>e. e = None) (idle_Write g c bytes)" if "bytes \<noteq> []" for bytes c
    unfolding idle_Write_def by (rule returns_any, rule sends [OF that])
  obtain raw where "raw \<noteq> []" "request_WriteProxy (gw_HN g) req = Inr raw"
    using assms unfolding network_answers_def by blast
  then show "returns (\<lambda>e. e = None) (writeProxyRequest g c req)"
    using idle [OF patch_auth_nonempty] by (simp add: writeProxyRequest_def)
  have answer: "returns (\<lambda>r. \<exists>resp. r = Inr resp \<and> rs_StatusCode resp div 100 = 2) (ReadResponse (gw_HN g) c)"
    using assms by (simp add: network_answers_def)
  have "connect_request node (gw_cipher g) target \<noteq> []" by (simp add: connect_request_def Let_def)
  note sent = sends [OF this, of c]
  show "returns (\<lambda>e. e = None) (establishTunnel g c node target)"
    unfolding establishTunnel_def
    by (rule returns_any, rule returns_any, rule returns_bind [OF sent], simp only: option.case,
        rule returns_bind [OF answer]) (auto intro!: returns_any)
qed

lemma legs_served:
  assumes "network_answers g"
  shows "returns (\<lambda>out. served (fst out)) (http_via_proxy g r u node m)"
    and "\<not> IsTargetDialProtocol (n_Protocol node) \<Longrightarrow> returns (\<lambda>out. served (fst out)) (tunnel g r u node c m)"
proof -
  have answer: "returns (\<lambda>r. \<exists>resp. r = Inr resp \<and> rs_StatusCode resp div 100 = 2) (ReadResponse (gw_HN g) c)" for c
    using assms by (simp add: network_answers_def)
  have relay: "returns served (relay_response g r u node c resp d)" for c resp d
    unfolding relay_response_def by (intro returns_any) (simp add: served_def)
  have run: "returns (\<lambda>out. served (fst out)) (run_tunnel g u node c c' m)" for c'
    unfolding run_tunnel_def Let_def by (auto intro!: returns_any simp: served_def)
  show "returns (\<lambda>out. served (fst out)) (http_via_proxy g r u node m)"
    unfolding http_via_proxy_def Let_def
    by (rule returns_bind [OF answers_parts(1) [OF assms]])
      (auto intro!: returns_any returns_after returns_bind [OF answers_parts(3) [OF assms]]
        returns_bind [OF answer] returns_bind [OF relay] split: sum.split)
  show "returns (\<lambda>out. served (fst out)) (tunnel g r u node c m)" if "\<not> IsTargetDialProtocol (n_Protocol node)"
    unfolding tunnel_def if_not_P [OF that]
    by (rule returns_bind [OF answers_parts(1) [OF assms]])
      (auto intro!: returns_bind [OF answers_parts(4) [OF assms]] run split: sum.split)
qed


definition mem_serving :: mem where
  "mem_serving = mem0\<lparr>mem_users := [zero_user\<lparr>u_ID := 1, u_UID := ''alice'', u_PasswordHash := ''$2a$pw'',
     u_Enabled := True, u_MaxConcurrency := 1\<rparr>], mem_nodes := [node7]\<rparr>"

lemma mem_serving_view:
  "st_keys (mem_view mem_serving) = Map.empty" "st_nodes (mem_view mem_serving) = [node7]"
  "st_users (mem_view mem_serving) = [zero_user\<lparr>u_ID := 1, u_UID := ''alice'', u_PasswordHash := ''$2a$pw'',
     u_Enabled := True, u_MaxConcurrency := 1\<rparr>]"
  by (simp_all add: mem_serving_def mem0_def mem_view_def mem_keys_def)


end
