(* ===== verification/Accounting.thy ===== *)
theory Accounting
  imports GatewayServes StatsRace
begin

text \<open>
  The gateway (\<^verbatim>\<open>internal/proxy/gateway.go\<close>) and the statistics (\<^verbatim>\<open>internal/stats/service.go\<close>) together:
  the bytes that a reply says it has carried are charged, once, to the user the request names and to the
  node that carried them, and a request that carries nothing charges nothing.
\<close>

section \<open>The books\<close>

text \<open>What the accounts are made of: the rows, and the counters in Redis.\<close>

definition books :: "store \<Rightarrow> User list \<times> ProxyNode list \<times> keyspace" where
  "books v = (st_users v, st_nodes v, st_keys v |` {k. HasPrefix k ''usage:''})"

lemma books_key: "books v' = books v \<Longrightarrow> HasPrefix k ''usage:'' \<Longrightarrow> st_keys v' k = st_keys v k"
  unfolding books_def by (metis (mono_tags, lifting) mem_Collect_eq prod.inject restrict_in)

lemma books_rows: "books v' = books v \<Longrightarrow> st_users v' = st_users v \<and> st_nodes v' = st_nodes v"
  by (simp add: books_def)

lemma booksI:
  "st_users v' = st_users v \<Longrightarrow> st_nodes v' = st_nodes v \<Longrightarrow>
   (\<And>k. HasPrefix k ''usage:'' \<Longrightarrow> st_keys v' k = st_keys v k) \<Longrightarrow> books v' = books v"
  by (auto simp: books_def restrict_map_def)

lemma books_num:
  assumes "books v' = books v"
  shows "num (st_keys v') (UsageKey x d) = num (st_keys v) (UsageKey x d)"
  using num_cong [of "st_keys v'" "UsageKey x d" "st_keys v"] books_key [OF assms UsageKey_prefix] by simp

lemma books_views:
  assumes "books v' = books v"
  shows "user_view v' = user_view v" and "node_view v' = node_view v"
  using books_rows [OF assms] books_num [OF assms]
  by (simp_all add: user_view_def node_view_def NodeUsageKey_eq del: append.simps)

text \<open>Everything but the counters of connections.\<close>

abbreviation aside :: "('s \<Rightarrow> store) \<Rightarrow> 's \<Rightarrow> store \<times> keyspace" where
  "aside view s \<equiv> (tables view s, keys_in view (- conn_keys) s)"

lemma aside_key: "aside view s' = aside view s \<Longrightarrow> k \<notin> conn_keys \<Longrightarrow> st_keys (view s') k = st_keys (view s) k"
  by (metis ComplI prod.inject restrict_in)

lemma aside_rows: "aside view s' = aside view s \<Longrightarrow> st_users (view s') = st_users (view s) \<and> st_nodes (view s') = st_nodes (view s)"
  by (cases "view s"; cases "view s'") auto

lemma not_conn_keys:
  "HasPrefix k ''usage:'' \<or> index_key k \<or> k = ''healthy_nodes'' \<or> k = NodeKey i \<Longrightarrow> k \<notin> conn_keys"
  by (auto simp: conn_keys_def ConnKey_def NodeKey_def index_key_def HasPrefix_def)

lemma aside_books: "aside view s' = aside view s \<Longrightarrow> books (view s') = books (view s)"
  using aside_rows [of view s' s] aside_key [of view s' s] not_conn_keys
  by (intro booksI) blast+

lemma aside_cache:
  assumes "aside view s' = aside view s"
  shows "cache_inv J (st_keys (view s')) = cache_inv J (st_keys (view s))"
  by (rule cache_inv_cong; rule aside_key [of view s' s, OF assms]; use not_conn_keys in blast)

context reliable
begin

lemma redis_aside: "set (touched c) \<subseteq> conn_keys \<Longrightarrow> keeps (aside view) (redis_cl W c)"
  by (intro keeps_pair redis_keeps_tables redis_keeps) auto

lemma slots_aside: "keeps (aside view) (Acquire W u)" "keeps (aside view) (Release W uid)"
  unfolding Acquire_def Release_def redis_Incr_def redis_Decr_def redis_Get_def redis_Del_def
  by (auto intro!: keeps_bind redis_aside split: sum.split)

end

section \<open>Who is asked for and what is chosen\<close>

context gateway_store
begin

lemma wp_authenticate_aside:
  assumes "\<And>err s'. aside view s' = aside view s \<Longrightarrow> Q (Inl err) s'"
    and "\<And>name password user f s'. parseBasicAuth (rq_ProxyAuth r) = Some (name, password) \<Longrightarrow>
      ParseUsername name = (u_UID user, f) \<Longrightarrow> user \<in> set (st_users (view s)) \<Longrightarrow>
      aside view s' = aside view s \<Longrightarrow> Q (Inr (user, f)) s'"
  shows "wp (authenticate g r) Q s"
proof (cases "parseBasicAuth (rq_ProxyAuth r)")
  case None
  then show ?thesis unfolding authenticate_def by (simp add: assms(1))
next
  case (Some auth)
  obtain name password uid f where auth: "auth = (name, password)" "ParseUsername name = (uid, f)"
    by (metis surj_pair)
  show ?thesis
    unfolding authenticate_def Some auth(1) option.case prod.case auth(2) wp_bind
  proof (rule wp_Authenticate [OF reliable_axioms], goal_cases unknown known)
    case (unknown s')
    then show ?case by (simp add: assms(1))
  next
    case (known u now s')
    then have u: "u_UID u = uid" "u \<in> set (st_users (view s))" by (auto simp: find_Some_iff)
    have "wp (Acquire (gw_W g) u) (\<lambda>err. Q (case err of Some e \<Rightarrow> Inl e | None \<Rightarrow> Inr (u, f))) s'"
      by (rule wp_keeps [OF slots_aside(1)])
        (use known(2) u Some auth in \<open>auto intro!: assms split: option.split\<close>)
    then show ?case using known(2) by (auto intro!: assms(1) split: option.split)
  qed
qed

end

definition may_choose :: "store \<Rightarrow> Filters \<Rightarrow> ProxyNode \<Rightarrow> bool" where
  "may_choose v f n \<longleftrightarrow> n_Healthy n \<and> \<not> n_Disabled n \<and> (db_match f n \<or> f_SID f \<noteq> [] \<and> n \<in> set (st_nodes v))"

lemma sticky_books:
  "books (v\<lparr>st_keys := (st_keys v)(StickyKey uid h sid \<mapsto> x)\<rparr>) = books v"
  "books (v\<lparr>st_keys := st_keys v |` (- {StickyKey uid h sid})\<rparr>) = books v"
  by (rule booksI; simp add: StickyKey_def HasPrefix_def restrict_map_def; clarsimp)+

context reliable
begin

lemma wp_Pick_books:
  assumes "cache_inv J (st_keys (view s))"
    and "\<And>err s'. books (view s') = books (view s) \<Longrightarrow> Q (Inl err) s'"
    and "\<And>node s'. books (view s') = books (view s) \<Longrightarrow> may_choose (view s) f node \<Longrightarrow> Q (Inr node) s'"
  shows "wp (Pick W J H ttl uid f) Q s"
proof (rule wp_Pick [OF assms(1)], goal_cases hit pick empty)
  case (hit node s')
  then show ?case
    by (intro assms(3)) (auto simp: may_choose_def sticky_row_def find_Some_iff usable_row_def split: sum.splits if_splits)
next
  case (pick node s')
  then have "db_match f node" by (intro pool_db_match)
  then show ?case using pick by (intro assms(3)) (auto simp: may_choose_def db_match_def sticky_books)
next
  case (empty s')
  then show ?case by (intro assms(2)) (auto simp: sticky_books)
qed

end

section \<open>What a request carries\<close>

text \<open>Upload and download of a reply; nothing where the request was refused or has failed.\<close>

definition carried :: "request \<Rightarrow> reply \<Rightarrow> (int \<times> int) option" where
  "carried r rep = (case rep of
     Relayed _ _ written \<Rightarrow> Some (safeContentLength (rq_ContentLength r), written)
   | Tunnelled up down \<Rightarrow> Some (up, down)
   | _ \<Rightarrow> None)"

text \<open>At most \<open>B\<close> bytes are copied, and the counters have room for them.\<close>

definition volume :: "'s gateway \<Rightarrow> request \<Rightarrow> int \<Rightarrow> bool" where
  "volume g r B \<longleftrightarrow>
     (\<forall>c d. returns (\<lambda>w. 0 \<le> w \<and> safeContentLength (rq_ContentLength r) + w \<le> B) (copy_body (gw_HN g) c d)) \<and>
     (\<forall>c c' d. returns (\<lambda>(up, down). 0 \<le> up \<and> 0 \<le> down \<and> up + down \<le> B) (copy_both (gw_HN g) c c' d))"

definition headroom :: "store \<Rightarrow> int \<Rightarrow> bool" where
  "headroom v B \<longleftrightarrow> (\<forall>u\<in>set (st_users v). \<not> node_named (u_UID u)) \<and>
     (\<forall>k. HasPrefix k ''usage:'' \<longrightarrow> numeric (st_keys v) k) \<and>
     (\<forall>x. \<forall>d\<in>set kinds. 0 \<le> num (st_keys v) (UsageKey x d)) \<and>
     (\<forall>x. num (st_keys v) (UsageKey x ''upload'') + num (st_keys v) (UsageKey x ''download'') + B < 2 ^ 63 \<and>
       num (st_keys v) (UsageKey x ''requests'') + 1 < 2 ^ 63)"

lemma headroom_books:
  assumes "books v' = books v" and "headroom v B"
  shows "headroom v' B"
proof -
  have "numeric (st_keys v') k" if "HasPrefix k ''usage:''" for k
    using assms(2) that num_cong [of "st_keys v'" k "st_keys v"] books_key [OF assms(1) that] unfolding headroom_def by blast
  then show ?thesis using assms books_rows [OF assms(1)] books_num [OF assms(1)] by (simp add: headroom_def)
qed

definition charge_user :: "TrafficRecord \<Rightarrow> (string \<times> int \<times> int) list \<Rightarrow> (string \<times> int \<times> int) list" where
  "charge_user r = map (\<lambda>(uid, bytes, n).
     if uid = t_UID r then (uid, bytes + t_Upload r + t_Download r, n + 1) else (uid, bytes, n))"

definition charge_node :: "TrafficRecord \<Rightarrow> (nat \<times> int \<times> int \<times> int) list \<Rightarrow> (nat \<times> int \<times> int \<times> int) list" where
  "charge_node r = map (\<lambda>(i, up, down, n).
     if i = t_NodeID r \<and> 0 < i then (i, up + t_Upload r, down + t_Download r, n + 1) else (i, up, down, n))"

definition charged :: "TrafficRecord \<Rightarrow> store \<Rightarrow> store \<Rightarrow> bool" where
  "charged r v v' \<longleftrightarrow> user_view v' = charge_user r (user_view v) \<and> node_view v' = charge_node r (node_view v)"

lemma traffic_room:
  assumes "headroom v B" and "user \<in> set (st_users v)" and "0 \<le> up" "0 \<le> down" "up + down \<le> B"
  shows "room (st_keys v) [traffic user node up down]"
proof -
  let ?r = "traffic user node up down"
  have "record_ok ?r" using assms by (auto simp: record_ok_def traffic_def headroom_def)
  moreover have "bytes_recorded x [?r] \<le> B" "recorded x ''requests'' [?r] \<le> 1" for x
    using assms(3-5) by (simp_all add: bytes_recorded_def recorded_def field_def traffic_def maxInt64_def)
  then have "num (st_keys v) (UsageKey x ''upload'') + num (st_keys v) (UsageKey x ''download'') + bytes_recorded x [?r] < 2 ^ 63"
    "num (st_keys v) (UsageKey x ''requests'') + recorded x ''requests'' [?r] < 2 ^ 63" for x
    using assms(1) unfolding headroom_def by (meson add_left_mono le_less_trans)+
  ultimately show ?thesis using assms(1) unfolding room_def headroom_def by simp
qed

lemma grown_charged:
  assumes "grown v [r] v' []" and "\<not> node_named (t_UID r)" and "t_Requests r = 1"
  shows "charged r v v'"
proof -
  let ?on = "\<lambda>x d. if x \<in> set (names r) then field r d else 0"
  have num: "num (st_keys v') (UsageKey x d) = num (st_keys v) (UsageKey x d) + ?on x d" if "d \<in> set kinds" for x d
  proof -
    have "num (st_keys v') (UsageKey x d) + recorded x d [] = num (st_keys v) (UsageKey x d) + recorded x d [r]"
      using assms(1) that unfolding grown_def by blast
    then show ?thesis by (simp add: recorded_def)
  qed
  have rows: "st_users v' = st_users v" "st_nodes v' = st_nodes v"
    using grown_tables [OF assms(1)] by simp_all
  have user: "?on x d = (if x = t_UID r then field r d else 0)" if "\<not> node_named x" for x d
    using that node_name_differs [of x] by (simp add: names_def)
  have node: "?on (node_name i) d = (if i = t_NodeID r \<and> 0 < i then field r d else 0)" for i d
    using assms(2) node_name_differs [of "t_UID r" i, symmetric] by (auto simp: names_def simp del: append.simps)
  have "user_view v' = charge_user r (user_view v)"
    unfolding user_view_def charge_user_def rows
    by (auto simp: num user field_def assms(3) maxInt64_def)
  moreover have "node_view v' = charge_node r (node_view v)"
    unfolding node_view_def charge_node_def rows NodeUsageKey_eq map_map
    by (intro map_cong refl) (simp add: num node field_def assms(3) maxInt64_def del: append.simps)
  ultimately show ?thesis by (simp add: charged_def)
qed

section \<open>A request is charged\<close>

definition settled :: "request \<Rightarrow> User \<Rightarrow> ProxyNode \<Rightarrow> store \<Rightarrow> reply \<Rightarrow> store \<Rightarrow> bool" where
  "settled r user node v rep v' \<longleftrightarrow> (case carried r rep of
     None \<Rightarrow> books v' = books v
   | Some (up, down) \<Rightarrow> charged (traffic user node up down) v v')"

lemma settled_nothing [simp]:
  "settled r user node v (HttpError c txt b) v" "settled r user node v (RawReply raw) v"
  by (simp_all add: settled_def carried_def)

lemma settled_books:
  assumes "settled r user node v rep v'"
  shows "books v0 = books v \<Longrightarrow> settled r user node v0 rep v'"
    and "books v'' = books v' \<Longrightarrow> settled r user node v rep v''"
  using assms books_views [of v0 v] books_views [of v'' v']
  by (auto simp: settled_def charged_def split: option.splits)

lemma returns_wp_keeps:
  assumes "returns P m" and "keeps obs m" and "\<And>a s'. P a \<Longrightarrow> obs s' = obs s \<Longrightarrow> Q a s'"
  shows "wp m Q s"
  using assms by (auto intro!: wp_runI simp: returns_def keeps_def) (metis fst_conv)

context gateway_store
begin

lemma wp_recorded:
  assumes "headroom (view s) B" and "user \<in> set (st_users (view s))"
    and "0 \<le> up" "0 \<le> down" "up + down \<le> B"
    and "\<And>e s'. charged (traffic user node up down) (view s) (view s') \<Longrightarrow> Q e s'"
  shows "wp (RecordTraffic (gw_W g) (traffic user node up down)) Q s"
proof (rule wp_RecordTraffic)
  show "room (st_keys (view s)) [traffic user node up down]" by (rule traffic_room [OF assms(1-5)])
  show "Q e s'" if "grown (view s) [traffic user node up down] (view s') []" for e s'
    using assms(1,2) by (intro assms(6) grown_charged [OF that]) (auto simp: traffic_def headroom_def)
qed

lemma wp_relay_response:
  assumes "volume g r B" and "headroom (view s) B" and "user \<in> set (st_users (view s))"
    and "\<And>rep s'. settled r user node (view s) rep (view s') \<Longrightarrow> Q rep s'"
  shows "wp (relay_response g r user node c resp d) Q s"
  unfolding relay_response_def wp_bind
proof (rule returns_wp_keeps [OF _ http_apart(6)])
  show "returns (\<lambda>w. 0 \<le> w \<and> safeContentLength (rq_ContentLength r) + w \<le> B) (copy_body (gw_HN g) c d)"
    using assms(1) by (simp add: volume_def)
  show "wp (RecordTraffic (gw_W g) (traffic user node (safeContentLength (rq_ContentLength r)) w))
      (\<lambda>_. wp (State_Monad.return (Relayed (rs_StatusCode resp) (copyHeader [] (rs_Header resp)) w)) Q) s'"
    if "0 \<le> w \<and> safeContentLength (rq_ContentLength r) + w \<le> B" "view s' = view s" for w s'
    by (rule wp_recorded [of _ B])
      (use that assms in \<open>auto simp: settled_def carried_def safeContentLength_def\<close>)
qed

lemma wp_run_tunnel:
  assumes "volume g r B" and "headroom (view s) B" and "user \<in> set (st_users (view s))"
    and "\<And>out s'. settled r user node (view s) (fst out) (view s') \<Longrightarrow> Q out s'"
  shows "wp (run_tunnel g user node c c' m) Q s"
proof -
  have both: "returns (\<lambda>(up, down). 0 \<le> up \<and> 0 \<le> down \<and> up + down \<le> B) (copy_both (gw_HN g) c c' (gw_idleTO g))"
    using assms(1) by (simp add: volume_def)
  show ?thesis
    unfolding run_tunnel_def Let_def wp_bind
  proof (rule wp_keeps [OF conn_apart(1)], rule returns_wp_keeps [OF both http_apart(7)], clarify, unfold wp_bind,
      rule wp_keeps [OF conn_apart(3)], rule wp_keeps [OF conn_apart(3)])
    fix s1 s2 s3 s4 :: 's and up down x
    assume "view s1 = view s" "view s2 = view s1" "view s3 = view s2" "view s4 = view s3"
      and "0 \<le> up" "0 \<le> down" "up + down \<le> B"
    then show "wp (RecordTraffic (gw_W g) (traffic user node up down))
        (\<lambda>_. wp (State_Monad.return (Tunnelled up down, map_option DecActiveTunnels (map_option IncActiveTunnels m))) Q) s4"
      by (intro wp_recorded [of _ B]) (use assms in \<open>auto simp: settled_def carried_def\<close>)
  qed
qed

lemma wp_refuse_tunnel:
  "(\<And>raw m' s'. view s' = view s \<Longrightarrow> Q (RawReply raw, m') s') \<Longrightarrow> wp (refuse_tunnel g c m) Q s"
  unfolding refuse_tunnel_def by (auto intro!: wp_keeps [OF conn_apart(1)])

lemma wp_legs:
  assumes "volume g r B" and "headroom (view s) B" and "user \<in> set (st_users (view s))"
    and Q: "\<And>out s'. settled r user node (view s) (fst out) (view s') \<Longrightarrow> Q out s'"
  shows "wp (http_via_target g r user node m) Q s" "wp (http_via_proxy g r user node m) Q s"
    "wp (tunnel g r user node c m) Q s"
proof -
  note steps = wp_keeps [OF DialTarget_apart] wp_keeps [OF gateway_steps_apart(2)] wp_keeps [OF gateway_steps_apart(3)]
    wp_keeps [OF gateway_steps_apart(4)] wp_keeps [OF gateway_steps_apart(5)] wp_refuse_tunnel
    wp_keeps [OF conn_apart(3)] wp_keeps [OF http_apart(1)] wp_keeps [OF http_apart(4)] wp_keeps [OF clock_view(1)]
    wp_relay_response [OF assms(1)] wp_run_tunnel [OF assms(1)]
  show "wp (http_via_target g r user node m) Q s"
    unfolding http_via_target_def Let_def
    by (auto intro!: steps Q simp: assms split: sum.split option.split)
  show "wp (http_via_proxy g r user node m) Q s"
    unfolding http_via_proxy_def Let_def
    by (auto intro!: steps Q simp: assms split: sum.split option.split)
  show "wp (tunnel g r user node c m) Q s"
    unfolding tunnel_def
    by (auto intro!: steps Q simp: assms split: sum.split option.split)
qed

text \<open>The request after it was accepted: the choice of a node, one of the legs, and the slot.\<close>

lemma wp_serve:
  fixes leg :: "ProxyNode \<Rightarrow> ('s, reply \<times> Registry option) state"
  assumes cache: "cache_inv (gw_J g) (st_keys (view s))"
    and leg: "\<And>node s1 Q. books (view s1) = books (view s) \<Longrightarrow>
      (\<And>out s2. settled r user node (view s) (fst out) (view s2) \<Longrightarrow> Q out s2) \<Longrightarrow> wp (leg node) Q s1"
    and unserved: "\<And>out s'. carried r (fst out) = None \<Longrightarrow> books (view s') = books (view s) \<Longrightarrow> Q out s'"
    and served: "\<And>out node s'. may_choose (view s) f node \<Longrightarrow> settled r user node (view s) (fst out) (view s') \<Longrightarrow> Q out s'"
  shows "wp (Pick (gw_W g) (gw_J g) H ttl uid f \<bind> (\<lambda>picked.
      (case picked of Inl err \<Rightarrow> State_Monad.return (bad_gateway err, m') | Inr node \<Rightarrow> leg node) \<bind>
      (\<lambda>out. Release (gw_W g) uid' \<bind> (\<lambda>_. State_Monad.return out)))) Q s"
  unfolding wp_bind
proof (rule wp_Pick_books [OF cache], goal_cases refused picked)
  case (refused err s1)
  have "Q (bad_gateway err, m') s2" if "aside view s2 = aside view s1" for s2
    by (rule unserved) (simp_all add: carried_def refused aside_books [of view s2 s1, OF that])
  then show ?case by (auto intro!: wp_keeps [OF slots_aside(2)])
next
  case (picked node s1)
  have "wp (leg node) (\<lambda>out. wp (Release (gw_W g) uid') (\<lambda>_. wp (State_Monad.return out) Q)) s1"
  proof (rule leg [OF picked(1)], rule wp_keeps [OF slots_aside(2)])
    fix out :: "reply \<times> Registry option" and s2 x s3
    assume "settled r user node (view s) (fst out) (view s2)" and "aside view s3 = aside view s2"
    then have "settled r user node (view s) (fst out) (view s3)"
      using settled_books(2) aside_books [of view s3 s2] by blast
    then show "wp (State_Monad.return out) Q s3" by (simp add: served [OF picked(2)])
  qed
  then show ?case by simp
qed

end

text \<open>What a request has done to the accounts, from \<open>v\<close> to \<open>v'\<close>.\<close>

definition billed :: "request \<Rightarrow> store \<Rightarrow> reply \<Rightarrow> store \<Rightarrow> bool" where
  "billed r v rep v' \<longleftrightarrow> (case carried r rep of
     None \<Rightarrow> user_view v' = user_view v \<and> node_view v' = node_view v
   | Some (up, down) \<Rightarrow> \<exists>name password user f node.
       parseBasicAuth (rq_ProxyAuth r) = Some (name, password) \<and> ParseUsername name = (u_UID user, f) \<and>
       user \<in> set (st_users v) \<and> may_choose v f node \<and> charged (traffic user node up down) v v')"

lemma billed_nothing: "carried r rep = None \<Longrightarrow> books v' = books v \<Longrightarrow> billed r v rep v'"
  using books_views [of v' v] by (simp add: billed_def)

lemma settled_billed:
  "settled r user node v rep v' \<Longrightarrow> parseBasicAuth (rq_ProxyAuth r) = Some (name, password) \<Longrightarrow>
   ParseUsername name = (u_UID user, f) \<Longrightarrow> user \<in> set (st_users v) \<Longrightarrow> may_choose v f node \<Longrightarrow> billed r v rep v'"
  using books_views [of v' v] unfolding settled_def billed_def by (fastforce split: option.splits prod.splits)

lemma carried_refusal [simp]: "carried r (writeProxyAccessError err) = None"
  by (simp add: carried_def writeProxyAccessError_def)

context gateway_store
begin

lemma wp_Handler_billed:
  assumes cache: "cache_inv (gw_J g) (st_keys (view s))" and vol: "volume g r B" and head: "headroom (view s) B"
  shows "wp (Handler_gateway g r m) (\<lambda>out s'. billed r (view s) (fst out) (view s')) s"
proof -
  have legs: "wp (http_via_target g r user node m') Q s1" "wp (http_via_proxy g r user node m') Q s1"
      "wp (tunnel g r user node c m') Q s1"
    if "books (view s1) = books (view s)" and "user \<in> set (st_users (view s))"
      and "\<And>out s2. settled r user node (view s) (fst out) (view s2) \<Longrightarrow> Q out s2" for user node m' Q s1 c
    using that books_rows [OF that(1)] settled_books(1) [where ?v0.0 = "view s", OF _ that(1) [symmetric]]
    by (auto intro!: wp_legs [OF vol headroom_books [OF that(1) head]])
  have serve: "wp (Pick (gw_W g) (gw_J g) (gw_H g) (gw_stickyTTL g) (u_UID user) f \<bind> (\<lambda>picked.
      (case picked of Inl err \<Rightarrow> State_Monad.return (bad_gateway err, m') | Inr node \<Rightarrow> leg node) \<bind>
      (\<lambda>out. Release (gw_W g) (u_UID user) \<bind> (\<lambda>_. State_Monad.return out))))
      (\<lambda>out s'. billed r (view s) (fst out) (view s')) s1"
    if auth: "parseBasicAuth (rq_ProxyAuth r) = Some (name, password)" "ParseUsername name = (u_UID user, f)"
        "user \<in> set (st_users (view s))"
      and same: "aside view s1 = aside view s"
      and leg: "\<And>node s2 Q. books (view s2) = books (view s) \<Longrightarrow>
        (\<And>out s3. settled r user node (view s) (fst out) (view s3) \<Longrightarrow> Q out s3) \<Longrightarrow> wp (leg node) Q s2"
    for name password user f s1 m' and leg :: "ProxyNode \<Rightarrow> ('s, reply \<times> Registry option) state"
  proof -
    have v1: "books (view s1) = books (view s)" by (rule aside_books [of view s1 s, OF same])
    have choice: "may_choose (view s1) f = may_choose (view s) f"
      using books_rows [OF v1] by (intro ext) (simp add: may_choose_def)
    show ?thesis
    proof (rule wp_serve [where user = user and f = f and r = r])
      show "cache_inv (gw_J g) (st_keys (view s1))" using cache aside_cache [of view s1 s, OF same] by simp
      fix node s2 and Q :: "reply \<times> Registry option \<Rightarrow> 's \<Rightarrow> bool"
      assume v2: "books (view s2) = books (view s1)"
        and Q: "\<And>out s3. settled r user node (view s1) (fst out) (view s3) \<Longrightarrow> Q out s3"
      show "wp (leg node) Q s2"
      proof (rule leg)
        show "books (view s2) = books (view s)" by (rule trans [OF v2 v1])
        show "Q out s3" if "settled r user node (view s) (fst out) (view s3)" for out s3
          by (rule Q [OF settled_books(1) [OF that v1]])
      qed
    next
      fix out :: "reply \<times> Registry option" and s2
      assume "carried r (fst out) = None" "books (view s2) = books (view s1)"
      then show "billed r (view s) (fst out) (view s2)" by (intro billed_nothing) (simp_all add: v1)
    next
      fix out :: "reply \<times> Registry option" and node s2
      assume "may_choose (view s1) f node" "settled r user node (view s1) (fst out) (view s2)"
      then show "billed r (view s) (fst out) (view s2)"
        using settled_billed [OF settled_books(1) [where ?v0.0 = "view s", OF _ v1 [symmetric]] auth] choice by simp
    qed
  qed
  have refusal: "billed r (view s) (fst (writeProxyAccessError err, m')) (view s1)" if "aside view s1 = aside view s" for err m' s1
    using aside_books [of view s1 s, OF that] by (simp add: billed_nothing)
  have http: "wp (handleHTTP g r m) (\<lambda>out s'. billed r (view s) (fst out) (view s')) s"
    unfolding handleHTTP_def wp_bind [of "authenticate g r"] Let_def
  proof (rule wp_authenticate_aside, goal_cases refused accepted)
    case (accepted name password user f s1)
    then show ?case
      unfolding sum.case prod.case by (rule serve) (use accepted(3) in \<open>auto intro: legs\<close>)
  next
    case (refused err s1)
    then show ?case unfolding sum.case wp_return by (rule refusal)
  qed
  have connect: "wp (handleConnect g r m) (\<lambda>out s'. billed r (view s) (fst out) (view s')) s"
    unfolding handleConnect_def wp_bind [of "authenticate g r"] Let_def
  proof (rule wp_authenticate_aside, goal_cases refused accepted)
    case (accepted name password user f s1)
    then show ?case
      unfolding sum.case prod.case
    proof (rule serve, goal_cases leg)
      case (leg node s2 Q)
      have fails: "Q (HttpError 500 msg False, m') s3" if "view s3 = view s2" for msg m' s3
        by (rule leg(2)) (simp add: that settled_books(2) [OF settled_nothing(1) leg(1)])
      from leg accepted(3) show ?case
        by (auto intro!: wp_keeps [OF http_apart(5)] wp_keeps [OF conn_apart(3)] legs(3) fails split: sum.split)
    qed
  next
    case (refused err s1)
    then show ?case unfolding sum.case wp_return by (rule refusal)
  qed
  show ?thesis using http connect by (simp add: Handler_gateway_def)
qed

end

section \<open>Properties\<close>



end
