(* ===== verification/Tunnel.thy ===== *)
theory Tunnel
  imports Gateway
begin

text \<open>
  The inside of \<open>copy_both\<close>: the two goroutines of a CONNECT tunnel (\<^verbatim>\<open>handleConnect\<close> of
  \<^verbatim>\<open>internal/proxy/gateway.go\<close>), each an \<^verbatim>\<open>io.Copy\<close> from one connection to the other that closes its
  destination when it ends, interleaved in every order with each other and with the peers, who send,
  end their sending or break the connection.  A goroutine is named after the side it reads from: the
  one of \<open>Client\<close> uploads, the one of \<open>Target\<close> downloads.
\<close>

datatype side = Client | Target

fun other :: "side \<Rightarrow> side" where
  "other Client = Target"
| "other Target = Client"

lemma other_other [simp]: "other (other d) = d" "other d \<noteq> d" "d \<noteq> other d"
  by (cases d; simp)+

lemma side_cases: "d = e \<or> d = other e"
  by (cases d; cases e) simp_all

text \<open>Between two calls of Read, with a chunk to write, before Close, returned.\<close>

datatype copier = Reading | Writing string | Closing | Ended

text \<open>
  Of each side: the goroutine that reads it with the bytes it has written so far, whether the
  connection is open here, what its peer has sent and what of that has not been read, whether the peer
  has ended its sending or broken the connection, and what the peer has been sent.
\<close>

record relay =
  rl_copier :: "side \<Rightarrow> copier"
  rl_written :: "side \<Rightarrow> int"
  rl_open :: "side \<Rightarrow> bool"
  rl_sent :: "side \<Rightarrow> string"
  rl_pending :: "side \<Rightarrow> string"
  rl_finished :: "side \<Rightarrow> bool"
  rl_broken :: "side \<Rightarrow> bool"
  rl_delivered :: "side \<Rightarrow> string"

definition relay_start :: relay where
  "relay_start = \<lparr>rl_copier = (\<lambda>_. Reading), rl_written = (\<lambda>_. 0), rl_open = (\<lambda>_. True), rl_sent = (\<lambda>_. []),
     rl_pending = (\<lambda>_. []), rl_finished = (\<lambda>_. False), rl_broken = (\<lambda>_. False), rl_delivered = (\<lambda>_. [])\<rparr>"

text \<open>
  A step of a goroutine.  \<open>idle\<close> says that there is an idle time-out, which ends a Read on which
  nothing arrives and a Write that is stuck; a Write that fails may have written a part of the chunk,
  which \<^verbatim>\<open>io.Copy\<close> counts.
\<close>

definition read_ends :: "bool \<Rightarrow> relay \<Rightarrow> side \<Rightarrow> bool" where
  "read_ends idle s d \<longleftrightarrow> \<not> rl_open s d \<or> rl_broken s d \<or> (rl_pending s d = [] \<and> (rl_finished s d \<or> idle))"

definition wrote :: "relay \<Rightarrow> side \<Rightarrow> string \<Rightarrow> copier \<Rightarrow> relay" where
  "wrote s d chunk c = s\<lparr>rl_delivered := (rl_delivered s)(other d := rl_delivered s (other d) @ chunk),
     rl_written := (rl_written s)(d := rl_written s d + int (length chunk)),
     rl_copier := (rl_copier s)(d := c)\<rparr>"

inductive copy_step :: "bool \<Rightarrow> relay \<Rightarrow> relay \<Rightarrow> bool" for idle where
  read_chunk: "rl_copier s d = Reading \<Longrightarrow> rl_open s d \<Longrightarrow> rl_pending s d = chunk @ rest \<Longrightarrow> chunk \<noteq> [] \<Longrightarrow>
    copy_step idle s (s\<lparr>rl_copier := (rl_copier s)(d := Writing chunk), rl_pending := (rl_pending s)(d := rest)\<rparr>)"
| read_end: "rl_copier s d = Reading \<Longrightarrow> read_ends idle s d \<Longrightarrow>
    copy_step idle s (s\<lparr>rl_copier := (rl_copier s)(d := Closing)\<rparr>)"
| write_all: "rl_copier s d = Writing chunk \<Longrightarrow> rl_open s (other d) \<Longrightarrow>
    copy_step idle s (wrote s d chunk Reading)"
| write_part: "rl_copier s d = Writing (chunk @ lost) \<Longrightarrow> rl_open s (other d) \<Longrightarrow> rl_broken s (other d) \<or> idle \<Longrightarrow>
    copy_step idle s (wrote s d chunk Closing)"
| write_none: "rl_copier s d = Writing lost \<Longrightarrow> \<not> rl_open s (other d) \<Longrightarrow>
    copy_step idle s (wrote s d [] Closing)"
| close_dest: "rl_copier s d = Closing \<Longrightarrow>
    copy_step idle s (s\<lparr>rl_open := (rl_open s)(other d := False), rl_copier := (rl_copier s)(d := Ended)\<rparr>)"

inductive peer_step :: "relay \<Rightarrow> relay \<Rightarrow> bool" where
  send: "\<not> rl_finished s d \<Longrightarrow> \<not> rl_broken s d \<Longrightarrow>
    peer_step s (s\<lparr>rl_sent := (rl_sent s)(d := rl_sent s d @ bytes), rl_pending := (rl_pending s)(d := rl_pending s d @ bytes)\<rparr>)"
| finish: "peer_step s (s\<lparr>rl_finished := (rl_finished s)(d := True)\<rparr>)"
| break_off: "peer_step s (s\<lparr>rl_broken := (rl_broken s)(d := True)\<rparr>)"

definition relay_step :: "bool \<Rightarrow> relay \<Rightarrow> relay \<Rightarrow> bool" where
  "relay_step idle s s' \<longleftrightarrow> copy_step idle s s' \<or> peer_step s s'"

definition relay_reaches :: "bool \<Rightarrow> relay \<Rightarrow> bool" where
  "relay_reaches idle = (relay_step idle)\<^sup>*\<^sup>* relay_start"

text \<open>\<^verbatim>\<open>wg.Wait()\<close> returns.\<close>

definition both_ended :: "relay \<Rightarrow> bool" where
  "both_ended s \<longleftrightarrow> rl_copier s Client = Ended \<and> rl_copier s Target = Ended"

section \<open>What is delivered\<close>

fun in_flight :: "copier \<Rightarrow> string" where
  "in_flight (Writing chunk) = chunk"
| "in_flight _ = []"

text \<open>
  The bytes written to a side are the first the other peer has sent, and as many as are counted;
  while a goroutine runs, it has lost none; a connection is closed by the end of the goroutine that
  writes to it, and by nothing else.
\<close>

definition running :: "copier \<Rightarrow> bool" where
  "running c \<longleftrightarrow> c = Reading \<or> (\<exists>chunk. c = Writing chunk)"

definition inv_at :: "relay \<Rightarrow> side \<Rightarrow> bool" where
  "inv_at s d \<longleftrightarrow>
     prefix (rl_delivered s (other d)) (rl_sent s d) \<and>
     rl_written s d = int (length (rl_delivered s (other d))) \<and>
     (running (rl_copier s d) \<longrightarrow>
        rl_delivered s (other d) @ in_flight (rl_copier s d) @ rl_pending s d = rl_sent s d) \<and>
     (rl_open s (other d) \<longleftrightarrow> rl_copier s d \<noteq> Ended)"

definition relay_inv :: "relay \<Rightarrow> bool" where
  "relay_inv s \<longleftrightarrow> (\<forall>d. inv_at s d)"

lemma relay_inv_sides: "relay_inv s \<longleftrightarrow> inv_at s d \<and> inv_at s (other d)"
  unfolding relay_inv_def using side_cases [of _ d] by metis

lemmas inv_defs = inv_at_def running_def wrote_def prefix_def

lemma relay_inv_start: "relay_inv relay_start"
  by (simp add: relay_inv_def inv_at_def relay_start_def)

lemma relay_inv_copy: "copy_step idle s s' \<Longrightarrow> relay_inv s \<Longrightarrow> relay_inv s'"
proof (induction rule: copy_step.induct)
  case (read_chunk s d) then show ?case by (auto simp: relay_inv_sides [of _ d] inv_defs)
next
  case (read_end s d) then show ?case by (auto simp: relay_inv_sides [of _ d] inv_defs)
next
  case (write_all s d) then show ?case by (auto simp: relay_inv_sides [of _ d] inv_defs)
next
  case (write_part s d) then show ?case by (auto simp: relay_inv_sides [of _ d] inv_defs)
next
  case (write_none s d) then show ?case by (auto simp: relay_inv_sides [of _ d] inv_defs)
next
  case (close_dest s d) then show ?case by (auto simp: relay_inv_sides [of _ d] inv_defs)
qed

lemma relay_inv_peer: "peer_step s s' \<Longrightarrow> relay_inv s \<Longrightarrow> relay_inv s'"
proof (induction rule: peer_step.induct)
  case (send s d) then show ?case by (auto simp: relay_inv_sides [of _ d] inv_defs)
qed (auto simp: relay_inv_def inv_at_def)

lemma relay_inv_reaches: "relay_reaches idle s \<Longrightarrow> relay_inv s"
  unfolding relay_reaches_def
  by (induction rule: rtranclp_induct) (auto simp: relay_inv_start relay_step_def relay_inv_copy relay_inv_peer)

section \<open>The goroutines end\<close>

text \<open>What a goroutine still has to do: two steps for a byte, one to write, to stop and to close.\<close>

definition work :: "relay \<Rightarrow> side \<Rightarrow> nat" where
  "work s d = (case rl_copier s d of
     Reading \<Rightarrow> 2 * length (rl_pending s d) + 2
   | Writing _ \<Rightarrow> 2 * length (rl_pending s d) + 3
   | Closing \<Rightarrow> 1
   | Ended \<Rightarrow> 0)"

definition relay_work :: "relay \<Rightarrow> nat" where
  "relay_work s = work s Client + work s Target"

lemma relay_work_sides: "relay_work s = work s d + work s (other d)"
  by (cases d) (simp_all add: relay_work_def)

lemma copy_step_works: "copy_step idle s s' \<Longrightarrow> relay_work s' < relay_work s"
proof (induction rule: copy_step.induct)
  case (read_chunk s d chunk) then show ?case
    by (cases chunk) (auto simp: relay_work_sides [of _ d] work_def split: copier.split)
next
  case (read_end s d) then show ?case by (auto simp: relay_work_sides [of _ d] work_def split: copier.split)
next
  case (write_all s d) then show ?case by (auto simp: relay_work_sides [of _ d] work_def wrote_def split: copier.split)
next
  case (write_part s d) then show ?case by (auto simp: relay_work_sides [of _ d] work_def wrote_def split: copier.split)
next
  case (write_none s d) then show ?case by (auto simp: relay_work_sides [of _ d] work_def wrote_def split: copier.split)
next
  case (close_dest s d) then show ?case by (auto simp: relay_work_sides [of _ d] work_def split: copier.split)
qed

lemma copy_steps_bounded: "(copy_step idle ^^ n) s s' \<Longrightarrow> n + relay_work s' \<le> relay_work s"
  by (induction n arbitrary: s') (auto, fastforce dest: copy_step_works)

text \<open>A goroutine is stuck only on a Read that waits for its peer.\<close>

lemma copier_proceeds:
  assumes "rl_copier s d \<noteq> Ended"
    and "idle \<or> rl_finished s d \<or> rl_broken s d \<or> \<not> rl_open s d \<or> rl_copier s d \<noteq> Reading"
  shows "\<exists>s'. copy_step idle s s'"
proof (cases "rl_copier s d")
  case Reading
  show ?thesis
  proof (cases "read_ends idle s d")
    case True
    then show ?thesis using Reading by (blast intro: read_end)
  next
    case False
    then show ?thesis
      using Reading assms(2) read_chunk [of s d "rl_pending s d" "[]"] by (auto simp: read_ends_def)
  qed
next
  case (Writing chunk)
  then show ?thesis by (cases "rl_open s (other d)") (blast intro: write_all write_none)+
next
  case Closing
  then show ?thesis by (blast intro: close_dest)
qed (use assms(1) in simp)

text \<open>Something has happened that ends one of the copies.\<close>

definition ending :: "relay \<Rightarrow> bool" where
  "ending s \<longleftrightarrow> (\<exists>d. rl_finished s d \<or> rl_broken s d \<or> \<not> running (rl_copier s d))"

lemma copy_step_ending: "copy_step idle s s' \<Longrightarrow> ending s \<Longrightarrow> ending s'"
proof (induction rule: copy_step.induct)
  case (read_chunk s d) then show ?case by (force simp: ending_def running_def)
next
  case (write_all s d) then show ?case by (force simp: ending_def running_def wrote_def)
qed (auto simp: ending_def running_def wrote_def)

lemma copy_steps_ending: "(copy_step idle ^^ n) s s' \<Longrightarrow> ending s \<Longrightarrow> ending s'"
  by (induction n arbitrary: s') (auto dest: copy_step_ending)

lemma stuck_both_ended:
  assumes "relay_inv s" and "idle \<or> ending s" and stuck: "\<nexists>s'. copy_step idle s s'"
  shows "both_ended s"
proof -
  have waits: "rl_copier s d = Ended \<or>
      (\<not> idle \<and> \<not> rl_finished s d \<and> \<not> rl_broken s d \<and> rl_open s d \<and> rl_copier s d = Reading)" for d
    using copier_proceeds [of s d idle] stuck by blast
  have "rl_copier s d = Ended" for d
  proof (rule ccontr)
    assume d: "rl_copier s d \<noteq> Ended"
    then have "\<not> idle" "rl_open s d" using waits [of d] by auto
    then have "ending s" using assms(2) by simp
    then obtain e where "rl_finished s e \<or> rl_broken s e \<or> \<not> running (rl_copier s e)"
      unfolding ending_def by blast
    then have "rl_copier s e = Ended" using waits [of e] by (auto simp: running_def)
    then have "rl_copier s (other d) = Ended" using d side_cases [of e d] by auto
    then have "\<not> rl_open s d" using assms(1) relay_inv_sides [of s "other d"] by (simp add: inv_at_def)
    then show False using \<open>rl_open s d\<close> by simp
  qed
  then show ?thesis by (simp add: both_ended_def)
qed

lemma relay_copy: "relay_reaches idle s \<Longrightarrow> copy_step idle s s' \<Longrightarrow> s' = t \<Longrightarrow> relay_reaches idle t"
  unfolding relay_reaches_def by (meson rtranclp.rtrancl_into_rtrancl relay_step_def)

lemma relay_peer: "relay_reaches idle s \<Longrightarrow> peer_step s s' \<Longrightarrow> s' = t \<Longrightarrow> relay_reaches idle t"
  unfolding relay_reaches_def by (meson rtranclp.rtrancl_into_rtrancl relay_step_def)

lemma relay_reaches_start: "relay_reaches idle relay_start"
  by (simp add: relay_reaches_def)

lemma copy_steps_reach: "(copy_step idle ^^ n) s s' \<Longrightarrow> relay_reaches idle s \<Longrightarrow> relay_reaches idle s'"
  by (induction n arbitrary: s') (auto dest: relay_copy)

section \<open>A run\<close>

text \<open>
  The client sends a request and ends its sending, as a client does that waits for the answer only; the
  upload goroutine relays the request, reads the end and closes the connection to the target before the target
  has answered.
\<close>

definition request_sent :: relay where
  "request_sent = relay_start\<lparr>rl_sent := (\<lambda>_. [])(Client := ''request''), rl_pending := (\<lambda>_. [])(Client := ''request''),
     rl_finished := (\<lambda>_. False)(Client := True)\<rparr>"

definition half_closed :: relay where
  "half_closed = request_sent\<lparr>rl_pending := (\<lambda>_. [])(Target := ''answer''), rl_sent := (rl_sent request_sent)(Target := ''answer''),
     rl_delivered := (\<lambda>_. [])(Target := ''request''), rl_written := (\<lambda>_. 0)(Client := 7),
     rl_copier := (\<lambda>_. Ended), rl_open := (\<lambda>_. False)\<rparr>"

lemmas run_defs = relay_start_def request_sent_def half_closed_def wrote_def read_ends_def fun_eq_iff

lemma request_sent_reached: "relay_reaches idle request_sent"
proof -
  have "relay_reaches idle (relay_start\<lparr>rl_sent := (\<lambda>_. [])(Client := ''request''),
      rl_pending := (\<lambda>_. [])(Client := ''request'')\<rparr>)"
    by (rule relay_peer [OF relay_reaches_start send [of _ Client "''request''"]]) (auto simp: run_defs)
  then show ?thesis
    by (rule relay_peer [OF _ finish [of _ Client]]) (auto simp: run_defs)
qed

lemma half_closed_reached: "relay_reaches idle half_closed"
proof -
  let ?writing = "request_sent\<lparr>rl_copier := (\<lambda>_. Reading)(Client := Writing ''request''), rl_pending := (\<lambda>_. [])\<rparr>"
  let ?relayed = "\<lambda>c. request_sent\<lparr>rl_copier := (\<lambda>_. Reading)(Client := c), rl_pending := (\<lambda>_. []),
    rl_delivered := (\<lambda>_. [])(Target := ''request''), rl_written := (\<lambda>_. 0)(Client := 7)\<rparr>"
  let ?closed = "(?relayed Ended)\<lparr>rl_open := (\<lambda>_. True)(Target := False)\<rparr>"
  let ?answered = "\<lambda>c. ?closed\<lparr>rl_copier := (\<lambda>_. Ended)(Target := c), rl_pending := (\<lambda>_. [])(Target := ''answer''),
    rl_sent := (rl_sent request_sent)(Target := ''answer'')\<rparr>"
  have "relay_reaches idle ?writing"
    by (rule relay_copy [OF request_sent_reached read_chunk [of _ Client "''request''" "[]"]]) (auto simp: run_defs)
  then have "relay_reaches idle (?relayed Reading)"
    by (rule relay_copy [OF _ write_all [of _ Client "''request''"]]) (auto simp: run_defs)
  then have "relay_reaches idle (?relayed Closing)"
    by (rule relay_copy [OF _ read_end [of _ Client]]) (auto simp: run_defs)
  then have "relay_reaches idle ?closed"
    by (rule relay_copy [OF _ close_dest [of _ Client]]) (auto simp: run_defs)
  then have "relay_reaches idle (?answered Reading)"
    by (rule relay_peer [OF _ send [of _ Target "''answer''"]]) (auto simp: run_defs intro: side.exhaust)
  then have "relay_reaches idle (?answered Closing)"
    by (rule relay_copy [OF _ read_end [of _ Target]]) (auto simp: run_defs)
  then show ?thesis
    by (rule relay_copy [OF _ close_dest [of _ Target]]) (auto simp: run_defs intro: side.exhaust)
qed

section \<open>Properties\<close>

text \<open>
  C6: In every order in which the two goroutines and the peers can act, a tunnel relays faithfully:
  what a side has been sent is the beginning of what the other has sent, the bytes that will be recorded as
  upload and download are exactly as many, nothing is lost while a goroutine copies, and when both
  have ended both connections are closed.
\<close>

theorem tunnel_relays_faithfully:
  assumes "relay_reaches idle s"
  shows "prefix (rl_delivered s (other d)) (rl_sent s d) \<and>
    rl_written s d = int (length (rl_delivered s (other d))) \<and>
    (running (rl_copier s d) \<longrightarrow>
      rl_delivered s (other d) @ in_flight (rl_copier s d) @ rl_pending s d = rl_sent s d) \<and>
    (both_ended s \<longrightarrow> \<not> rl_open s d)"
  using relay_inv_reaches [OF assms] relay_inv_sides [of s d]
  by (cases d; simp add: inv_at_def both_ended_def)

theorem tunnel_relays_faithfully_witness:
  "rl_written half_closed Client = 7 \<and> \<not> rl_open half_closed Client \<and>
   prefix (rl_delivered half_closed Target) ''request''"
proof -
  have "both_ended half_closed" "rl_delivered half_closed Target = ''request''" "rl_sent half_closed Client = ''request''"
    by (simp_all add: both_ended_def run_defs)
  then show ?thesis using tunnel_relays_faithfully [OF half_closed_reached, of Client] by simp
qed

text \<open>
  C8: A tunnel ends: once a peer has ended its sending or broken off, or one of the copies has
  stopped, or where there is an idle time-out, the goroutines take at most as many further steps as there is
  work left and can stop only when both have returned, so that \<^verbatim>\<open>wg.Wait()\<close> does.
\<close>

theorem tunnel_ends:
  assumes "relay_reaches idle s" and "idle \<or> ending s" and "(copy_step idle ^^ n) s s'"
  shows "n \<le> relay_work s \<and> (both_ended s' \<or> (\<exists>t. copy_step idle s' t))"
proof -
  have "relay_inv s'" by (rule relay_inv_reaches [OF copy_steps_reach [OF assms(3,1)]])
  moreover have "idle \<or> ending s'" using assms(2) copy_steps_ending [OF assms(3)] by blast
  ultimately show ?thesis using stuck_both_ended copy_steps_bounded [OF assms(3)] by fastforce
qed

theorem tunnel_ends_witness: "relay_work request_sent = 18 \<and> (\<exists>t. copy_step False request_sent t)"
proof -
  have "ending request_sent" by (auto simp: ending_def run_defs)
  then show ?thesis
    using tunnel_ends [OF request_sent_reached, of False 0 request_sent]
    by (simp add: both_ended_def relay_work_def work_def run_defs)
qed

text \<open>
  The end of the client's sending ends the whole tunnel: the upload goroutine closes the connection to the
  target, and what the target answers afterwards is lost although nobody has broken off and no time-out is set.
\<close>

theorem tunnel_half_close:
  "\<exists>s. relay_reaches False s \<and> both_ended s \<and> (\<forall>d. \<not> rl_broken s d) \<and> rl_delivered s Target = rl_sent s Client \<and>
     rl_sent s Target = ''answer'' \<and> rl_delivered s Client = []"
  using half_closed_reached by (intro exI [of _ half_closed]) (auto simp: both_ended_def run_defs)

end
