(* ===== verification/Healthcheck.thy ===== *)
theory Healthcheck
  imports Upstream SubPersist
begin

text \<open>
  Package \<^verbatim>\<open>healthcheck\<close> (\<^verbatim>\<open>internal/healthcheck/service.go\<close>): a node is probed through itself for
  its exit address, the address is looked up for city, region and provider, and the outcome is
  written to the row and the cache of the node.  The HTTP client, the JSON decoders of the probe
  services and the URLs are parameters; the debug log and the ticker loop of \<^verbatim>\<open>Start\<close> are left out.
\<close>

section \<open>Data\<close>

record probeInfo =
  pi_IP :: string
  pi_City :: string
  pi_Country :: string
  pi_Region :: string
  pi_Org :: string

definition no_info :: probeInfo where
  "no_info = \<lparr>pi_IP = [], pi_City = [], pi_Country = [], pi_Region = [], pi_Org = []\<rparr>"

record probeSource =
  src_name :: string
  src_url :: string
  src_parse :: "string \<Rightarrow> error + probeInfo"

record enrichSource =
  enr_name :: string
  enr_url :: "string \<Rightarrow> string"
  enr_parse :: "string \<Rightarrow> error + probeInfo"

record Summary =
  sum_Total :: nat
  sum_Healthy :: nat
  sum_Unhealthy :: nat
  sum_Failed :: nat
  sum_CheckedIDs :: "nat list"

text \<open>The payloads of the probe services, as \<^verbatim>\<open>json.Unmarshal\<close> fills them.\<close>

record ipwho_payload =
  who_IP :: string
  who_City :: string
  who_Country :: string
  who_Region :: string
  who_Success :: "bool option"
  who_ISP :: string
  who_Org :: string
  who_ASN :: string

record ipapi_payload =
  api_IP :: string
  api_City :: string
  api_Country :: string
  api_Region :: string
  api_ASN :: string
  api_Org :: string
  api_Error :: bool
  api_Reason :: string

record probe_json =
  json_ipinfo :: "string \<Rightarrow> error + probeInfo"
  json_ipify :: "string \<Rightarrow> error + string"
  json_ipwho :: "string \<Rightarrow> error + ipwho_payload"
  json_ipapi :: "string \<Rightarrow> error + ipapi_payload"

text \<open>A transport of the HTTP client: through a proxy, or over connections that \<open>tr_Dial\<close> opens.\<close>

record 's transport =
  tr_SkipVerify :: bool
  tr_Proxy :: "url option"
  tr_Dial :: "(string \<Rightarrow> ('s, error + conn) state) option"

record probe_request =
  pr_URL :: string
  pr_Header :: "(string \<times> string) list"

record 's health_service =
  hs_W :: "'s world"
  hs_C :: "'s crypto"
  hs_N :: "'s network"
  hs_J :: node_json
  hs_cipher :: aead
  hs_timeout :: duration
  hs_maxFailCount :: int
  hs_retry :: retry_Config
  hs_ctx :: "'s go_context"
  hs_Do :: "'s transport \<Rightarrow> probe_request \<Rightarrow> ('s, error + http_result) state"
  hs_url_Parse :: "string \<Rightarrow> error + url"
  hs_PJ :: probe_json
  hs_probeSourcesOverride :: "probeSource list"
  hs_enrichSourcesOverride :: "enrichSource list"

section \<open>The answers of the probe services\<close>

definition parseIPInfoProbe :: "probe_json \<Rightarrow> string \<Rightarrow> error + probeInfo" where
  "parseIPInfoProbe P body =
     (case json_ipinfo P body of
        Inl err \<Rightarrow> Inl err
      | Inr p \<Rightarrow> Inr \<lparr>pi_IP = TrimSpace (pi_IP p), pi_City = TrimSpace (pi_City p),
          pi_Country = TrimSpace (pi_Country p), pi_Region = TrimSpace (pi_Region p), pi_Org = TrimSpace (pi_Org p)\<rparr>)"

definition parseIPifyProbe :: "probe_json \<Rightarrow> string \<Rightarrow> error + probeInfo" where
  "parseIPifyProbe P body =
     (case json_ipify P body of Inl err \<Rightarrow> Inl err | Inr ip \<Rightarrow> Inr (no_info\<lparr>pi_IP := TrimSpace ip\<rparr>))"

definition parsePlainTextIPProbe :: "string \<Rightarrow> error + probeInfo" where
  "parsePlainTextIPProbe body =
     (let ip = TrimSpace body
      in if ip = [] then Inl (Errorf ''plain text probe missing ip'') else Inr (no_info\<lparr>pi_IP := ip\<rparr>))"

definition parseIPWhoProbe :: "probe_json \<Rightarrow> string \<Rightarrow> error + probeInfo" where
  "parseIPWhoProbe P body =
     (case json_ipwho P body of
        Inl err \<Rightarrow> Inl err
      | Inr p \<Rightarrow>
          if who_Success p = Some False then Inl (Errorf ''ipwho unsuccessful response'')
          else
            let org = (if TrimSpace (who_Org p) = [] then TrimSpace (who_ISP p) else TrimSpace (who_Org p));
                asn = TrimSpace (who_ASN p);
                org = (if asn \<noteq> [] \<and> org \<noteq> [] \<and> \<not> HasPrefix (ToUpper org) ''AS''
                  then ''AS'' @ TrimPrefix (ToUpper asn) ''AS'' @ '' '' @ org else org)
            in Inr \<lparr>pi_IP = TrimSpace (who_IP p), pi_City = TrimSpace (who_City p),
                 pi_Country = TrimSpace (who_Country p), pi_Region = TrimSpace (who_Region p), pi_Org = TrimSpace org\<rparr>)"

definition parseIPAPICoProbe :: "probe_json \<Rightarrow> string \<Rightarrow> error + probeInfo" where
  "parseIPAPICoProbe P body =
     (case json_ipapi P body of
        Inl err \<Rightarrow> Inl err
      | Inr p \<Rightarrow>
          if api_Error p then Inl (Errorf (if api_Reason p = [] then ''ipapi error'' else api_Reason p))
          else
            let org = TrimSpace (api_Org p);
                asn = TrimSpace (api_ASN p);
                org = (if asn \<noteq> [] \<and> org \<noteq> [] \<and> \<not> HasPrefix (ToUpper org) ''AS''
                  then TrimSpace asn @ '' '' @ org else org)
            in Inr \<lparr>pi_IP = TrimSpace (api_IP p), pi_City = TrimSpace (api_City p),
                 pi_Country = TrimSpace (api_Country p), pi_Region = TrimSpace (api_Region p), pi_Org = TrimSpace org\<rparr>)"

definition parseASN :: "string \<Rightarrow> string" where
  "parseASN org =
     (case Fields org of
        [] \<Rightarrow> []
      | p # _ \<Rightarrow> if HasPrefix (ToUpper p) ''AS'' then ToUpper p else [])"

definition parseISP :: "string \<Rightarrow> string" where
  "parseISP org =
     (case Fields org of
        p # q # ps \<Rightarrow> Join (q # ps) '' ''
      | _ \<Rightarrow> org)"

definition mergeProbeInfo :: "probeInfo \<Rightarrow> probeInfo \<Rightarrow> probeInfo" where
  "mergeProbeInfo base extra = \<lparr>
     pi_IP = (if pi_IP base = [] then pi_IP extra else pi_IP base),
     pi_City = (if pi_City base = [] then pi_City extra else pi_City base),
     pi_Country = (if pi_Country base = [] then pi_Country extra else pi_Country base),
     pi_Region = (if pi_Region base = [] then pi_Region extra else pi_Region base),
     pi_Org = (if pi_Org base = [] then pi_Org extra else pi_Org base)\<rparr>"

definition hasProfileInfo :: "probeInfo \<Rightarrow> bool" where
  "hasProfileInfo i \<longleftrightarrow> TrimSpace (pi_City i) \<noteq> [] \<or> TrimSpace (pi_Country i) \<noteq> [] \<or>
     TrimSpace (pi_Region i) \<noteq> [] \<or> TrimSpace (pi_Org i) \<noteq> []"

section \<open>Fetching\<close>

definition with_user :: "string \<Rightarrow> string \<Rightarrow> url \<Rightarrow> url" where
  "with_user user pass u = u\<lparr>url_User := Some (user, Some pass)\<rparr>"

definition direct_transport :: "'s transport" where
  "direct_transport = \<lparr>tr_SkipVerify = False, tr_Proxy = None, tr_Dial = None\<rparr>"

definition transportForNode :: "'s health_service \<Rightarrow> ProxyNode \<Rightarrow> error + 's transport" where
  "transportForNode h node =
     (let transport = direct_transport\<lparr>tr_SkipVerify := n_TLSSkipVerify node\<rparr>
      in if IsHTTPProxyProtocol (n_Protocol node) then
           (case URLForNode (hs_url_Parse h) with_user node (hs_cipher h) of
              Inl err \<Rightarrow> Inl err
            | Inr proxyURL \<Rightarrow> Inr (transport\<lparr>tr_Proxy := Some proxyURL\<rparr>))
         else if IsTargetDialProtocol (n_Protocol node) then
           Inr (transport\<lparr>tr_Dial := Some (\<lambda>addr.
             DialTarget (hs_W h) (hs_C h) (hs_N h) node (hs_cipher h) addr (hs_timeout h))\<rparr>)
         else Inl (Errorf (''unsupported healthcheck protocol: '' @ n_Protocol node)))"

text \<open>One attempt; \<open>extra\<close> are the headers that \<^verbatim>\<open>decorate\<close> sets.\<close>

definition source_once ::
  "'s health_service \<Rightarrow> 's transport \<Rightarrow> string \<Rightarrow> (string \<Rightarrow> error + probeInfo) \<Rightarrow> (string \<times> string) list \<Rightarrow>
   ('s \<times> probeInfo, error option) state" where
  "source_once h transport requestURL parse extra = do {
     let req = \<lparr>pr_URL = requestURL,
       pr_Header = [(''User-Agent'', ''ProxyDeck-Healthcheck/1.0''),
         (''Accept'', ''application/json, text/plain;q=0.9, */*;q=0.8'')] @ extra\<rparr>;
     resp \<leftarrow> lift_state (hs_Do h transport req);
     case resp of
       Inl err \<Rightarrow> State_Monad.return (Some err)
     | Inr resp \<Rightarrow>
         if hr_StatusCode resp \<ge> 500 then State_Monad.return (Some (Errorf (hr_Status resp)))
         else if hr_StatusCode resp \<noteq> 200
         then State_Monad.return (Some (StopError (Some (Errorf (hr_Status resp)))))
         else
           (case snd (hr_Body resp) of
              Some err \<Rightarrow> State_Monad.return (Some err)
            | None \<Rightarrow>
                (case parse (fst (hr_Body resp)) of
                   Inl err \<Rightarrow> State_Monad.return (Some (StopError (Some err)))
                 | Inr parsed \<Rightarrow> do { _ \<leftarrow> assign parsed; State_Monad.return None }))
   }"

definition fetchFromSource ::
  "'s health_service \<Rightarrow> 's transport \<Rightarrow> string \<Rightarrow> (string \<Rightarrow> error + probeInfo) \<Rightarrow> (string \<times> string) list \<Rightarrow>
   ('s, error option \<times> probeInfo) state" where
  "fetchFromSource h transport requestURL parse extra =
     with_var no_info (Do_retry (lift_context (hs_ctx h)) (hs_retry h) (source_once h transport requestURL parse extra))"

definition probeSources :: "'s health_service \<Rightarrow> probeSource list" where
  "probeSources h =
     (if hs_probeSourcesOverride h \<noteq> [] then hs_probeSourcesOverride h
      else [\<lparr>src_name = ''ipify'', src_url = ''https://api.ipify.org?format=json'', src_parse = parseIPifyProbe (hs_PJ h)\<rparr>,
            \<lparr>src_name = ''ifconfig'', src_url = ''https://ifconfig.me/ip'', src_parse = parsePlainTextIPProbe\<rparr>,
            \<lparr>src_name = ''ipinfo'', src_url = ''https://ipinfo.io/json'', src_parse = parseIPInfoProbe (hs_PJ h)\<rparr>])"

definition enrichSources :: "'s health_service \<Rightarrow> enrichSource list" where
  "enrichSources h =
     (if hs_enrichSourcesOverride h \<noteq> [] then hs_enrichSourcesOverride h
      else [\<lparr>enr_name = ''ipinfo'', enr_url = (\<lambda>ip. ''https://ipinfo.io/'' @ ip @ ''/json''), enr_parse = parseIPInfoProbe (hs_PJ h)\<rparr>,
            \<lparr>enr_name = ''ipwho'', enr_url = (\<lambda>ip. ''https://ipwho.is/'' @ ip), enr_parse = parseIPWhoProbe (hs_PJ h)\<rparr>,
            \<lparr>enr_name = ''ipapi'', enr_url = (\<lambda>ip. ''https://ipapi.co/'' @ ip @ ''/json/''), enr_parse = parseIPAPICoProbe (hs_PJ h)\<rparr>])"

definition probe_headers :: "'s health_service \<Rightarrow> ProxyNode \<Rightarrow> (string \<times> string) list" where
  "probe_headers h node =
     (if IsHTTPProxyProtocol (n_Protocol node) then
        (case ProxyAuthorization node (hs_cipher h) of
           Inl _ \<Rightarrow> []
         | Inr authValue \<Rightarrow> if authValue = [] then [] else [(''Proxy-Authorization'', authValue)])
      else [])"

text \<open>The sources are tried in order; the errors are collected.\<close>

primrec try_probes ::
  "'s health_service \<Rightarrow> 's transport \<Rightarrow> ProxyNode \<Rightarrow> string list \<Rightarrow> probeSource list \<Rightarrow> ('s, error + probeInfo) state" where
  "try_probes h transport node errs [] = State_Monad.return (Inl (Errorf (Join errs ''; '')))"
| "try_probes h transport node errs (source # sources) = do {
     (err, info) \<leftarrow> fetchFromSource h transport (src_url source) (src_parse source) (probe_headers h node);
     if err = None \<and> TrimSpace (pi_IP info) \<noteq> [] then State_Monad.return (Inr info)
     else
       let text = (case err of None \<Rightarrow> ''missing ip'' | Some e \<Rightarrow> error_text e)
       in try_probes h transport node (errs @ [src_name source @ '': '' @ text]) sources
   }"

definition fetchExitIP :: "'s health_service \<Rightarrow> 's transport \<Rightarrow> ProxyNode \<Rightarrow> ('s, error + probeInfo) state" where
  "fetchExitIP h transport node = try_probes h transport node [] (probeSources h)"

primrec try_enrich ::
  "'s health_service \<Rightarrow> string \<Rightarrow> string list \<Rightarrow> enrichSource list \<Rightarrow> ('s, error + probeInfo) state" where
  "try_enrich h ip errs [] = State_Monad.return (Inl (Errorf (Join errs ''; '')))"
| "try_enrich h ip errs (source # sources) = do {
     (err, info) \<leftarrow> fetchFromSource h direct_transport (enr_url source ip) (enr_parse source) [];
     if err = None \<and> hasProfileInfo info then State_Monad.return (Inr info)
     else
       let text = (case err of None \<Rightarrow> ''missing profile data'' | Some e \<Rightarrow> error_text e)
       in try_enrich h ip (errs @ [enr_name source @ '': '' @ text]) sources
   }"

definition enrichIPInfo :: "'s health_service \<Rightarrow> string \<Rightarrow> ('s, error + probeInfo) state" where
  "enrichIPInfo h ip = try_enrich h ip [] (enrichSources h)"

section \<open>Checking\<close>

definition failed_node :: "int \<Rightarrow> time \<Rightarrow> ProxyNode \<Rightarrow> ProxyNode" where
  "failed_node maxFailCount now node =
     (let fails = wrap64 (n_FailCount node + 1)
      in node\<lparr>n_FailCount := fails, n_Healthy := n_Healthy node \<and> fails < maxFailCount, n_LastCheckAt := Some now\<rparr>)"

definition markFailure :: "'s health_service \<Rightarrow> ProxyNode \<Rightarrow> time \<Rightarrow> error \<Rightarrow> ('s, error option) state" where
  "markFailure h node now err = do {
     let node = failed_node (hs_maxFailCount h) now node;
     _ \<leftarrow> db_Save (nodes_tbl (hs_W h)) node;
     _ \<leftarrow> CacheNode (hs_W h) (hs_J h) node;
     State_Monad.return (Some err)
   }"

text \<open>\<^verbatim>\<open>d.Milliseconds()\<close> drops the rest.\<close>

definition Milliseconds :: "duration \<Rightarrow> int" where
  "Milliseconds d = (if d < 0 then - ((- d) div 1000000) else d div 1000000)"

definition checked_node :: "probeInfo \<Rightarrow> int \<Rightarrow> time \<Rightarrow> ProxyNode \<Rightarrow> ProxyNode" where
  "checked_node info latency now node = node\<lparr>
     n_ExitIP := pi_IP info, n_City := TrimSpace (pi_City info), n_Country := TrimSpace (pi_Country info),
     n_DetectedRegion := TrimSpace (pi_Region info), n_ASN := parseASN (pi_Org info), n_Org := TrimSpace (pi_Org info),
     n_ISP := parseISP (pi_Org info), n_FailCount := 0, n_Healthy := True, n_LatencyMS := latency,
     n_LastCheckAt := Some now\<rparr>"

text \<open>The node has answered with its exit address: it is described and written back.\<close>

definition record_success ::
  "'s health_service \<Rightarrow> ProxyNode \<Rightarrow> time \<Rightarrow> time \<Rightarrow> probeInfo \<Rightarrow> Registry option \<Rightarrow>
   ('s, error option \<times> Registry option) state" where
  "record_success h node start now info m = do {
     enriched \<leftarrow> enrichIPInfo h (pi_IP info);
     let info = (case enriched of Inr e \<Rightarrow> mergeProbeInfo info e | Inl _ \<Rightarrow> info);
     since \<leftarrow> time_Now (hs_W h);
     let node = checked_node info (Milliseconds (time_Sub since start)) now node;
     err \<leftarrow> db_Save (nodes_tbl (hs_W h)) node;
     case err of
       Some e \<Rightarrow> State_Monad.return (Some e, m)
     | None \<Rightarrow> do {
         err \<leftarrow> CacheNode (hs_W h) (hs_J h) node;
         State_Monad.return (err, map_option IncHealthcheckSuccess m)
       }
   }"

definition check_through ::
  "'s health_service \<Rightarrow> ProxyNode \<Rightarrow> 's transport \<Rightarrow> Registry option \<Rightarrow> ('s, error option \<times> Registry option) state" where
  "check_through h node transport m = do {
     start \<leftarrow> time_Now (hs_W h);
     info \<leftarrow> fetchExitIP h transport node;
     now \<leftarrow> time_Now (hs_W h);
     case info of
       Inl err \<Rightarrow> do {
         r \<leftarrow> markFailure h node now err;
         State_Monad.return (r, map_option IncHealthcheckFailure m)
       }
     | Inr info \<Rightarrow>
         if TrimSpace (pi_IP info) = [] then do {
           r \<leftarrow> markFailure h node now (Errorf ''probe response missing ip'');
           State_Monad.return (r, map_option IncHealthcheckFailure m)
         }
         else record_success h node start now info m
   }"

definition CheckOne ::
  "'s health_service \<Rightarrow> nat \<Rightarrow> Registry option \<Rightarrow> ('s, error option \<times> Registry option) state" where
  "CheckOne h nodeID m = do {
     node \<leftarrow> db_First (nodes_tbl (hs_W h)) (\<lambda>n. n_ID n = nodeID);
     case node of
       Inl err \<Rightarrow> State_Monad.return (Some err, m)
     | Inr node \<Rightarrow>
         (case transportForNode h node of
            Inl err \<Rightarrow> State_Monad.return (Some err, m)
          | Inr transport \<Rightarrow> check_through h node transport m)
   }"

section \<open>Checking many\<close>

primrec check_each :: "'s health_service \<Rightarrow> ProxyNode list \<Rightarrow> Registry option \<Rightarrow> ('s, Registry option) state" where
  "check_each h [] m = State_Monad.return m"
| "check_each h (node # nodes) m = do { (_, m) \<leftarrow> CheckOne h (n_ID node) m; check_each h nodes m }"

definition CheckAll :: "'s health_service \<Rightarrow> Registry option \<Rightarrow> ('s, error option \<times> Registry option) state" where
  "CheckAll h m = do {
     nodes \<leftarrow> db_Find (nodes_tbl (hs_W h)) (\<lambda>_. True);
     case nodes of
       Inl err \<Rightarrow> State_Monad.return (Some err, m)
     | Inr nodes \<Rightarrow> do { m \<leftarrow> check_each h nodes m; State_Monad.return (None, m) }
   }"

primrec summarize ::
  "'s health_service \<Rightarrow> Summary \<Rightarrow> nat list \<Rightarrow> Registry option \<Rightarrow> ('s, Summary \<times> Registry option) state" where
  "summarize h summary [] m = State_Monad.return (summary, m)"
| "summarize h summary (nodeID # nodeIDs) m = do {
     (err, m) \<leftarrow> CheckOne h nodeID m;
     let summary = (if err = None then summary else summary\<lparr>sum_Failed := sum_Failed summary + 1\<rparr>);
     node \<leftarrow> db_First (nodes_tbl (hs_W h)) (\<lambda>n. n_ID n = nodeID);
     let healthy = (case node of Inl _ \<Rightarrow> False | Inr node \<Rightarrow> n_Healthy node);
     summarize h (if healthy then summary\<lparr>sum_Healthy := sum_Healthy summary + 1\<rparr>
       else summary\<lparr>sum_Unhealthy := sum_Unhealthy summary + 1\<rparr>) nodeIDs m
   }"

definition CheckNodes ::
  "'s health_service \<Rightarrow> nat list \<Rightarrow> Registry option \<Rightarrow> ('s, Summary \<times> Registry option) state" where
  "CheckNodes h nodeIDs m =
     summarize h \<lparr>sum_Total = length nodeIDs, sum_Healthy = 0, sum_Unhealthy = 0, sum_Failed = 0,
       sum_CheckedIDs = nodeIDs\<rparr> nodeIDs m"

section \<open>What a check keeps\<close>

text \<open>The HTTP client and the context leave the stores alone.\<close>

locale health_env =
  fixes h :: "'s health_service" and view :: "'s \<Rightarrow> store"
  assumes stores: "reliable (hs_W h) view"
    and client: "keeps view (hs_Do h transport req)"
    and context_Err: "keeps view (ctx_Err (hs_ctx h))"
    and context_wait: "keeps view (ctx_wait (hs_ctx h) d)"
begin

lemma fetchFromSource_keeps: "keeps view (fetchFromSource h transport requestURL parse extra)"
  unfolding fetchFromSource_def
proof (rule keeps_retry [OF context_Err context_wait])
  show "keeps (view \<circ> fst) (source_once h transport requestURL parse extra)"
    unfolding source_once_def Let_def
    by (intro keeps_bind keeps_lift client)
      (auto intro!: keeps_bind keeps_assign split: sum.splits option.splits)
qed

lemma try_probes_keeps: "keeps view (try_probes h transport node errs sources)"
  by (induction sources arbitrary: errs) (auto intro!: keeps_bind fetchFromSource_keeps simp: Let_def split: prod.splits)

lemma try_enrich_keeps: "keeps view (try_enrich h ip errs sources)"
  by (induction sources arbitrary: errs) (auto intro!: keeps_bind fetchFromSource_keeps simp: Let_def split: prod.splits)

lemma try_probes_ip:
  "wp (try_probes h transport node errs sources)
     (\<lambda>r s'. case r of Inl _ \<Rightarrow> True | Inr info \<Rightarrow> TrimSpace (pi_IP info) \<noteq> []) s"
proof (induction sources arbitrary: errs s)
  case (Cons source sources)
  show ?case
    unfolding try_probes.simps wp_bind
    by (rule wp_keeps [OF fetchFromSource_keeps]) (auto simp: Let_def intro: Cons.IH split: prod.splits)
qed simp

lemma wp_fetchExitIP:
  assumes "\<And>r s'. view s' = view s \<Longrightarrow> (\<And>info. r = Inr info \<Longrightarrow> TrimSpace (pi_IP info) \<noteq> []) \<Longrightarrow> Q r s'"
  shows "wp (fetchExitIP h transport node) Q s"
  unfolding fetchExitIP_def
proof (rule wp_runI)
  fix r s' assume run: "run_state (try_probes h transport node [] (probeSources h)) s = (r, s')"
  then have "view s' = view s" using try_probes_keeps unfolding keeps_def by blast
  moreover have "TrimSpace (pi_IP info) \<noteq> []" if "r = Inr info" for info
    using wp_runD [OF try_probes_ip run] that by simp
  ultimately show "Q r s'" by (rule assms)
qed

lemma wp_enrichIPInfo: "(\<And>r s'. view s' = view s \<Longrightarrow> Q r s') \<Longrightarrow> wp (enrichIPInfo h ip) Q s"
  unfolding enrichIPInfo_def by (rule wp_keeps [OF try_enrich_keeps])

lemma wp_CacheNode_tables: "(\<And>r s'. tables view s' = tables view s \<Longrightarrow> Q r s') \<Longrightarrow> wp (CacheNode (hs_W h) J node) Q s"
  by (rule backend.wp_keeps_tables [OF reliable.is_backend [OF stores] backend.cache_keeps_tables(1)
        [OF reliable.is_backend [OF stores]]])

end

section \<open>Properties\<close>

text \<open>The row is written, or its statement is rejected and the tables stay.\<close>

definition saved :: "ProxyNode \<Rightarrow> store \<Rightarrow> store" where
  "saved row v = v\<lparr>st_nodes := insert_row n_ID row (st_nodes v)\<rparr>"

lemma merged_ip: "TrimSpace (pi_IP info) \<noteq> [] \<Longrightarrow> pi_IP (mergeProbeInfo info e) = pi_IP info"
  by (auto simp: mergeProbeInfo_def)

lemma wp_markFailure:
  assumes "health_env h view"
    and "\<And>s'. tables view s' \<in> {tables view s, saved (failed_node (hs_maxFailCount h) now node) (tables view s)} \<Longrightarrow>
      Q (Some err) s'"
  shows "wp (markFailure h node now err) Q s"
  unfolding markFailure_def Let_def wp_bind wp_return
  by (rule reliable.wp_Save_nodes [OF health_env.stores [OF assms(1)]];
      rule health_env.wp_CacheNode_tables [OF assms(1)]; rule assms(2)) (simp_all add: saved_def)

lemma wp_record_success:
  assumes "health_env h view" and "TrimSpace (pi_IP info) \<noteq> []"
    and unsaved: "\<And>e s'. view s' = view s \<Longrightarrow> Q (Some e, m) s'"
    and checked: "\<And>r s' info latency. TrimSpace (pi_IP info) \<noteq> [] \<Longrightarrow>
      tables view s' = saved (checked_node info latency now node) (tables view s) \<Longrightarrow>
      Q (r, map_option IncHealthcheckSuccess m) s'"
  shows "wp (record_success h node start now info m) Q s"
  unfolding record_success_def wp_bind
proof (rule health_env.wp_enrichIPInfo [OF assms(1)], unfold Let_def wp_bind,
    rule reliable.wp_time_Now [OF health_env.stores [OF assms(1)]])
  fix r s1 since s2
  assume v: "view s1 = view s" "view s2 = view s1"
  let ?info = "case r of Inl (_ :: error) \<Rightarrow> info | Inr e \<Rightarrow> mergeProbeInfo info e"
  let ?node = "checked_node ?info (Milliseconds (time_Sub since start)) now node"
  have ip: "TrimSpace (pi_IP ?info) \<noteq> []" using assms(2) by (simp add: merged_ip split: sum.split)
  show "wp (db_Save (nodes_tbl (hs_W h)) ?node) (\<lambda>err. wp (case err of
        None \<Rightarrow> do { err \<leftarrow> CacheNode (hs_W h) (hs_J h) ?node; State_Monad.return (err, map_option IncHealthcheckSuccess m) }
      | Some e \<Rightarrow> State_Monad.return (Some e, m)) Q) s2"
    by (rule reliable.wp_Save_nodes [OF health_env.stores [OF assms(1)]]; simp only: option.case wp_bind wp_return)
      (rule health_env.wp_CacheNode_tables [OF assms(1)], rule checked [OF ip, of _ "Milliseconds (time_Sub since start)"], simp add: v saved_def,
        rule unsaved, simp add: v)
qed

definition check_outcome ::
  "'s health_service \<Rightarrow> ProxyNode \<Rightarrow> Registry option \<Rightarrow> store \<Rightarrow> error option \<times> Registry option \<Rightarrow> store \<Rightarrow> bool" where
  "check_outcome h node m v result v' \<longleftrightarrow> (case result of (r, m') \<Rightarrow>
     r \<noteq> None \<and> m' = m \<and> v' = v \<or>
     r \<noteq> None \<and> m' = map_option IncHealthcheckFailure m \<and>
       (\<exists>now. v' \<in> {v, saved (failed_node (hs_maxFailCount h) now node) v}) \<or>
     m' = map_option IncHealthcheckSuccess m \<and>
       (\<exists>info latency now. TrimSpace (pi_IP info) \<noteq> [] \<and> v' = saved (checked_node info latency now node) v))"

lemma check_outcomeI:
  "r \<noteq> None \<Longrightarrow> check_outcome h node m v (r, m) v"
  "r \<noteq> None \<Longrightarrow> v' \<in> {v, saved (failed_node (hs_maxFailCount h) now node) v} \<Longrightarrow>
    check_outcome h node m v (r, map_option IncHealthcheckFailure m) v'"
  "TrimSpace (pi_IP info) \<noteq> [] \<Longrightarrow> v' = saved (checked_node info latency now node) v \<Longrightarrow>
    check_outcome h node m v (r, map_option IncHealthcheckSuccess m) v'"
  unfolding check_outcome_def prod.case by blast+

lemma wp_check_through:
  assumes env: "health_env h view"
  shows "wp (check_through h node transport m) (\<lambda>result s'. check_outcome h node m (tables view s) result (tables view s')) s"
  unfolding check_through_def wp_bind
proof (rule reliable.wp_time_Now [OF health_env.stores [OF env]], rule health_env.wp_fetchExitIP [OF env],
    rule reliable.wp_time_Now [OF health_env.stores [OF env]])
  let ?Q = "\<lambda>result s'. check_outcome h node m (tables view s) result (tables view s')"
  fix start s1 now s3 s2 and r :: "error + probeInfo"
  assume v: "view s1 = view s" "view s2 = view s1" "view s3 = view s2"
    and ip: "\<And>info. r = Inr info \<Longrightarrow> TrimSpace (pi_IP info) \<noteq> []"
  show "wp (case r of
      Inl err \<Rightarrow> do { r \<leftarrow> markFailure h node now err; State_Monad.return (r, map_option IncHealthcheckFailure m) }
    | Inr info \<Rightarrow>
        if TrimSpace (pi_IP info) = [] then do {
          r \<leftarrow> markFailure h node now (Errorf ''probe response missing ip'');
          State_Monad.return (r, map_option IncHealthcheckFailure m)
        }
        else record_success h node start now info m) ?Q s3"
  proof (cases r)
    case (Inl err)
    show ?thesis
      unfolding Inl sum.case wp_bind wp_return
      by (rule wp_markFailure [OF env], rule check_outcomeI(2)) (use v in auto)
  next
    case (Inr info)
    show ?thesis
      unfolding Inr sum.case if_not_P [OF ip [OF Inr]]
    proof (rule wp_record_success [OF env ip [OF Inr]])
      show "?Q (Some e, m) s'" if "view s' = view s3" for e s'
        using check_outcomeI(1) [of "Some e"] v that by simp
    qed (rule check_outcomeI(3), assumption, simp add: v)
  qed
qed


definition mem_health :: "mem health_service" where
  "mem_health = \<lparr>hs_W = mem_world, hs_C = mem_crypto, hs_N = mem_network, hs_J = mem_json, hs_cipher = mem_aead,
     hs_timeout = 8000000000, hs_maxFailCount = 3, hs_retry = DefaultConfig, hs_ctx = never_done,
     hs_Do = (\<lambda>transport req. State_Monad.return (Inr \<lparr>hr_StatusCode = 200, hr_Status = ''200 OK'',
       hr_Body = (''203.0.113.7'', None)\<rparr>)),
     hs_url_Parse = (\<lambda>_. Inl (ExtErr ''url'')),
     hs_PJ = \<lparr>json_ipinfo = (\<lambda>_. Inr \<lparr>pi_IP = ''203.0.113.7'', pi_City = ''Tokyo'', pi_Country = ''JP'',
         pi_Region = ''Tokyo'', pi_Org = ''AS2516 KDDI''\<rparr>),
       json_ipify = (\<lambda>_. Inl (ExtErr ''json'')), json_ipwho = (\<lambda>_. Inl (ExtErr ''json'')),
       json_ipapi = (\<lambda>_. Inl (ExtErr ''json''))\<rparr>,
     hs_probeSourcesOverride = [], hs_enrichSourcesOverride = []\<rparr>"

interpretation mem_health: health_env mem_health mem_view
  using mem.reliable_axioms by (auto simp: health_env_def mem_health_def never_done_def)

definition socks_node :: ProxyNode where
  "socks_node = zero_node\<lparr>n_ID := 7, n_Protocol := ''socks5'', n_Host := ''10.0.0.1'', n_Port := 1080\<rparr>"


lemma failing_run:
  assumes "n_FailCount node = int k" and "n_Healthy node \<longleftrightarrow> int k < maxFailCount" and "k + length nows < 2 ^ 63"
  shows "n_FailCount (fold (failed_node maxFailCount) nows node) = int (k + length nows) \<and>
    (n_Healthy (fold (failed_node maxFailCount) nows node) \<longleftrightarrow> int (k + length nows) < maxFailCount)"
  using assms
proof (induction nows arbitrary: node k)
  case (Cons now nows)
  let ?node = "failed_node maxFailCount now node"
  have fails: "wrap64 (int k + 1) = int (Suc k)"
    using Cons.prems(3) by (subst wrap64_id) (auto simp: int64_range_def)
  have "n_FailCount ?node = int (Suc k)" "n_Healthy ?node \<longleftrightarrow> int (Suc k) < maxFailCount"
    using Cons.prems(1,2) fails by (auto simp: failed_node_def Let_def)
  then show ?case using Cons.IH [of ?node "Suc k"] Cons.prems(3) by simp
qed simp

text \<open>
  C37: A healthy node is taken out of service by the maxFailCount-th failing check in a row and not
  before, whenever the checks happen, and a check that succeeds puts any node back, with no failures.
\<close>

theorem failing_checks_threshold:
  assumes "n_Healthy node" and "n_FailCount node = 0" and "0 < maxFailCount" and "length nows < 2 ^ 63"
  shows "(n_Healthy (fold (failed_node maxFailCount) nows node) \<longleftrightarrow> int (length nows) < maxFailCount) \<and>
    n_Healthy (checked_node info latency now node') \<and> n_FailCount (checked_node info latency now node') = 0"
  using failing_run [of node 0 maxFailCount nows] assms by (simp_all add: checked_node_def)

theorem failing_checks_threshold_witness:
  "n_Healthy (fold (failed_node 3) [10, 20] (socks_node\<lparr>n_Healthy := True\<rparr>)) \<and>
   \<not> n_Healthy (fold (failed_node 3) [10, 20, 30] (socks_node\<lparr>n_Healthy := True\<rparr>))"
  using failing_checks_threshold [of "socks_node\<lparr>n_Healthy := True\<rparr>" 3 "[10, 20]"]
    failing_checks_threshold [of "socks_node\<lparr>n_Healthy := True\<rparr>" 3 "[10, 20, 30]"]
  by (simp add: socks_node_def zero_node_def)

lemma summarize_counts:
  "wp (summarize h summary nodeIDs m) (\<lambda>(summary', m') s'.
     sum_Healthy summary' + sum_Unhealthy summary' = sum_Healthy summary + sum_Unhealthy summary + length nodeIDs \<and>
     sum_Failed summary' \<le> sum_Failed summary + length nodeIDs \<and>
     sum_Total summary' = sum_Total summary \<and> sum_CheckedIDs summary' = sum_CheckedIDs summary) s"
proof (induction nodeIDs arbitrary: summary m s)
  case (Cons nodeID nodeIDs)
  show ?case
    unfolding summarize.simps wp_bind
  proof (rule wp_any, clarify, unfold Let_def wp_bind, rule wp_any)
    fix err m1 node s1 s2
    let ?step = "\<lambda>s. if case node of Inl _ \<Rightarrow> False | Inr node \<Rightarrow> n_Healthy node
       then s\<lparr>sum_Healthy := sum_Healthy s + 1\<rparr> else s\<lparr>sum_Unhealthy := sum_Unhealthy s + 1\<rparr>"
    show "wp (summarize h (?step (if err = None then summary else summary\<lparr>sum_Failed := sum_Failed summary + 1\<rparr>)) nodeIDs m1)
      (\<lambda>(summary', m') s'.
         sum_Healthy summary' + sum_Unhealthy summary' = sum_Healthy summary + sum_Unhealthy summary + length (nodeID # nodeIDs) \<and>
         sum_Failed summary' \<le> sum_Failed summary + length (nodeID # nodeIDs) \<and>
         sum_Total summary' = sum_Total summary \<and> sum_CheckedIDs summary' = sum_CheckedIDs summary) s2"
      by (rule wp_mono [OF Cons.IH]) (auto split: if_splits)
  qed
qed simp

text \<open>
  The summary of a run over nodes adds up: every node is counted once as healthy or as
  unhealthy, no more nodes fail than are checked, and the ids are those asked for.
\<close>

theorem CheckNodes_counts:
  "wp (CheckNodes h nodeIDs m) (\<lambda>(summary, m') s'.
     sum_Healthy summary + sum_Unhealthy summary = sum_Total summary \<and> sum_Total summary = length nodeIDs \<and>
     sum_Failed summary \<le> sum_Total summary \<and> sum_CheckedIDs summary = nodeIDs) s"
  unfolding CheckNodes_def by (rule wp_mono [OF summarize_counts]) auto

end
