(* ===== verification/AdminApi.thy ===== *)
theory AdminApi
  imports Healthcheck Stats Quota
begin

text \<open>
  Package \<^verbatim>\<open>adminapi\<close> (\<^verbatim>\<open>internal/adminapi/server.go\<close>): the HTTP interface of the administrators,
  its routes, the session guard and the handlers.  A request is what the handlers read of it; a
  reply is a status, a body, the cookie set and the nodes whose check is started in the background.
  The decoding of JSON bodies, the SQL that GORM builds from text and maps, and the format of times
  are parameters; the columns \<^verbatim>\<open>created_at\<close> and \<^verbatim>\<open>updated_at\<close>, the CORS headers and gin's
  redirection of a path with a trailing slash are left out.
\<close>

section \<open>Requests, replies and the server\<close>

record admin_request =
  aq_Method :: string
  aq_Path :: "string list"
  aq_Cookie :: "string option"
  aq_Body :: string
  aq_Query :: "string \<Rightarrow> string"

datatype body = NoBody | JSON any | JSONOverview Overview | JSONTraffic TrafficSummary | PlainText string

record admin_reply =
  ar_Status :: nat
  ar_Body :: body
  ar_Cookie :: "(string \<times> int) option"
  ar_Started :: "nat list"

definition reply :: "nat \<Rightarrow> body \<Rightarrow> admin_reply" where
  "reply status b = \<lparr>ar_Status = status, ar_Body = b, ar_Cookie = None, ar_Started = []\<rparr>"

definition json_error :: "nat \<Rightarrow> string \<Rightarrow> admin_reply" where
  "json_error status text = reply status (JSON (AMap [(''error'', AStr text)]))"

definition json_ok :: admin_reply where
  "json_ok = reply 200 (JSON (AMap [(''ok'', ABool True)]))"

record create_user_request =
  cu_UID :: string
  cu_Password :: string
  cu_Enabled :: "bool option"
  cu_QuotaBytes :: int
  cu_MaxConcurrency :: int
  cu_ExpiredAt :: "time option"
  cu_Remark :: string

record create_subscription_request =
  cs_Name :: string
  cs_Type :: string
  cs_URL :: string
  cs_Enabled :: "bool option"
  cs_SyncIntervalSeconds :: int
  cs_Remark :: string

text \<open>
  \<^verbatim>\<open>json.Unmarshal\<close> of a body into the struct or map of the handler; \<open>bind_invalid\<close> is the message of
  the validator where a \<^verbatim>\<open>binding\<close> tag is violated.
\<close>

record bindings =
  bind_invalid :: string
  bind_login :: "string \<Rightarrow> error + string \<times> string"
  bind_create_user :: "string \<Rightarrow> error + create_user_request"
  bind_create_subscription :: "string \<Rightarrow> error + create_subscription_request"
  bind_map :: "string \<Rightarrow> error + item"
  bind_import :: "string \<Rightarrow> error + string \<times> ManualNodeInput list option"
  bind_disabled :: "string \<Rightarrow> bool"

text \<open>
  What GORM and SQLite make of text and maps: a condition written as SQL, the comparison of the id
  with a text value, and the assignment of a map of columns.
\<close>

record sql_text =
  sq_users :: "string \<Rightarrow> User \<Rightarrow> bool"
  sq_nodes :: "string \<Rightarrow> ProxyNode \<Rightarrow> bool"
  sq_id :: "string \<Rightarrow> nat \<Rightarrow> bool"
  sq_assign_user :: "item \<Rightarrow> User \<Rightarrow> User"
  sq_assign_sub :: "item \<Rightarrow> Subscription \<Rightarrow> Subscription"

record 's admin_server =
  sv_W :: "'s world"
  sv_C :: "'s crypto"
  sv_subscription :: "'s sub_service"
  sv_healthcheck :: "'s health_service option"
  sv_has_quota :: bool
  sv_sessionTTL :: duration
  sv_cfg :: Config
  sv_B :: bindings
  sv_SQL :: sql_text
  sv_Ping :: "('s, error option) state"
  sv_time :: "time \<Rightarrow> string"
  sv_zone :: int

type_synonym 's handler = "Registry option \<Rightarrow> ('s, admin_reply \<times> Registry option) state"

section \<open>Helpers\<close>

text \<open>
  \<^verbatim>\<open>strconv.Atoi\<close> with the error dropped: a numeral out of range gives the bound, other text 0; the
  conversion to \<^verbatim>\<open>uint\<close> wraps.
\<close>

definition Atoi_value :: "string \<Rightarrow> int" where
  "Atoi_value s =
     (case Atoi s of
        Some i \<Rightarrow> i
      | None \<Rightarrow>
          (let (neg, digits) = (case s of
               c # t \<Rightarrow> if c = CHR ''-'' then (True, t) else if c = CHR ''+'' then (False, t) else (False, s)
             | [] \<Rightarrow> (False, []))
           in if digits \<noteq> [] \<and> list_all is_digit digits then (if neg then - (2 ^ 63) else 2 ^ 63 - 1) else 0))"

definition path_uint :: "string \<Rightarrow> nat" where
  "path_uint s = nat (Atoi_value s mod 2 ^ 64)"

text \<open>\<^verbatim>\<open>db.First(&row, id)\<close> for a text \<^verbatim>\<open>id\<close>: a number is the key, anything else is SQL.\<close>

definition where_text :: "(string \<Rightarrow> 'r \<Rightarrow> bool) \<Rightarrow> ('r \<Rightarrow> nat) \<Rightarrow> string \<Rightarrow> 'r \<Rightarrow> bool" where
  "where_text sql pk s row = (case Atoi s of Some i \<Rightarrow> int (pk row) = i | None \<Rightarrow> sql s row)"

text \<open>\<^verbatim>\<open>LIKE\<close> of SQLite: \<^verbatim>\<open>%\<close> is any text, \<^verbatim>\<open>_\<close> one character; the case of ASCII letters is ignored.\<close>

definition next_char :: "string \<Rightarrow> string" where
  "next_char s = dropWhile (\<lambda>c. byte_in 0x80 c 0xBF) (tl s)"

function like :: "string \<Rightarrow> string \<Rightarrow> bool" where
  "like [] s = (s = [])"
| "like (q # p) s =
     (if q = CHR ''%'' then like p s \<or> (case s of [] \<Rightarrow> False | _ # t \<Rightarrow> like (q # p) t)
      else if s = [] then False
      else if q = CHR ''_'' then like p (next_char s)
      else lower_char q = lower_char (hd s) \<and> like p (tl s))"
  by pat_completeness auto
termination
proof (relation "measure (\<lambda>(p, s). length p + length s)", goal_cases)
  case (4 q p s)
  have "length (next_char s) \<le> length s"
    unfolding next_char_def by (metis diff_le_self length_dropWhile_le length_tl le_trans)
  then show ?case by simp
qed auto

definition contains_like :: "string \<Rightarrow> string \<Rightarrow> bool" where
  "contains_like v s = like (''%'' @ v @ ''%'') s"

definition readInt64 :: "any \<Rightarrow> int option" where
  "readInt64 v =
     (case v of AInt i \<Rightarrow> Some i | AInt64 i \<Rightarrow> Some i | AFloat f \<Rightarrow> Some (int_of_float f) | _ \<Rightarrow> None)"

definition isSupportedSubscriptionType :: "string \<Rightarrow> bool" where
  "isSupportedSubscriptionType value \<longleftrightarrow> ToLower (TrimSpace value) \<in>
     {''singbox'', ''shadowrocket'', ''clash'', ''mihomo'', ''surge'', ''surfboard'', ''quantumultx'', ''manual''}"

definition sessionCookieMaxAge :: "'s admin_server \<Rightarrow> int" where
  "sessionCookieMaxAge sv =
     (let ttl = cfg_SessionTTLSeconds (sv_cfg sv) in if ttl \<le> 0 then 86400 else ttl)"

definition item_set :: "string \<Rightarrow> any \<Rightarrow> item \<Rightarrow> item" where
  "item_set k v it = (k, v) # filter (\<lambda>(k', _). k' \<noteq> k) it"

definition item_delete :: "string \<Rightarrow> item \<Rightarrow> item" where
  "item_delete k it = filter (\<lambda>(k', _). k' \<noteq> k) it"

text \<open>The characters of valid UTF-8.\<close>

definition rune_count :: "string \<Rightarrow> nat" where
  "rune_count s = length (filter (\<lambda>c. \<not> byte_in 0x80 c 0xBF) s)"

definition audit :: "'s admin_server \<Rightarrow> string \<Rightarrow> string \<Rightarrow> string \<Rightarrow> string \<Rightarrow> string \<Rightarrow> ('s, unit) state" where
  "audit sv who action targetType targetID detail = do {
     _ \<leftarrow> db_Create (audit_tbl (sv_W sv)) \<lparr>a_ID = 0, a_Operator = who, a_Action = action,
       a_TargetType = targetType, a_TargetID = targetID, a_Detail = detail\<rparr>;
     State_Monad.return ()
   }"

section \<open>Payloads\<close>

definition time_json :: "'s admin_server \<Rightarrow> time option \<Rightarrow> any" where
  "time_json sv t = (case t of None \<Rightarrow> ANil | Some t \<Rightarrow> AStr (sv_time sv t))"

definition exitTag :: "ProxyNode \<Rightarrow> string" where
  "exitTag node =
     (let parts = filter (\<lambda>p. p \<noteq> []) [n_DetectedRegion node, n_City node, n_ASN node, n_ExitIP node]
      in if parts = [] then n_Tag node else Join parts '' | '')"

definition sanitizedRawJSON :: "formats \<Rightarrow> string \<Rightarrow> any" where
  "sanitizedRawJSON F raw =
     (if TrimSpace raw = [] then AStr raw
      else case json_map F raw of
        Inl _ \<Rightarrow> AStr raw
      | Inr payload \<Rightarrow> AMap (item_delete ''password'' (item_delete ''username'' payload)))"

definition nodePayload :: "'s admin_server \<Rightarrow> ProxyNode \<Rightarrow> any" where
  "nodePayload sv node = AMap [
     (''id'', AUint64 (n_ID node)), (''node_key'', AStr (n_NodeKey node)), (''tag'', AStr (exitTag node)),
     (''raw_tag'', AStr (n_Tag node)), (''protocol'', AStr (n_Protocol node)), (''host'', AStr (n_Host node)),
     (''port'', AInt (n_Port node)), (''tls_enabled'', ABool (n_TLSEnabled node)),
     (''tls_skip_verify'', ABool (n_TLSSkipVerify node)), (''server_name'', AStr (n_ServerName node)),
     (''expected_region'', AStr (n_ExpectedRegion node)), (''detected_region'', AStr (n_DetectedRegion node)),
     (''city'', AStr (n_City node)), (''country'', AStr (n_Country node)), (''asn'', AStr (n_ASN node)),
     (''org'', AStr (n_Org node)), (''isp'', AStr (n_ISP node)), (''exit_ip'', AStr (n_ExitIP node)),
     (''latency_ms'', AInt64 (n_LatencyMS node)), (''healthy'', ABool (n_Healthy node)),
     (''disabled'', ABool (n_Disabled node)), (''fail_count'', AInt (n_FailCount node)),
     (''last_check_at'', time_json sv (n_LastCheckAt node)), (''subscription_id'', AUint64 (n_SubscriptionID node)),
     (''raw_json'', sanitizedRawJSON (ss_F (sv_subscription sv)) (n_RawJSON node)),
     (''upload_bytes'', AInt64 (n_UploadBytes node)), (''download_bytes'', AInt64 (n_DownloadBytes node)),
     (''total_requests'', AInt64 (n_TotalRequests node))]"

definition userPayload :: "'s admin_server \<Rightarrow> User \<Rightarrow> ('s, any) state" where
  "userPayload sv user = do {
     currentConcurrency \<leftarrow>
       (if sv_has_quota sv then CurrentConcurrency (sv_W sv) (u_UID user) else State_Monad.return 0);
     State_Monad.return (AMap [
       (''id'', AUint64 (u_ID user)), (''uid'', AStr (u_UID user)), (''enabled'', ABool (u_Enabled user)),
       (''quota_bytes'', AInt64 (u_QuotaBytes user)), (''used_bytes'', AInt64 (u_UsedBytes user)),
       (''total_requests'', AInt64 (u_TotalRequests user)), (''max_concurrency'', AInt (u_MaxConcurrency user)),
       (''current_concurrency'', AInt64 currentConcurrency), (''expired_at'', time_json sv (u_ExpiredAt user)),
       (''remark'', AStr (u_Remark user))])
   }"

primrec userPayloads :: "'s admin_server \<Rightarrow> User list \<Rightarrow> ('s, any list) state" where
  "userPayloads sv [] = State_Monad.return []"
| "userPayloads sv (user # users) = do {
     p \<leftarrow> userPayload sv user;
     ps \<leftarrow> userPayloads sv users;
     State_Monad.return (p # ps)
   }"

text \<open>The structs of package \<^verbatim>\<open>model\<close> as their tags encode them: without the password hash.\<close>

definition user_json :: "'s admin_server \<Rightarrow> User \<Rightarrow> any" where
  "user_json sv user = AMap [
     (''id'', AUint64 (u_ID user)), (''uid'', AStr (u_UID user)), (''enabled'', ABool (u_Enabled user)),
     (''quota_bytes'', AInt64 (u_QuotaBytes user)), (''used_bytes'', AInt64 (u_UsedBytes user)),
     (''total_requests'', AInt64 (u_TotalRequests user)), (''max_concurrency'', AInt (u_MaxConcurrency user)),
     (''expired_at'', time_json sv (u_ExpiredAt user)), (''remark'', AStr (u_Remark user))]"

definition subscription_fields :: "'s admin_server \<Rightarrow> Subscription \<Rightarrow> item" where
  "subscription_fields sv b = [
     (''id'', AUint64 (s_ID b)), (''name'', AStr (s_Name b)), (''type'', AStr (s_Type b)), (''url'', AStr (s_URL b)),
     (''enabled'', ABool (s_Enabled b)), (''sync_interval_seconds'', AInt (s_SyncIntervalSeconds b)),
     (''last_sync_at'', time_json sv (s_LastSyncAt b)), (''remark'', AStr (s_Remark b))]"

definition audit_json :: "AuditLog \<Rightarrow> any" where
  "audit_json a = AMap [
     (''id'', AUint64 (a_ID a)), (''operator'', AStr (a_Operator a)), (''action'', AStr (a_Action a)),
     (''target_type'', AStr (a_TargetType a)), (''target_id'', AStr (a_TargetID a)), (''detail'', AStr (a_Detail a))]"

definition items :: "any list \<Rightarrow> admin_reply" where
  "items xs = reply 200 (JSON (AMap [(''items'', AList xs)]))"

text \<open>The items of a query: the slice stays \<^verbatim>\<open>nil\<close>, JSON's \<^verbatim>\<open>null\<close>, when the query fails.\<close>

definition found_items :: "('r list \<Rightarrow> any list) \<Rightarrow> error + 'r list \<Rightarrow> admin_reply" where
  "found_items f found =
     (case found of Inl _ \<Rightarrow> reply 200 (JSON (AMap [(''items'', ANil)])) | Inr rows \<Rightarrow> items (f rows))"

section \<open>Sessions\<close>

definition login :: "'s admin_server \<Rightarrow> admin_request \<Rightarrow> 's handler" where
  "login sv r m =
     (case bind_login (sv_B sv) (aq_Body r) of
        Inl err \<Rightarrow> State_Monad.return (json_error 400 (error_text err), m)
      | Inr (username, password) \<Rightarrow> do {
          admin \<leftarrow> db_First (users_tbl (sv_W sv)) (\<lambda>u. u_UID u = AdminUIDPrefix @ username);
          case admin of
            Inl _ \<Rightarrow> State_Monad.return (json_error 401 ''invalid credentials'', m)
          | Inr admin \<Rightarrow>
              if CheckPassword (sv_C sv) (u_PasswordHash admin) password \<noteq> None
              then State_Monad.return (json_error 401 ''invalid credentials'', m)
              else do {
                (token, err) \<leftarrow> Create_session (sv_W sv) (sv_C sv) (sv_sessionTTL sv) username;
                case err of
                  Some e \<Rightarrow> State_Monad.return (json_error 500 (error_text e), m)
                | None \<Rightarrow> State_Monad.return
                    ((reply 200 (JSON (AMap [(''username'', AStr username)])))
                       \<lparr>ar_Cookie := Some (token, sessionCookieMaxAge sv)\<rparr>,
                     map_option IncAdminLogins m)
              }
        })"

definition logout :: "'s admin_server \<Rightarrow> admin_request \<Rightarrow> 's handler" where
  "logout sv r m = do {
     _ \<leftarrow> (case aq_Cookie r of
        None \<Rightarrow> State_Monad.return None
      | Some token \<Rightarrow> if token = [] then State_Monad.return None else Delete_session (sv_W sv) token);
     State_Monad.return (json_ok\<lparr>ar_Cookie := Some ([], - 1)\<rparr>, m)
   }"

definition me :: "string \<Rightarrow> 's handler" where
  "me who m = State_Monad.return (reply 200 (JSON (AMap [(''username'', AStr who)])), m)"

definition requireAdmin :: "'s admin_server \<Rightarrow> admin_request \<Rightarrow> (string \<Rightarrow> 's handler) \<Rightarrow> 's handler" where
  "requireAdmin sv r handler m =
     (case aq_Cookie r of
        None \<Rightarrow> State_Monad.return (reply 401 NoBody, m)
      | Some token \<Rightarrow>
          if token = [] then State_Monad.return (reply 401 NoBody, m)
          else do {
            username \<leftarrow> Get_session (sv_W sv) token;
            case username of
              Inl _ \<Rightarrow> State_Monad.return (reply 401 NoBody, m)
            | Inr username \<Rightarrow>
                if username = [] then State_Monad.return (reply 401 NoBody, m) else handler username m
          })"

section \<open>Users\<close>

text \<open>Creating a row: GORM writes the default of a column whose value is zero.\<close>

definition user_defaults :: "User \<Rightarrow> User" where
  "user_defaults u = (if u_Enabled u then u else u\<lparr>u_Enabled := True\<rparr>)"

definition subscription_defaults :: "Subscription \<Rightarrow> Subscription" where
  "subscription_defaults b = (if s_Enabled b then b else b\<lparr>s_Enabled := True\<rparr>)"

definition managedUserByID :: "'s admin_server \<Rightarrow> string \<Rightarrow> ('s, error + User) state" where
  "managedUserByID sv i = do {
     user \<leftarrow> db_First (users_tbl (sv_W sv)) (where_text (sq_users (sv_SQL sv)) u_ID i);
     State_Monad.return (case user of
         Inl err \<Rightarrow> Inl err
       | Inr user \<Rightarrow> if HasPrefix (u_UID user) AdminUIDPrefix then Inl ErrRecordNotFound else Inr user)
   }"

definition listUsers :: "'s admin_server \<Rightarrow> 's handler" where
  "listUsers sv m = do {
     users \<leftarrow> db_Find (users_tbl (sv_W sv)) not_admin;
     ps \<leftarrow> userPayloads sv (rev (sort_key u_ID (rows_or_empty users)));
     State_Monad.return (items ps, m)
   }"

definition create_user_error :: "'s admin_server \<Rightarrow> create_user_request \<Rightarrow> string option" where
  "create_user_error sv req =
     (if cu_UID req = [] \<or> cu_Password req = [] \<or> rune_count (cu_Password req) < 6 then Some (bind_invalid (sv_B sv))
      else if HasPrefix (cu_UID req) AdminUIDPrefix then Some ''uid uses reserved admin prefix''
      else if TrimSpace (cu_UID req) = [] then Some ''uid is required''
      else if cu_QuotaBytes req < 0 then Some ''quota_bytes must be >= 0''
      else if cu_MaxConcurrency req < 0 then Some ''max_concurrency must be >= 0''
      else None)"

definition insert_user ::
  "'s admin_server \<Rightarrow> string \<Rightarrow> create_user_request \<Rightarrow> string \<Rightarrow> 's handler" where
  "insert_user sv who req hash m = do {
     let enabled = (case cu_Enabled req of None \<Rightarrow> True | Some e \<Rightarrow> e);
     let user = zero_user\<lparr>u_UID := TrimSpace (cu_UID req), u_PasswordHash := hash, u_Enabled := enabled,
       u_QuotaBytes := cu_QuotaBytes req, u_MaxConcurrency := cu_MaxConcurrency req,
       u_ExpiredAt := cu_ExpiredAt req, u_Remark := cu_Remark req\<rparr>;
     created \<leftarrow> db_Create (users_tbl (sv_W sv)) (user_defaults user);
     case created of
       Inl err \<Rightarrow> State_Monad.return (json_error 400 (error_text err), m)
     | Inr user \<Rightarrow> do {
         _ \<leftarrow> audit sv who ''create_user'' ''user'' (show_nat (u_ID user)) (u_UID user);
         State_Monad.return (reply 200 (JSON (user_json sv user)), m)
       }
   }"

definition createUser :: "'s admin_server \<Rightarrow> admin_request \<Rightarrow> string \<Rightarrow> 's handler" where
  "createUser sv r who m =
     (case bind_create_user (sv_B sv) (aq_Body r) of
        Inl err \<Rightarrow> State_Monad.return (json_error 400 (error_text err), m)
      | Inr req \<Rightarrow>
          (case create_user_error sv req of
             Some text \<Rightarrow> State_Monad.return (json_error 400 text, m)
           | None \<Rightarrow> do {
               hash \<leftarrow> HashPassword (sv_C sv) (cu_Password req);
               case hash of
                 Inl err \<Rightarrow> State_Monad.return (json_error 500 (error_text err), m)
               | Inr hash \<Rightarrow> insert_user sv who req hash m
             }))"

definition getUser :: "'s admin_server \<Rightarrow> string \<Rightarrow> 's handler" where
  "getUser sv i m = do {
     user \<leftarrow> managedUserByID sv i;
     case user of
       Inl err \<Rightarrow> State_Monad.return (json_error 404 (error_text err), m)
     | Inr user \<Rightarrow> do { p \<leftarrow> userPayload sv user; State_Monad.return (reply 200 (JSON p), m) }
   }"

text \<open>The map of an update, checked and trimmed; the left side is the message of the refusal.\<close>

definition update_user_map :: "item \<Rightarrow> string + item" where
  "update_user_map req =
     (let uid = (case item_get req ''uid'' of AStr uid \<Rightarrow> Some uid | _ \<Rightarrow> None)
      in if (case uid of Some uid \<Rightarrow> HasPrefix uid AdminUIDPrefix | None \<Rightarrow> False)
         then Inl ''uid uses reserved admin prefix''
         else if (case uid of Some uid \<Rightarrow> TrimSpace uid = [] | None \<Rightarrow> False) then Inl ''uid is required''
         else
           let req = (case uid of Some uid \<Rightarrow> item_set ''uid'' (AStr (TrimSpace uid)) req | None \<Rightarrow> req)
           in if (case readInt64 (item_get req ''quota_bytes'') of Some i \<Rightarrow> i < 0 | None \<Rightarrow> False)
              then Inl ''quota_bytes must be >= 0''
              else if (case readInt64 (item_get req ''max_concurrency'') of Some i \<Rightarrow> i < 0 | None \<Rightarrow> False)
              then Inl ''max_concurrency must be >= 0''
              else Inr req)"

text \<open>A password is replaced by its hash; an error of the hash leaves the hash empty.\<close>

definition update_user_password :: "'s crypto \<Rightarrow> item \<Rightarrow> ('s, string + item) state" where
  "update_user_password C req =
     (case stringValue (item_get req ''password'') of
        [] \<Rightarrow> State_Monad.return (Inr req)
      | password \<Rightarrow>
          if length password < 6 then State_Monad.return (Inl ''password must be at least 6 characters'')
          else do {
            hash \<leftarrow> HashPassword C password;
            State_Monad.return (Inr (item_delete ''password'' (item_set ''password_hash'' (AStr (or_empty hash)) req)))
          })"

definition updateUser :: "'s admin_server \<Rightarrow> admin_request \<Rightarrow> string \<Rightarrow> string \<Rightarrow> 's handler" where
  "updateUser sv r who i m = do {
     user \<leftarrow> managedUserByID sv i;
     case user of
       Inl err \<Rightarrow> State_Monad.return (json_error 404 (error_text err), m)
     | Inr user \<Rightarrow>
         (case bind_map (sv_B sv) (aq_Body r) of
            Inl err \<Rightarrow> State_Monad.return (json_error 400 (error_text err), m)
          | Inr req \<Rightarrow>
              (case update_user_map req of
                 Inl text \<Rightarrow> State_Monad.return (json_error 400 text, m)
               | Inr req \<Rightarrow> do {
                   req \<leftarrow> update_user_password (sv_C sv) req;
                   case req of
                     Inl text \<Rightarrow> State_Monad.return (json_error 400 text, m)
                   | Inr req \<Rightarrow> do {
                       err \<leftarrow> db_Updates (users_tbl (sv_W sv)) (\<lambda>u. u_ID u = u_ID user) (sq_assign_user (sv_SQL sv) req);
                       case err of
                         Some e \<Rightarrow> State_Monad.return (json_error 400 (error_text e), m)
                       | None \<Rightarrow> do {
                           _ \<leftarrow> audit sv who ''update_user'' ''user'' i (u_UID (sq_assign_user (sv_SQL sv) req user));
                           State_Monad.return (json_ok, m)
                         }
                     }
                 }))
   }"

definition deleteUser :: "'s admin_server \<Rightarrow> string \<Rightarrow> string \<Rightarrow> 's handler" where
  "deleteUser sv who i m = do {
     user \<leftarrow> managedUserByID sv i;
     case user of
       Inl err \<Rightarrow> State_Monad.return (json_error 404 (error_text err), m)
     | Inr user \<Rightarrow> do {
         err \<leftarrow> db_Delete (users_tbl (sv_W sv)) (\<lambda>u. u_ID u = u_ID user);
         case err of
           Some e \<Rightarrow> State_Monad.return (json_error 400 (error_text e), m)
         | None \<Rightarrow> do {
             _ \<leftarrow> (if sv_has_quota sv then CleanupUserRuntime (sv_W sv) (u_UID user) else State_Monad.return None);
             _ \<leftarrow> audit sv who ''delete_user'' ''user'' i [];
             State_Monad.return (json_ok, m)
           }
       }
   }"

section \<open>Subscriptions\<close>

text \<open>The last synchronisation of a subscription in the audit log: its status and its detail.\<close>

definition last_sync :: "'s admin_server \<Rightarrow> nat \<Rightarrow> ('s, string \<times> string) state" where
  "last_sync sv subID = do {
     found \<leftarrow> db_Find (audit_tbl (sv_W sv)) (\<lambda>a. a_TargetType a = ''subscription'' \<and> a_TargetID a = show_nat subID \<and>
       a_Action a \<in> {''sync_subscription'', ''sync_subscription_error''});
     State_Monad.return (case rev (sort_key a_ID (rows_or_empty found)) of
         [] \<Rightarrow> ([], [])
       | a # _ \<Rightarrow> (if a_Action a = ''sync_subscription_error'' then ''error'' else ''ok'', a_Detail a))
   }"

primrec subscription_rows ::
  "'s admin_server \<Rightarrow> SubscriptionNode list \<Rightarrow> Subscription list \<Rightarrow> ('s, any list) state" where
  "subscription_rows sv links [] = State_Monad.return []"
| "subscription_rows sv links (b # bs) = do {
     (status, detail) \<leftarrow> last_sync sv (s_ID b);
     rows \<leftarrow> subscription_rows sv links bs;
     State_Monad.return (AMap (subscription_fields sv b @
       [(''node_count'', AInt64 (int (length (filter (\<lambda>l. l_SubscriptionID l = s_ID b) links)))),
        (''last_sync_status'', AStr status), (''last_sync_detail'', AStr detail)]) # rows)
   }"

text \<open>The join of the subscriptions with their links is read as two queries.\<close>

definition listSubscriptions :: "'s admin_server \<Rightarrow> 's handler" where
  "listSubscriptions sv m = do {
     subs \<leftarrow> db_Find (subs_tbl (sv_W sv)) (\<lambda>_. True);
     links \<leftarrow> db_Find (links_tbl (sv_W sv)) (\<lambda>_. True);
     let found = (case links of Inl e \<Rightarrow> Inl e | Inr _ \<Rightarrow> subs);
     rows \<leftarrow> subscription_rows sv (rows_or_empty links) (rev (sort_key s_ID (rows_or_empty found)));
     State_Monad.return (found_items (\<lambda>_. rows) found, m)
   }"

definition create_subscription_error :: "'s admin_server \<Rightarrow> create_subscription_request \<Rightarrow> string \<Rightarrow> string option" where
  "create_subscription_error sv req t =
     (if cs_Name req = [] \<or> cs_URL req = [] then Some (bind_invalid (sv_B sv))
      else if \<not> isSupportedSubscriptionType t then Some ''unsupported subscription type''
      else if TrimSpace (cs_Name req) = [] then Some ''name is required''
      else if TrimSpace (cs_URL req) = [] then Some ''url is required''
      else if cs_SyncIntervalSeconds req < 0 then Some ''sync_interval_seconds must be >= 0''
      else None)"

definition createSubscription :: "'s admin_server \<Rightarrow> admin_request \<Rightarrow> string \<Rightarrow> 's handler" where
  "createSubscription sv r who m =
     (case bind_create_subscription (sv_B sv) (aq_Body r) of
        Inl err \<Rightarrow> State_Monad.return (json_error 400 (error_text err), m)
      | Inr req \<Rightarrow>
          (let t = (if cs_Type req = [] then ''singbox'' else cs_Type req)
           in case create_subscription_error sv req t of
                Some text \<Rightarrow> State_Monad.return (json_error 400 text, m)
              | None \<Rightarrow> do {
                  let enabled = (case cs_Enabled req of None \<Rightarrow> True | Some e \<Rightarrow> e);
                  created \<leftarrow> db_Create (subs_tbl (sv_W sv)) (subscription_defaults
                    \<lparr>s_ID = 0, s_Name = TrimSpace (cs_Name req), s_Type = ToLower (TrimSpace t),
                     s_URL = TrimSpace (cs_URL req), s_Enabled = enabled,
                     s_SyncIntervalSeconds = cs_SyncIntervalSeconds req, s_LastSyncAt = None,
                     s_Remark = cs_Remark req\<rparr>);
                  case created of
                    Inl err \<Rightarrow> State_Monad.return (json_error 400 (error_text err), m)
                  | Inr b \<Rightarrow> do {
                      _ \<leftarrow> audit sv who ''create_subscription'' ''subscription'' (show_nat (s_ID b)) (s_Name b);
                      State_Monad.return (reply 200 (JSON (AMap (subscription_fields sv b))), m)
                    }
                }))"

text \<open>A text field of an update, trimmed and not empty.\<close>

definition trim_field :: "string \<Rightarrow> item \<Rightarrow> string + item" where
  "trim_field k req =
     (case item_get req k of
        AStr v \<Rightarrow> if TrimSpace v = [] then Inl (k @ '' is required'') else Inr (item_set k (AStr (TrimSpace v)) req)
      | _ \<Rightarrow> Inr req)"

definition update_subscription_map :: "item \<Rightarrow> string + item" where
  "update_subscription_map req =
     (let typed = (case map_of req ''type'' of
            None \<Rightarrow> Inr req
          | Some t \<Rightarrow> if isSupportedSubscriptionType (stringValue t)
              then Inr (item_set ''type'' (AStr (ToLower (TrimSpace (stringValue t)))) req)
              else Inl ''unsupported subscription type'')
      in case typed of Inl text \<Rightarrow> Inl text | Inr req \<Rightarrow>
         (case trim_field ''name'' req of Inl text \<Rightarrow> Inl text | Inr req \<Rightarrow>
          (case trim_field ''url'' req of Inl text \<Rightarrow> Inl text | Inr req \<Rightarrow>
             if (case readInt64 (item_get req ''sync_interval_seconds'') of Some i \<Rightarrow> i < 0 | None \<Rightarrow> False)
             then Inl ''sync_interval_seconds must be >= 0''
             else Inr req)))"

definition updateSubscription :: "'s admin_server \<Rightarrow> admin_request \<Rightarrow> string \<Rightarrow> string \<Rightarrow> 's handler" where
  "updateSubscription sv r who i m =
     (case bind_map (sv_B sv) (aq_Body r) of
        Inl err \<Rightarrow> State_Monad.return (json_error 400 (error_text err), m)
      | Inr req \<Rightarrow>
          (case update_subscription_map req of
             Inl text \<Rightarrow> State_Monad.return (json_error 400 text, m)
           | Inr req \<Rightarrow> do {
               err \<leftarrow> db_Updates (subs_tbl (sv_W sv)) (\<lambda>b. sq_id (sv_SQL sv) i (s_ID b)) (sq_assign_sub (sv_SQL sv) req);
               case err of
                 Some e \<Rightarrow> State_Monad.return (json_error 400 (error_text e), m)
               | None \<Rightarrow> do {
                   _ \<leftarrow> audit sv who ''update_subscription'' ''subscription'' i [];
                   State_Monad.return (json_ok, m)
                 }
             }))"

definition deleteSubscription :: "'s admin_server \<Rightarrow> string \<Rightarrow> string \<Rightarrow> 's handler" where
  "deleteSubscription sv who i m = do {
     err \<leftarrow> Delete_subscription (sv_subscription sv) (path_uint i);
     case err of
       Some e \<Rightarrow> State_Monad.return (json_error 400 (error_text e), m)
     | None \<Rightarrow> do {
         _ \<leftarrow> audit sv who ''delete_subscription'' ''subscription'' i [];
         State_Monad.return (json_ok, m)
       }
   }"

text \<open>The reply to an import: the nodes are checked in the background.\<close>

definition import_reply :: "'s admin_server \<Rightarrow> SyncResult \<Rightarrow> admin_reply" where
  "import_reply sv result =
     (reply 200 (JSON (AMap [(''ok'', ABool True), (''imported_count'', AInt (int (sr_ImportedCount result))),
        (''healthcheck_started'', ABool (sr_ImportedNodeIDs result \<noteq> []))])))
       \<lparr>ar_Started := (if sv_healthcheck sv \<noteq> None then sr_ImportedNodeIDs result else [])\<rparr>"

definition syncSubscription :: "'s admin_server \<Rightarrow> string \<Rightarrow> string \<Rightarrow> 's handler" where
  "syncSubscription sv who i m = do {
     ((result, err), m) \<leftarrow> Sync (sv_subscription sv) (path_uint i) m;
     case err of
       Some e \<Rightarrow> do {
         _ \<leftarrow> audit sv who ''sync_subscription_error'' ''subscription'' i (error_text e);
         State_Monad.return (json_error 502 (error_text e), m)
       }
     | None \<Rightarrow> do {
         _ \<leftarrow> audit sv who ''sync_subscription'' ''subscription'' i [];
         State_Monad.return (import_reply sv result, m)
       }
   }"

section \<open>Nodes\<close>

definition node_listed :: "(string \<Rightarrow> string) \<Rightarrow> ProxyNode \<Rightarrow> bool" where
  "node_listed query n \<longleftrightarrow>
     (query ''region'' = [] \<or> n_DetectedRegion n = query ''region'' \<or> n_ExpectedRegion n = query ''region'') \<and>
     (query ''city'' = [] \<or> n_City n = query ''city'') \<and>
     (query ''asn'' = [] \<or> n_ASN n = query ''asn'') \<and>
     (query ''isp'' = [] \<or> n_ISP n = query ''isp'' \<or> n_Org n = query ''isp'') \<and>
     (query ''keyword'' = [] \<or> contains_like (query ''keyword'') (n_Host n) \<or>
        contains_like (query ''keyword'') (n_Tag n) \<or> contains_like (query ''keyword'') (n_ExitIP n))"

definition listNodes :: "'s admin_server \<Rightarrow> admin_request \<Rightarrow> 's handler" where
  "listNodes sv r m = do {
     found \<leftarrow> db_Find (nodes_tbl (sv_W sv)) (node_listed (aq_Query r));
     State_Monad.return (items (map (nodePayload sv) (rev (sort_key n_ID (rows_or_empty found)))), m)
   }"

definition importNodes :: "'s admin_server \<Rightarrow> admin_request \<Rightarrow> string \<Rightarrow> 's handler" where
  "importNodes sv r who m =
     (case bind_import (sv_B sv) (aq_Body r) of
        Inl err \<Rightarrow> State_Monad.return (json_error 400 (error_text err), m)
      | Inr (_, None) \<Rightarrow> State_Monad.return (json_error 400 (bind_invalid (sv_B sv)), m)
      | Inr (_, Some []) \<Rightarrow> State_Monad.return (json_error 400 ''nodes are required'', m)
      | Inr (reqProtocol, Some nodes) \<Rightarrow> do {
          let trimmed = ToLower (TrimSpace reqProtocol);
          let protocol = (if trimmed = [] then ''http'' else trimmed);
          let nodes = map (\<lambda>n. if TrimSpace (mi_Protocol n) = [] then n\<lparr>mi_Protocol := protocol\<rparr> else n) nodes;
          (result, err) \<leftarrow> ImportManualNodes (sv_subscription sv) nodes;
          case err of
            Some e \<Rightarrow> State_Monad.return (json_error 400 (error_text e), m)
          | None \<Rightarrow> do {
              _ \<leftarrow> audit sv who ''import_nodes'' ''node'' [] (show_nat (sr_ImportedCount result));
              State_Monad.return (import_reply sv result, m)
            }
        })"

definition node_by_text :: "'s admin_server \<Rightarrow> string \<Rightarrow> ('s, error + ProxyNode) state" where
  "node_by_text sv i = db_First (nodes_tbl (sv_W sv)) (where_text (sq_nodes (sv_SQL sv)) n_ID i)"

definition getNode :: "'s admin_server \<Rightarrow> string \<Rightarrow> 's handler" where
  "getNode sv i m = do {
     node \<leftarrow> node_by_text sv i;
     State_Monad.return (case node of
         Inl err \<Rightarrow> json_error 404 (error_text err)
       | Inr node \<Rightarrow> reply 200 (JSON (nodePayload sv node)), m)
   }"

definition checkNode :: "'s admin_server \<Rightarrow> 's health_service \<Rightarrow> string \<Rightarrow> string \<Rightarrow> 's handler" where
  "checkNode sv h who i m = do {
     (err, m) \<leftarrow> CheckOne h (path_uint i) m;
     case err of
       Some e \<Rightarrow> do {
         _ \<leftarrow> audit sv who ''check_node_error'' ''node'' i (error_text e);
         State_Monad.return (json_error 502 (error_text e), m)
       }
     | None \<Rightarrow> do {
         _ \<leftarrow> audit sv who ''check_node'' ''node'' i [];
         State_Monad.return (json_ok, m)
       }
   }"

text \<open>Without a health service the handler panics, which the recovery of gin answers.\<close>

definition check_route :: "'s admin_server \<Rightarrow> string \<Rightarrow> string \<Rightarrow> 's handler" where
  "check_route sv who i m =
     (case sv_healthcheck sv of
        None \<Rightarrow> State_Monad.return (reply 500 NoBody, m)
      | Some h \<Rightarrow> checkNode sv h who i m)"

definition toggleNodeDisabled :: "'s admin_server \<Rightarrow> admin_request \<Rightarrow> string \<Rightarrow> string \<Rightarrow> 's handler" where
  "toggleNodeDisabled sv r who i m = do {
     node \<leftarrow> node_by_text sv i;
     case node of
       Inl err \<Rightarrow> State_Monad.return (json_error 404 (error_text err), m)
     | Inr node \<Rightarrow> do {
         let node = node\<lparr>n_Disabled := bind_disabled (sv_B sv) (aq_Body r)\<rparr>;
         err \<leftarrow> db_Save (nodes_tbl (sv_W sv)) node;
         case err of
           Some e \<Rightarrow> State_Monad.return (json_error 400 (error_text e), m)
         | None \<Rightarrow> do {
             _ \<leftarrow> CacheNode (ss_W (sv_subscription sv)) (ss_J (sv_subscription sv)) node;
             _ \<leftarrow> audit sv who ''toggle_node_disabled'' ''node'' i [];
             State_Monad.return (json_ok, m)
           }
       }
   }"

definition deleteNode :: "'s admin_server \<Rightarrow> string \<Rightarrow> string \<Rightarrow> 's handler" where
  "deleteNode sv who i m = do {
     node \<leftarrow> node_by_text sv i;
     case node of
       Inl err \<Rightarrow> State_Monad.return (json_error 404 (error_text err), m)
     | Inr node \<Rightarrow> do {
         _ \<leftarrow> db_Delete (links_tbl (sv_W sv)) (\<lambda>l. l_NodeID l = n_ID node);
         err \<leftarrow> db_Delete (nodes_tbl (sv_W sv)) (\<lambda>n. n_ID n = n_ID node);
         case err of
           Some e \<Rightarrow> State_Monad.return (json_error 400 (error_text e), m)
         | None \<Rightarrow> do {
             _ \<leftarrow> RemoveNode (ss_W (sv_subscription sv)) node;
             _ \<leftarrow> audit sv who ''delete_node'' ''node'' i [];
             State_Monad.return (json_ok, m)
           }
       }
   }"

section \<open>Statistics, logs, settings\<close>

definition statsOverview :: "'s admin_server \<Rightarrow> 's handler" where
  "statsOverview sv m = do { data \<leftarrow> OverviewOf (sv_W sv); State_Monad.return (reply 200 (JSONOverview data), m) }"

definition userStats :: "'s admin_server \<Rightarrow> 's handler" where
  "userStats sv m = do {
     users \<leftarrow> db_Find (users_tbl (sv_W sv)) not_admin;
     State_Monad.return
       (found_items (\<lambda>rows. map (user_json sv) (take 100 (sort_key (\<lambda>u. - u_UsedBytes u) rows))) users, m)
   }"

definition nodeStats :: "'s admin_server \<Rightarrow> 's handler" where
  "nodeStats sv m = do {
     nodes \<leftarrow> db_Find (nodes_tbl (sv_W sv)) (\<lambda>_. True);
     State_Monad.return (items (map (nodePayload sv)
       (take 100 (sort_key (\<lambda>n. - (n_UploadBytes n + n_DownloadBytes n)) (rows_or_empty nodes)))), m)
   }"

definition trafficStats :: "'s admin_server \<Rightarrow> 's handler" where
  "trafficStats sv m = do {
     data \<leftarrow> TrafficSummaryOf (sv_W sv) (sv_zone sv);
     State_Monad.return (reply 200 (JSONTraffic data), m)
   }"

definition audit_listed :: "(string \<Rightarrow> string) \<Rightarrow> AuditLog \<Rightarrow> bool" where
  "audit_listed query a \<longleftrightarrow>
     (let operator = TrimSpace (query ''operator''); action = TrimSpace (query ''action'');
          keyword = TrimSpace (query ''keyword'')
      in (operator = [] \<or> a_Operator a = operator) \<and> (action = [] \<or> a_Action a = action) \<and>
         (keyword = [] \<or> contains_like keyword (a_TargetType a) \<or> contains_like keyword (a_TargetID a) \<or>
            contains_like keyword (a_Detail a)))"

definition listAuditLogs :: "'s admin_server \<Rightarrow> admin_request \<Rightarrow> 's handler" where
  "listAuditLogs sv r m = do {
     found \<leftarrow> db_Find (audit_tbl (sv_W sv)) (audit_listed (aq_Query r));
     State_Monad.return (found_items (\<lambda>rows. map audit_json (take 200 (rev (sort_key a_ID rows)))) found, m)
   }"

definition settings :: "'s admin_server \<Rightarrow> 's handler" where
  "settings sv m =
     (let c = sv_cfg sv
      in State_Monad.return (reply 200 (JSON (AMap [
       (''server'', AMap [
          (''proxy_listen'', AStr (cfg_ProxyListen c)), (''admin_listen'', AStr (cfg_AdminListen c)),
          (''proxy_dial_timeout_seconds'', AInt (cfg_ProxyDialTimeoutSec c)),
          (''proxy_idle_timeout_seconds'', AInt (cfg_ProxyIdleTimeoutSec c)),
          (''proxy_response_header_timeout_seconds'', AInt (cfg_ProxyRespTimeoutSec c)),
          (''proxy_connect_timeout_seconds'', AInt (cfg_ProxyConnectTimeoutS c))]),
       (''sqlite'', AMap [(''path'', AStr (cfg_SQLitePath c))]),
       (''redis'', AMap [(''addr'', AStr (cfg_RedisAddr c)), (''db'', AInt (cfg_RedisDB c))]),
       (''healthcheck'', AMap [
          (''interval_seconds'', AInt (cfg_IntervalSeconds c)), (''timeout_seconds'', AInt (cfg_TimeoutSeconds c)),
          (''max_fail_count'', AInt (cfg_MaxFailCount c))]),
       (''retry'', AMap [
          (''max_attempts'', AInt (cfg_RetryMaxAttempts c)), (''base_backoff_ms'', AInt (cfg_BaseBackoffMS c))]),
       (''sticky'', AMap [(''ttl_seconds'', AInt (cfg_StickyTTLSeconds c))])])), m))"

text \<open>The handle of the database and its ping are one question, \<open>sv_Ping\<close>.\<close>

definition healthz :: "'s admin_server \<Rightarrow> 's handler" where
  "healthz sv m = do {
     err \<leftarrow> sv_Ping sv;
     State_Monad.return (case err of
         Some e \<Rightarrow> reply 503 (JSON (AMap [(''ok'', ABool False), (''error'', AStr (error_text e))]))
       | None \<Rightarrow> json_ok, m)
   }"

section \<open>Routes\<close>

datatype access = Open_route | Admin_route

type_synonym 's endpoint = "admin_request \<Rightarrow> string \<Rightarrow> string \<Rightarrow> 's handler"

definition not_found :: admin_reply where
  "not_found = reply 404 (PlainText ''404 page not found'')"

definition metrics_text :: "'s handler" where
  "metrics_text m = State_Monad.return
     (case m of None \<Rightarrow> not_found | Some reg \<Rightarrow> reply 200 (PlainText (Metrics.Handler reg)), m)"

text \<open>Method, path, who may call it, and the handler with the request, the administrator and the id.\<close>

definition routes :: "'s admin_server \<Rightarrow> (string \<times> string list \<times> access \<times> 's endpoint) list" where
  "routes sv = [
     (''GET'', [''healthz''], Open_route, \<lambda>r who i. healthz sv),
     (''GET'', [''metrics''], Open_route, \<lambda>r who i. metrics_text),
     (''POST'', [''api'', ''admin'', ''login''], Open_route, \<lambda>r who i. login sv r),
     (''POST'', [''api'', ''admin'', ''logout''], Open_route, \<lambda>r who i. logout sv r),
     (''GET'', [''api'', ''admin'', ''me''], Admin_route, \<lambda>r who i. me who),
     (''GET'', [''api'', ''users''], Admin_route, \<lambda>r who i. listUsers sv),
     (''POST'', [''api'', ''users''], Admin_route, \<lambda>r who i. createUser sv r who),
     (''GET'', [''api'', ''users'', '':id''], Admin_route, \<lambda>r who i. getUser sv i),
     (''PUT'', [''api'', ''users'', '':id''], Admin_route, \<lambda>r who i. updateUser sv r who i),
     (''DELETE'', [''api'', ''users'', '':id''], Admin_route, \<lambda>r who i. deleteUser sv who i),
     (''GET'', [''api'', ''subscriptions''], Admin_route, \<lambda>r who i. listSubscriptions sv),
     (''POST'', [''api'', ''subscriptions''], Admin_route, \<lambda>r who i. createSubscription sv r who),
     (''PUT'', [''api'', ''subscriptions'', '':id''], Admin_route, \<lambda>r who i. updateSubscription sv r who i),
     (''DELETE'', [''api'', ''subscriptions'', '':id''], Admin_route, \<lambda>r who i. deleteSubscription sv who i),
     (''POST'', [''api'', ''subscriptions'', '':id'', ''sync''], Admin_route, \<lambda>r who i. syncSubscription sv who i),
     (''GET'', [''api'', ''nodes''], Admin_route, \<lambda>r who i. listNodes sv r),
     (''POST'', [''api'', ''nodes'', ''import''], Admin_route, \<lambda>r who i. importNodes sv r who),
     (''GET'', [''api'', ''nodes'', '':id''], Admin_route, \<lambda>r who i. getNode sv i),
     (''POST'', [''api'', ''nodes'', '':id'', ''check''], Admin_route, \<lambda>r who i. check_route sv who i),
     (''PUT'', [''api'', ''nodes'', '':id'', ''disable''], Admin_route, \<lambda>r who i. toggleNodeDisabled sv r who i),
     (''DELETE'', [''api'', ''nodes'', '':id''], Admin_route, \<lambda>r who i. deleteNode sv who i),
     (''GET'', [''api'', ''stats'', ''overview''], Admin_route, \<lambda>r who i. statsOverview sv),
     (''GET'', [''api'', ''stats'', ''users''], Admin_route, \<lambda>r who i. userStats sv),
     (''GET'', [''api'', ''stats'', ''nodes''], Admin_route, \<lambda>r who i. nodeStats sv),
     (''GET'', [''api'', ''stats'', ''traffic''], Admin_route, \<lambda>r who i. trafficStats sv),
     (''GET'', [''api'', ''audit-logs''], Admin_route, \<lambda>r who i. listAuditLogs sv r),
     (''GET'', [''api'', ''settings''], Admin_route, \<lambda>r who i. settings sv)]"

text \<open>A path against a pattern: the value of \<^verbatim>\<open>:id\<close>, empty where there is none.\<close>

fun match_path :: "string list \<Rightarrow> string list \<Rightarrow> string option" where
  "match_path [] [] = Some []"
| "match_path (p # ps) (x # xs) =
     (if p = '':id'' then (if x = [] then None else map_option (\<lambda>_. x) (match_path ps xs))
      else if p = x then match_path ps xs
      else None)"
| "match_path _ _ = None"

fun find_route ::
  "(string \<times> string list \<times> access \<times> 's endpoint) list \<Rightarrow> string \<Rightarrow> string list \<Rightarrow> (access \<times> 's endpoint \<times> string) option" where
  "find_route [] method path = None"
| "find_route ((method', pattern, access, h) # rs) method path =
     (if method = method' then
        (case match_path pattern path of Some i \<Rightarrow> Some (access, h, i) | None \<Rightarrow> find_route rs method path)
      else find_route rs method path)"

definition Handler_admin :: "'s admin_server \<Rightarrow> admin_request \<Rightarrow> 's handler" where
  "Handler_admin sv r m =
     (if aq_Method r = ''OPTIONS'' then State_Monad.return (reply 204 NoBody, m)
      else case find_route (routes sv) (aq_Method r) (aq_Path r) of
        None \<Rightarrow> State_Monad.return (not_found, m)
      | Some (Open_route, h, i) \<Rightarrow> h r [] i m
      | Some (Admin_route, h, i) \<Rightarrow> requireAdmin sv r (\<lambda>who. h r who i) m)"

end
