(* ===== verification/AdminProps.thy ===== *)
theory AdminProps
  imports AdminApi SubPersistProps
begin

text \<open>
  What the administrators' interface promises: no handler behind the guard runs without a session,
  a login gives a session exactly for the right password, and what creating and deleting users
  does to their table.
\<close>

section \<open>The guard\<close>

definition no_session :: "keyspace \<Rightarrow> admin_request \<Rightarrow> bool" where
  "no_session keys r \<longleftrightarrow>
     (case aq_Cookie r of
        None \<Rightarrow> True
      | Some token \<Rightarrow> token = [] \<or> (case get_answer keys (session_key token) of Inl _ \<Rightarrow> True | Inr u \<Rightarrow> u = []))"

lemma wp_requireAdmin_no_session:
  assumes "reliable (sv_W sv) view" and "no_session (st_keys (view s)) r"
    and "\<And>s'. view s' = view s \<Longrightarrow> Q (reply 401 NoBody, m) s'"
  shows "wp (requireAdmin sv r h m) Q s"
proof (cases "aq_Cookie r")
  case None
  then show ?thesis using assms(3) by (simp add: requireAdmin_def)
next
  case (Some token)
  show ?thesis
  proof (cases "token = []")
    case True
    then show ?thesis using Some assms(3) by (simp add: requireAdmin_def)
  next
    case False
    then show ?thesis
      unfolding requireAdmin_def Some option.case if_not_P [OF False] wp_bind Get_session_def
      by (intro reliable.wp_redis_Get [OF assms(1)])
        (use assms(2,3) Some in \<open>auto simp: no_session_def split: sum.splits\<close>)
  qed
qed

lemma find_route_in:
  "find_route rs verb path = Some (access, h, i) \<Longrightarrow>
   \<exists>pattern. (verb, pattern, access, h) \<in> set rs \<and> match_path pattern path = Some i"
  by (induction rs verb path rule: find_route.induct) (auto split: if_splits option.splits)

lemma match_path_literal: "match_path pattern path = Some i \<Longrightarrow> '':id'' \<notin> set pattern \<Longrightarrow> path = pattern"
  by (induction pattern path arbitrary: i rule: match_path.induct) (auto split: if_splits)

lemma open_routes:
  assumes "find_route (routes sv) verb path = Some (Open_route, h, i)"
  shows "path \<in> {[''healthz''], [''metrics''], [''api'', ''admin'', ''login''], [''api'', ''admin'', ''logout'']}"
proof -
  obtain pattern where "(verb, pattern, Open_route, h) \<in> set (routes sv)" and m: "match_path pattern path = Some i"
    using find_route_in [OF assms] by blast
  then have "pattern \<in> {[''healthz''], [''metrics''], [''api'', ''admin'', ''login''], [''api'', ''admin'', ''logout'']}"
    unfolding routes_def by auto
  then show ?thesis using match_path_literal [OF m] by auto
qed

text \<open>
  C16: Without a session nothing under \<^verbatim>\<open>/api\<close> but login and logout is served: whatever the method,
  the path and the body, the answer is 401 or, to OPTIONS, 204, both without a body, or the 404 of a
  path without a route, and the database, the cache and the counters are as before.
\<close>

theorem Handler_requires_session:
  assumes "reliable (sv_W sv) view" and "no_session (st_keys (view s)) r" and "aq_Path r = ''api'' # path"
    and "path \<notin> {[''admin'', ''login''], [''admin'', ''logout'']}"
  shows "wp (Handler_admin sv r m) (\<lambda>(rep, m') s'.
    rep \<in> {reply 204 NoBody, reply 401 NoBody, not_found} \<and> view s' = view s \<and> m' = m) s"
proof -
  let ?Q = "\<lambda>(rep, m') s'. rep \<in> {reply 204 NoBody, reply 401 NoBody, not_found} \<and> view s' = view s \<and> m' = m"
  have refused: "?Q (reply 401 NoBody, m) s'" if "view s' = view s" for s'
    using that by (simp add: reply_def)
  show ?thesis
  proof (cases "find_route (routes sv) (aq_Method r) (aq_Path r)")
    case None
    then show ?thesis by (simp add: Handler_admin_def reply_def)
  next
    case (Some found)
    obtain access h i where found: "found = (access, h, i)" by (cases found)
    have "access = Admin_route"
      using open_routes [of sv "aq_Method r" "aq_Path r"] Some found assms(3,4) by (cases access) auto
    then show ?thesis
      using Some found wp_requireAdmin_no_session [OF assms(1,2), where Q = ?Q] refused
      by (simp add: Handler_admin_def reply_def)
  qed
qed

section \<open>Logging in\<close>

lemma wp_login_admin:
  assumes "reliable (sv_W sv) view" and "crypto_law (sv_C sv) view"
    and "bind_login (sv_B sv) (aq_Body r) = Inr (username, password)"
    and "find (\<lambda>u. u_UID u = AdminUIDPrefix @ username) (st_users (view s)) = Some admin"
    and "CheckPassword (sv_C sv) (u_PasswordHash admin) password = None"
    and ok: "\<And>token s'. view s' = (view s)\<lparr>st_keys := (st_keys (view s))
        (session_key token \<mapsto> VStr username (sv_sessionTTL sv))\<rparr> \<Longrightarrow>
      Q ((reply 200 (JSON (AMap [(''username'', AStr username)])))\<lparr>ar_Cookie := Some (token, sessionCookieMaxAge sv)\<rparr>,
         map_option IncAdminLogins m) s'"
  shows "wp (login sv r m) Q s"
  unfolding login_def assms(3) sum.case prod.case wp_bind
proof (rule reliable.wp_First_users [OF assms(1)])
  fix s1 assume v1: "view s1 = view s"
  have "wp (Create_session (sv_W sv) (sv_C sv) (sv_sessionTTL sv) username) (\<lambda>(token, err) s'. err = None \<and>
      view s' = (view s)\<lparr>st_keys := (st_keys (view s))(session_key token \<mapsto> VStr username (sv_sessionTTL sv))\<rparr>) s1"
    unfolding Create_session_def wp_bind wp_return
    by (rule crypto_law.wp_uuid [OF assms(2)], rule reliable.wp_redis_Set [OF assms(1)]) (simp add: v1)
  then show "wp (case first_answer (\<lambda>u. u_UID u = AdminUIDPrefix @ username) (st_users (view s)) of
      Inl _ \<Rightarrow> State_Monad.return (json_error 401 ''invalid credentials'', m)
    | Inr admin \<Rightarrow>
        if CheckPassword (sv_C sv) (u_PasswordHash admin) password \<noteq> None
        then State_Monad.return (json_error 401 ''invalid credentials'', m)
        else do {
          (token, err) \<leftarrow> Create_session (sv_W sv) (sv_C sv) (sv_sessionTTL sv) username;
          case err of
            Some e \<Rightarrow> State_Monad.return (json_error 500 (error_text e), m)
          | None \<Rightarrow> State_Monad.return
              ((reply 200 (JSON (AMap [(''username'', AStr username)])))\<lparr>ar_Cookie := Some (token, sessionCookieMaxAge sv)\<rparr>,
               map_option IncAdminLogins m)
        }) Q s1"
    using assms(4,5) ok unfolding first_answer_def by (auto elim!: wp_mono)
qed

lemma wp_login_refused:
  assumes "reliable (sv_W sv) view"
    and "bind_login (sv_B sv) (aq_Body r) = Inr (username, password)"
    and "\<And>admin. find (\<lambda>u. u_UID u = AdminUIDPrefix @ username) (st_users (view s)) = Some admin \<Longrightarrow>
      CheckPassword (sv_C sv) (u_PasswordHash admin) password \<noteq> None"
    and "\<And>s'. view s' = view s \<Longrightarrow> Q (json_error 401 ''invalid credentials'', m) s'"
  shows "wp (login sv r m) Q s"
  unfolding login_def assms(2) sum.case prod.case wp_bind
  by (rule reliable.wp_First_users [OF assms(1)]) (use assms(3,4) in \<open>auto simp: first_answer_def split: option.split\<close>)

text \<open>
  C32: Logging in: with the name and the password of an administrator the answer sets a cookie whose
  token names a session of that name, stored for the lifetime of sessions, and the login is counted;
  with any other name or password the answer is 401, sets no cookie and changes nothing.
\<close>

theorem login_correct:
  assumes "reliable (sv_W sv) view" and "crypto_law (sv_C sv) view"
    and "bind_login (sv_B sv) (aq_Body r) = Inr (username, password)"
  shows "wp (login sv r m) (\<lambda>(rep, m') s'.
    if \<exists>admin. find (\<lambda>u. u_UID u = AdminUIDPrefix @ username) (st_users (view s)) = Some admin \<and>
         CheckPassword (sv_C sv) (u_PasswordHash admin) password = None
    then \<exists>token. ar_Status rep = 200 \<and> ar_Cookie rep = Some (token, sessionCookieMaxAge sv) \<and>
      view s' = (view s)\<lparr>st_keys := (st_keys (view s))(session_key token \<mapsto> VStr username (sv_sessionTTL sv))\<rparr> \<and>
      m' = map_option IncAdminLogins m
    else ar_Status rep = 401 \<and> ar_Cookie rep = None \<and> view s' = view s \<and> m' = m) s"
proof (cases "\<exists>admin. find (\<lambda>u. u_UID u = AdminUIDPrefix @ username) (st_users (view s)) = Some admin \<and>
    CheckPassword (sv_C sv) (u_PasswordHash admin) password = None")
  case True
  then obtain admin where "find (\<lambda>u. u_UID u = AdminUIDPrefix @ username) (st_users (view s)) = Some admin"
    and "CheckPassword (sv_C sv) (u_PasswordHash admin) password = None" by blast
  then show ?thesis by (rule wp_login_admin [OF assms]) (auto simp: True reply_def)
next
  case False
  then show ?thesis by (intro wp_login_refused [OF assms(1,3)]) (auto simp: json_error_def reply_def)
qed

section \<open>Users\<close>

definition is_admin :: "User \<Rightarrow> bool" where
  "is_admin u \<longleftrightarrow> HasPrefix (u_UID u) AdminUIDPrefix"

lemma audit_keeps: "backend (sv_W sv) view \<Longrightarrow> keeps (\<lambda>s. st_users (view s)) (audit sv who action tt ti d)"
  unfolding audit_def db_Create_def by (auto intro!: keeps_bind backend.other_tables_keep)

lemma CleanupUserRuntime_keeps_tables:
  "backend W view \<Longrightarrow> keeps (tables view) (CleanupUserRuntime W uid)"
  unfolding CleanupUserRuntime_def
  by (auto intro!: keeps_bind backend.redis_calls_keep_tables split: sum.splits)

definition user_created :: "store \<Rightarrow> 's crypto \<Rightarrow> create_user_request \<Rightarrow> store \<Rightarrow> bool" where
  "user_created v C req v' \<longleftrightarrow> (\<exists>u. u_UID u = TrimSpace (cu_UID req) \<and> u_Enabled u \<and>
     CheckPassword C (u_PasswordHash u) (cu_Password req) = None \<and>
     (\<forall>u'\<in>set (st_users v). u_ID u' < u_ID u) \<and> st_users v' = st_users v @ [u])"

lemma wp_insert_user:
  assumes "reliable (sv_W sv) view" and hash: "CheckPassword (sv_C sv) hash (cu_Password req) = None"
    and ok: "\<And>b s'. user_created (view s) (sv_C sv) req (view s') \<Longrightarrow> Q (reply 200 b, m) s'"
    and err: "\<And>msg s'. view s' = view s \<Longrightarrow> Q (json_error 400 msg, m) s'"
  shows "wp (insert_user sv who req hash m) Q s"
  unfolding insert_user_def Let_def wp_bind
proof (rule reliable.wp_Create_users [OF assms(1)]; simp only: sum.case wp_bind wp_return)
  show "Q (json_error 400 (error_text (ExtErr e)), m) s'" if "view s' = view s" for e s'
    using that by (rule err)
  let ?user = "user_defaults (zero_user\<lparr>u_UID := TrimSpace (cu_UID req), u_PasswordHash := hash,
       u_Enabled := case cu_Enabled req of None \<Rightarrow> True | Some e \<Rightarrow> e,
       u_QuotaBytes := cu_QuotaBytes req, u_MaxConcurrency := cu_MaxConcurrency req,
       u_ExpiredAt := cu_ExpiredAt req, u_Remark := cu_Remark req\<rparr>)"
  fix i s1
  assume i: "\<forall>y\<in>set (st_users (view s)). u_ID y < i"
    and v1: "view s1 = (view s)\<lparr>st_users := st_users (view s) @ [?user\<lparr>u_ID := i\<rparr>]\<rparr>"
  have created: "user_created (view s) (sv_C sv) req (view s')" if "st_users (view s') = st_users (view s1)" for s'
    unfolding user_created_def
    by (rule exI [of _ "?user\<lparr>u_ID := i\<rparr>"]) (use that i v1 hash in \<open>simp add: user_defaults_def\<close>)
  show "wp (audit sv who ''create_user'' ''user'' (show_nat (u_ID (?user\<lparr>u_ID := i\<rparr>))) (u_UID (?user\<lparr>u_ID := i\<rparr>)))
      (\<lambda>_. Q (reply 200 (JSON (user_json sv (?user\<lparr>u_ID := i\<rparr>))), m)) s1"
    by (rule wp_keeps [OF audit_keeps [OF reliable.is_backend [OF assms(1)]]], rule ok, rule created)
qed


lemma wp_managedUserByID:
  assumes "reliable (sv_W sv) view"
    and "\<And>err s'. view s' = view s \<Longrightarrow> Q (Inl err) s'"
    and "\<And>u s'. view s' = view s \<Longrightarrow> u \<in> set (st_users (view s)) \<Longrightarrow> \<not> is_admin u \<Longrightarrow> Q (Inr u) s'"
  shows "wp (managedUserByID sv i) Q s"
  unfolding managedUserByID_def wp_bind wp_return
  by (rule reliable.wp_First_users [OF assms(1)])
    (auto simp: first_answer_def is_admin_def dest: find_SomeD intro: assms split: option.split)

lemma admins_spared:
  assumes "distinct (map u_ID rows)" and "u \<in> set rows" and "\<not> is_admin u"
  shows "filter is_admin (filter (\<lambda>u'. u_ID u' \<noteq> u_ID u) rows) = filter is_admin rows"
  unfolding filter_filter
  by (rule filter_cong [OF refl]) (use assms in \<open>auto simp: distinct_map inj_on_def\<close>)


section \<open>On the in-memory backend\<close>

text \<open>A server whose bodies are read as one field: the password of a login, the name of a new user.\<close>

definition mem_admin :: "mem admin_server" where
  "mem_admin = \<lparr>sv_W = mem_world, sv_C = mem_crypto, sv_subscription = mem_sub, sv_healthcheck = Some mem_health,
     sv_has_quota = True, sv_sessionTTL = 86400, sv_cfg = Default,
     sv_B = \<lparr>bind_invalid = ''invalid body'', bind_login = (\<lambda>b. Inr (''root'', b)),
       bind_create_user = (\<lambda>b. Inr \<lparr>cu_UID = b, cu_Password = ''secret'', cu_Enabled = None, cu_QuotaBytes = 0,
         cu_MaxConcurrency = 2, cu_ExpiredAt = None, cu_Remark = []\<rparr>),
       bind_create_subscription = (\<lambda>b. Inr \<lparr>cs_Name = b, cs_Type = [], cs_URL = b, cs_Enabled = None,
         cs_SyncIntervalSeconds = 3600, cs_Remark = []\<rparr>),
       bind_map = (\<lambda>b. Inr [(''remark'', AStr b)]), bind_import = (\<lambda>b. Inr (b, None)),
       bind_disabled = (\<lambda>b. b \<noteq> [])\<rparr>,
     sv_SQL = \<lparr>sq_users = (\<lambda>_ _. False), sq_nodes = (\<lambda>_ _. False), sq_id = (\<lambda>i n. i = show_nat n),
       sq_assign_user = (\<lambda>_ u. u), sq_assign_sub = (\<lambda>_ b. b)\<rparr>,
     sv_Ping = State_Monad.return None, sv_time = (\<lambda>_. ''2024-01-01T00:00:00Z''), sv_zone = 0\<rparr>"

definition mem_post :: "string list \<Rightarrow> string \<Rightarrow> admin_request" where
  "mem_post path body = \<lparr>aq_Method = ''POST'', aq_Path = path, aq_Cookie = None, aq_Body = body, aq_Query = (\<lambda>_. [])\<rparr>"

definition mem_users_state :: mem where
  "mem_users_state = mem0\<lparr>mem_users := [
     zero_user\<lparr>u_ID := 1, u_UID := AdminUIDPrefix @ ''root'', u_PasswordHash := ''$2a$pw''\<rparr>,
     zero_user\<lparr>u_ID := 2, u_UID := ''alice'', u_PasswordHash := ''$2a$pw''\<rparr>]\<rparr>"

lemma mem_admin_env: "reliable (sv_W mem_admin) mem_view" "crypto_law (sv_C mem_admin) mem_view"
  using mem.reliable_axioms mem_crypto.crypto_law_axioms by (simp_all add: mem_admin_def)

lemma mem_users_rows: "st_users (mem_view mem_users_state) = [
     zero_user\<lparr>u_ID := 1, u_UID := AdminUIDPrefix @ ''root'', u_PasswordHash := ''$2a$pw''\<rparr>,
     zero_user\<lparr>u_ID := 2, u_UID := ''alice'', u_PasswordHash := ''$2a$pw''\<rparr>]"
  by (simp add: mem_users_state_def mem_view_def)

theorem Handler_requires_session_witness:
  "wp (Handler_admin mem_admin (mem_post [''api'', ''users''] ''bob'') None) (\<lambda>(rep, m') s'.
     rep \<in> {reply 204 NoBody, reply 401 NoBody, not_found} \<and> mem_view s' = mem_view mem0 \<and> m' = None) mem0"
  by (rule Handler_requires_session [OF mem_admin_env(1), where path = "[''users'']"])
    (simp_all add: mem_post_def no_session_def)

theorem login_correct_witness:
  "wp (login mem_admin (mem_post [''api'', ''admin'', ''login''] ''pw'') None)
     (\<lambda>(rep, m') s'. ar_Status rep = 200 \<and> (\<exists>token. ar_Cookie rep = Some (token, 86400))) mem_users_state"
  by (rule wp_mono [OF login_correct [OF mem_admin_env]])
    (auto simp: mem_admin_def mem_post_def mem_users_rows mem_crypto_def CheckPassword_def sessionCookieMaxAge_def Default_def)


lemma root_stays:
  assumes "filter is_admin rows = filter is_admin (st_users (mem_view mem_users_state))"
  shows "\<exists>u\<in>set rows. u_UID u = AdminUIDPrefix @ ''root''"
proof -
  let ?root = "zero_user\<lparr>u_ID := 1, u_UID := AdminUIDPrefix @ ''root'', u_PasswordHash := ''$2a$pw''\<rparr>"
  have "?root \<in> set (filter is_admin rows)"
    unfolding assms by (simp add: mem_users_rows is_admin_def HasPrefix_def)
  then show ?thesis by (intro bexI [of _ ?root]) simp_all
qed


text \<open>
  The prefix is tested before the name is trimmed: a blank in front of it lets an administrator be
  created through the interface for users.
\<close>

theorem createUser_admits_admin:
  "create_user_error sv \<lparr>cu_UID = '' '' @ AdminUIDPrefix @ ''eve'', cu_Password = ''secret'', cu_Enabled = None,
     cu_QuotaBytes = 0, cu_MaxConcurrency = 0, cu_ExpiredAt = None, cu_Remark = []\<rparr> = None \<and>
   TrimSpace ('' '' @ AdminUIDPrefix @ ''eve'') = AdminUIDPrefix @ ''eve''"
proof -
  have "TrimSpace ('' '' @ AdminUIDPrefix @ ''eve'') = AdminUIDPrefix @ ''eve''" by code_simp
  moreover have "\<not> HasPrefix ('' '' @ AdminUIDPrefix @ ''eve'') AdminUIDPrefix" by code_simp
  moreover have "rune_count ''secret'' = 6" by code_simp
  moreover have "AdminUIDPrefix @ ''eve'' \<noteq> []" by simp
  ultimately show ?thesis unfolding create_user_error_def by simp
qed

end
