(* ===== verification/Database.thy ===== *)
theory Database
  imports World
begin

text \<open>
  \<^verbatim>\<open>internal/db/db.go\<close>: the database file is opened and brought up to date.  SQLite and GORM are the
  argument \<open>sqlite\<close>; the raw statements are data, and what SQLite documents of them is stated over the
  raw tables, whose rows may lack a value (NULL) or a column.  The counters which the rest of the library
  reads as integers are there afterwards, and no two nodes have one address.
\<close>

section \<open>Opening\<close>

text \<open>\<^verbatim>\<open>filepath.Dir\<close> on Unix: the path up to its last slash, cleaned.\<close>

fun clean_step :: "bool \<Rightarrow> string list \<Rightarrow> string \<Rightarrow> string list" where
  "clean_step rooted done e =
     (if e = [] \<or> e = ''.'' then done
      else if e = ''..'' then
        (case done of
           [] \<Rightarrow> if rooted then [] else [e]
         | d # ds \<Rightarrow> if d = ''..'' then e # done else ds)
      else e # done)"

definition Clean :: "string \<Rightarrow> string" where
  "Clean path =
     (let rooted = HasPrefix path ''/'';
          es = rev (fold (\<lambda>e done. clean_step rooted done e) (Split path ''/'') [])
      in if rooted then ''/'' @ Join es ''/'' else if es = [] then ''.'' else Join es ''/'')"

definition Dir :: "string \<Rightarrow> string" where
  "Dir path = Clean (rev (dropWhile (\<lambda>c. c \<noteq> CHR ''/'') (rev path)))"

datatype raw_sql =
    CREATE_UNIQUE_INDEX string string "string list"
  | UPDATE_WHERE_NULL string string int

record 's sqlite =
  sq_MkdirAll :: "string \<Rightarrow> ('s, error option) state"
  sq_Open :: "string \<Rightarrow> ('s, error option) state"
  sq_AutoMigrate :: "string list \<Rightarrow> ('s, error option) state"
  sq_Exec :: "raw_sql \<Rightarrow> ('s, error option) state"

text \<open>Calls one after the other, up to the first error.\<close>

primrec first_error :: "('s, error option) state list \<Rightarrow> ('s, error option) state" where
  "first_error [] = State_Monad.return None"
| "first_error (op # ops) = do {
     err \<leftarrow> op;
     case err of Some e \<Rightarrow> State_Monad.return (Some e) | None \<Rightarrow> first_error ops
   }"

definition models :: "string list" where
  "models = [''users'', ''subscriptions'', ''proxy_nodes'', ''subscription_nodes'', ''audit_logs'']"

definition ensureDir :: "'s sqlite \<Rightarrow> string \<Rightarrow> ('s, error option) state" where
  "ensureDir q path = sq_MkdirAll q path"

definition Open_statements :: "raw_sql list" where
  "Open_statements =
     [CREATE_UNIQUE_INDEX ''idx_node_addr_v2'' ''proxy_nodes'' [''protocol'', ''host'', ''port''],
      UPDATE_WHERE_NULL ''users'' ''total_requests'' 0,
      UPDATE_WHERE_NULL ''proxy_nodes'' ''upload_bytes'' 0,
      UPDATE_WHERE_NULL ''proxy_nodes'' ''download_bytes'' 0,
      UPDATE_WHERE_NULL ''proxy_nodes'' ''total_requests'' 0]"

definition Open :: "'s sqlite \<Rightarrow> string \<Rightarrow> ('s, error option) state" where
  "Open q path = first_error
     ([ensureDir q (Dir path), sq_Open q path, sq_AutoMigrate q models] @ map (sq_Exec q) Open_statements)"

lemma keeps_first_error: "(\<And>op. op \<in> set ops \<Longrightarrow> keeps obs op) \<Longrightarrow> keeps obs (first_error ops)"
  by (induction ops) (auto intro!: keeps_bind split: option.split)

lemma wp_first_error:
  assumes "wp op (\<lambda>err s'. err = None \<longrightarrow> wp (first_error ops) Q s') s" and "\<And>e s'. Q (Some e) s'"
  shows "wp (first_error (op # ops)) Q s"
  unfolding first_error.simps wp_bind
  by (rule wp_mono [OF assms(1)]) (use assms(2) in \<open>simp split: option.split\<close>)

lemma keeps_Open:
  assumes "\<And>path. keeps obs (sq_MkdirAll q path)" and "\<And>path. keeps obs (sq_Open q path)"
    and "\<And>ts. keeps obs (sq_AutoMigrate q ts)" and "\<And>stmt. keeps obs (sq_Exec q stmt)"
  shows "keeps obs (Open q path)"
  unfolding Open_def ensureDir_def by (rule keeps_first_error) (use assms in auto)

section \<open>What SQLite documents\<close>

text \<open>A value that is not NULL, a row as the columns that have one, the tables by name.\<close>

datatype raw_value = Integer int | Text string

type_synonym raw_row = "string \<Rightarrow> raw_value option"
type_synonym raw_db = "string \<Rightarrow> raw_row list"

definition keeps_values :: "raw_row list \<Rightarrow> raw_row list \<Rightarrow> bool" where
  "keeps_values rows rows' \<longleftrightarrow> list_all2 (\<lambda>r r'. \<forall>c v. r c = Some v \<longrightarrow> r' c = Some v) rows rows'"

definition unique_on :: "string list \<Rightarrow> raw_row list \<Rightarrow> bool" where
  "unique_on cs rows \<longleftrightarrow> distinct (map (\<lambda>r. map r cs) (filter (\<lambda>r. \<forall>c\<in>set cs. r c \<noteq> None) rows))"

definition fill :: "string \<Rightarrow> int \<Rightarrow> raw_row \<Rightarrow> raw_row" where
  "fill c i r = (if r c = None then r(c \<mapsto> Integer i) else r)"

text \<open>A statement that fails changes nothing; an index is refused where it would not be unique.\<close>

fun raw_post :: "raw_db \<Rightarrow> raw_sql \<Rightarrow> raw_db \<Rightarrow> error option \<Rightarrow> bool" where
  "raw_post db (CREATE_UNIQUE_INDEX i t cs) db' err \<longleftrightarrow> db' = db \<and> (err = None \<longrightarrow> unique_on cs (db t))"
| "raw_post db (UPDATE_WHERE_NULL t c i) db' err \<longleftrightarrow>
     (if err = None then db' = db(t := map (fill c i) (db t)) else db' = db)"

locale migrates =
  fixes q :: "'s sqlite" and raw :: "'s \<Rightarrow> raw_db"
  assumes mkdir: "keeps raw (sq_MkdirAll q path)"
    and opened: "keeps raw (sq_Open q path)"
    and migrated: "wp (sq_AutoMigrate q ts) (\<lambda>_ s'. \<forall>t. keeps_values (raw s t) (raw s' t)) s"
    and executed: "wp (sq_Exec q stmt) (\<lambda>err s'. raw_post (raw s) stmt (raw s') err) s"

section \<open>Properties\<close>

lemma keeps_values_refl: "keeps_values rows rows"
  by (simp add: keeps_values_def list.rel_refl)

lemma keeps_values_trans: "keeps_values a b \<Longrightarrow> keeps_values b c \<Longrightarrow> keeps_values a c"
  by (auto simp: keeps_values_def list_all2_conv_all_nth)

lemma keeps_values_fill: "keeps_values rows (map (fill c i) rows)"
  by (simp add: keeps_values_def fill_def list_all2_conv_all_nth)

lemma unique_on_fill: "c \<notin> set cs \<Longrightarrow> unique_on cs rows \<Longrightarrow> unique_on cs (map (fill c i) rows)"
proof -
  assume c: "c \<notin> set cs"
  have same: "d \<in> set cs \<Longrightarrow> fill c i r d = r d" for d r using c by (auto simp: fill_def)
  then have "map (fill c i r) cs = map r cs" for r by simp
  moreover have "filter (\<lambda>r. \<forall>c\<in>set cs. r c \<noteq> None) (map (fill c i) rows)
      = map (fill c i) (filter (\<lambda>r. \<forall>c\<in>set cs. r c \<noteq> None) rows)"
    by (simp add: filter_map o_def same cong: ball_cong)
  moreover assume "unique_on cs rows"
  ultimately show ?thesis unfolding unique_on_def by (simp only: map_map o_def)
qed

definition has_column :: "string \<Rightarrow> raw_row list \<Rightarrow> bool" where
  "has_column c rows \<longleftrightarrow> (\<forall>r\<in>set rows. r c \<noteq> None)"

lemma has_column_fill: "has_column c (map (fill c i) rows)" "has_column d rows \<Longrightarrow> has_column d (map (fill c i) rows)"
  by (auto simp: has_column_def fill_def)

text \<open>The statements, each without an error, one after the other.\<close>

primrec statements_run :: "raw_db \<Rightarrow> raw_sql list \<Rightarrow> raw_db \<Rightarrow> bool" where
  "statements_run db [] db' \<longleftrightarrow> db' = db"
| "statements_run db (stmt # stmts) db' \<longleftrightarrow> (\<exists>mid. raw_post db stmt mid None \<and> statements_run mid stmts db')"

lemma Open_statements_run:
  assumes "statements_run db Open_statements db'"
  shows "keeps_values (db t) (db' t)" and "unique_on [''protocol'', ''host'', ''port''] (db' ''proxy_nodes'')"
    and "has_column ''total_requests'' (db' ''users'')"
    and "\<forall>c\<in>{''upload_bytes'', ''download_bytes'', ''total_requests''}. has_column c (db' ''proxy_nodes'')"
proof -
  let ?nodes = "map (fill ''total_requests'' 0) (map (fill ''download_bytes'' 0) (map (fill ''upload_bytes'' 0) (db ''proxy_nodes'')))"
  have "unique_on [''protocol'', ''host'', ''port''] (db ''proxy_nodes'')"
    and db': "db' = db(''users'' := map (fill ''total_requests'' 0) (db ''users''), ''proxy_nodes'' := ?nodes)"
    using assms by (auto simp: Open_statements_def fun_upd_twist simp del: map_map)
  then show "unique_on [''protocol'', ''host'', ''port''] (db' ''proxy_nodes'')"
    by (simp add: unique_on_fill del: map_map)
  show "has_column ''total_requests'' (db' ''users'')" by (simp add: db' has_column_fill del: map_map)
  show "\<forall>c\<in>{''upload_bytes'', ''download_bytes'', ''total_requests''}. has_column c (db' ''proxy_nodes'')"
    by (simp add: db' has_column_fill del: map_map)
  show "keeps_values (db t) (db' t)"
    by (simp add: db' keeps_values_refl keeps_values_fill keeps_values_trans [OF keeps_values_trans
          [OF keeps_values_fill keeps_values_fill] keeps_values_fill] del: map_map)
qed

context migrates
begin

lemma wp_statements:
  "wp (first_error (map (sq_Exec q) stmts)) (\<lambda>err s'. err = None \<longrightarrow> statements_run (raw s) stmts (raw s')) s"
proof (induction stmts arbitrary: s)
  case (Cons stmt stmts)
  show ?case
    unfolding list.map
    by (rule wp_first_error, rule wp_mono [OF executed]) (auto intro: wp_mono [OF Cons.IH])
qed simp

lemma wp_Open:
  "wp (Open q path) (\<lambda>err s'. err = None \<longrightarrow> (\<exists>db.
     (\<forall>t. keeps_values (raw s t) (db t)) \<and> statements_run db Open_statements (raw s'))) s"
  unfolding Open_def append.simps ensureDir_def
  apply (rule wp_first_error, rule wp_keeps [OF mkdir], rule impI)
   apply (rule wp_first_error, rule wp_keeps [OF opened], rule impI)
    apply (rule wp_first_error, rule wp_mono [OF migrated], rule impI)
     apply (rule wp_mono [OF wp_statements], use in auto)
  done

end

text \<open>
  C34: When Open succeeds no counter of a user or node is missing, no two nodes have one protocol, host
  and port, and no value that was in the tables has changed.
\<close>

theorem Open_prepares:
  assumes "migrates q raw"
  shows "wp (Open q path) (\<lambda>err s'. err = None \<longrightarrow>
     (\<forall>t. keeps_values (raw s t) (raw s' t)) \<and>
     unique_on [''protocol'', ''host'', ''port''] (raw s' ''proxy_nodes'') \<and>
     has_column ''total_requests'' (raw s' ''users'') \<and>
     (\<forall>c\<in>{''upload_bytes'', ''download_bytes'', ''total_requests''}. has_column c (raw s' ''proxy_nodes''))) s"
  by (rule wp_mono [OF migrates.wp_Open [OF assms]])
    (use Open_statements_run keeps_values_trans in blast)

text \<open>A database in memory: its state is its tables.\<close>

fun mem_Exec :: "raw_sql \<Rightarrow> raw_db \<Rightarrow> error option \<times> raw_db" where
  "mem_Exec (CREATE_UNIQUE_INDEX i t cs) db =
     (if unique_on cs (db t) then None else Some (ExtErr ''UNIQUE constraint failed''), db)"
| "mem_Exec (UPDATE_WHERE_NULL t c i) db = (None, db(t := map (fill c i) (db t)))"

definition mem_sqlite :: "raw_db sqlite" where
  "mem_sqlite = \<lparr>sq_MkdirAll = (\<lambda>_. State_Monad.return None), sq_Open = (\<lambda>_. State_Monad.return None),
     sq_AutoMigrate = (\<lambda>_. State_Monad.return None), sq_Exec = (\<lambda>stmt. State (mem_Exec stmt))\<rparr>"

interpretation mem_sqlite: migrates mem_sqlite "\<lambda>db. db"
proof unfold_locales
  show "wp (sq_Exec mem_sqlite stmt) (\<lambda>err s'. raw_post s stmt s' err) s" for stmt s
    by (cases stmt) (simp_all add: mem_sqlite_def wp_def)
qed (simp_all add: mem_sqlite_def keeps_values_refl)

definition old_user :: raw_db where
  "old_user = (\<lambda>t. if t = ''users'' then [[''uid'' \<mapsto> Text ''alice'', ''used_bytes'' \<mapsto> Integer 5]] else [])"

theorem Open_prepares_witness:
  "wp (Open mem_sqlite ''/data/proxydeck.db'') (\<lambda>err db. err = None \<longrightarrow>
     has_column ''total_requests'' (db ''users'') \<and> has_column ''used_bytes'' (db ''users'')) old_user"
proof (rule wp_mono [OF Open_prepares [OF mem_sqlite.migrates_axioms]])
  fix err :: "error option" and db
  assume "err = None \<longrightarrow> (\<forall>t. keeps_values (old_user t) (db t)) \<and>
     unique_on [''protocol'', ''host'', ''port''] (db ''proxy_nodes'') \<and> has_column ''total_requests'' (db ''users'') \<and>
     (\<forall>c\<in>{''upload_bytes'', ''download_bytes'', ''total_requests''}. has_column c (db ''proxy_nodes''))"
  moreover have "has_column ''used_bytes'' rows" if "keeps_values (old_user ''users'') rows" for rows
    using that by (auto simp: keeps_values_def old_user_def has_column_def list_all2_Cons1)
  ultimately show "err = None \<longrightarrow> has_column ''total_requests'' (db ''users'') \<and> has_column ''used_bytes'' (db ''users'')"
    by blast
qed

end
