(* ===== verification/Program.thy ===== *)
theory Program
  imports AdminProps Gateway Config Database
begin

text \<open>
  The program (\<^verbatim>\<open>cmd/gateway/main.go\<close>): how the services are put together from the configuration,
  what has to succeed before anything is served, and the background loops of the packages
  \<^verbatim>\<open>healthcheck\<close>, \<^verbatim>\<open>stats\<close> and \<^verbatim>\<open>subscription\<close>.  The listeners, signals and the shutdown are left out.
\<close>

section \<open>The background loops\<close>

text \<open>What the \<^verbatim>\<open>select\<close> of a loop sees: a tick, or the end of the context.\<close>

datatype loop_event = Ticked | Cancelled

text \<open>
  A loop along the events it sees; the flag says whether it has returned.  The step of a tick threads
  the metrics.
\<close>

fun ticker_loop ::
  "(Registry option \<Rightarrow> ('s, Registry option) state) \<Rightarrow> loop_event list \<Rightarrow> Registry option \<Rightarrow> ('s, bool \<times> Registry option) state" where
  "ticker_loop step [] m = State_Monad.return (False, m)"
| "ticker_loop step (Cancelled # es) m = State_Monad.return (True, m)"
| "ticker_loop step (Ticked # es) m = do { m \<leftarrow> step m; ticker_loop step es m }"

definition Start_healthcheck ::
  "'s health_service \<Rightarrow> loop_event list \<Rightarrow> Registry option \<Rightarrow> ('s, bool \<times> Registry option) state" where
  "Start_healthcheck h = ticker_loop (\<lambda>m. do { (_, m) \<leftarrow> CheckAll h m; State_Monad.return m })"

definition StartFlushLoop :: "'s world \<Rightarrow> loop_event list \<Rightarrow> Registry option \<Rightarrow> ('s, bool \<times> Registry option) state" where
  "StartFlushLoop W = ticker_loop (\<lambda>m. do { _ \<leftarrow> FlushUsage W; State_Monad.return m })"

definition Start_subscription ::
  "'s sub_service \<Rightarrow> loop_event list \<Rightarrow> Registry option \<Rightarrow> ('s, bool \<times> Registry option) state" where
  "Start_subscription g = ticker_loop (\<lambda>m. do {
     now \<leftarrow> time_Now (ss_W g);
     (_, m) \<leftarrow> syncDueSubscriptions g now m;
     State_Monad.return m
   })"

text \<open>The interval of the subscription loop is a minute where none is given.\<close>

definition subscription_interval :: "duration \<Rightarrow> duration" where
  "subscription_interval interval = (if interval \<le> 0 then 60 * 1000000000 else interval)"

lemma keeps_ticker_loop: "(\<And>m. keeps obs (step m)) \<Longrightarrow> keeps obs (ticker_loop step es m)"
  by (induction step es m rule: ticker_loop.induct) (auto intro!: keeps_return keeps_bind)

text \<open>A loop returns when its context ends, and what it would see afterwards has no effect.\<close>

lemma ticker_loop_cancelled:
  "wp (ticker_loop step (es @ Cancelled # rest) m) (\<lambda>(returned, m') s'.
     returned \<and> run_state (ticker_loop step (es @ [Cancelled]) m) s = ((returned, m'), s')) s"
proof (induction es arbitrary: m s)
  case (Cons e es)
  show ?case
  proof (cases e)
    case Ticked
    obtain m1 s1 where "run_state (step m) s = (m1, s1)" by fastforce
    then show ?thesis using Cons.IH [of m1 s1] Ticked by (simp add: wp_def)
  qed (simp add: wp_def)
qed (simp add: wp_def)

section \<open>Starting\<close>

text \<open>
  What is linked into the program or found in its surroundings: the file system, the environment
  and YAML, the databases behind a path and an address, cryptography, network, HTTP and JSON.
\<close>

record 's libraries =
  lib_ReadFile :: "string \<Rightarrow> error + string"
  lib_yaml :: "string \<Rightarrow> Config \<Rightarrow> error + Config"
  lib_getenv :: "string \<Rightarrow> string"
  lib_Logger :: "('s, error option) state"
  lib_SQ :: "'s sqlite"
  lib_W :: "string \<Rightarrow> string \<Rightarrow> string \<Rightarrow> int \<Rightarrow> 's world"
  lib_PingRedis :: "string \<Rightarrow> string \<Rightarrow> int \<Rightarrow> ('s, error option) state"
  lib_PingDB :: "('s, error option) state"
  lib_C :: "'s crypto"
  lib_N :: "'s network"
  lib_HN :: "'s http_net"
  lib_J :: node_json
  lib_H :: "string \<Rightarrow> string"
  lib_F :: formats
  lib_PJ :: probe_json
  lib_Get :: "duration \<Rightarrow> string \<Rightarrow> ('s, error + http_result) state"
  lib_Do :: "duration \<Rightarrow> 's transport \<Rightarrow> probe_request \<Rightarrow> ('s, error + http_result) state"
  lib_url_Parse :: "string \<Rightarrow> error + url"
  lib_ctx :: "'s go_context"
  lib_B :: bindings
  lib_SQL :: sql_text
  lib_time :: "time \<Rightarrow> string"
  lib_zone :: int

record 's program =
  prog_admin :: "'s admin_server"
  prog_gateway :: "'s gateway"
  prog_metrics :: Registry
  prog_healthcheckInterval :: duration
  prog_subscriptionInterval :: duration
  prog_adminListen :: string
  prog_proxyListen :: string

text \<open>The services of \<^verbatim>\<open>main\<close> and what they are given.\<close>

definition services :: "'s libraries \<Rightarrow> Config \<Rightarrow> aead \<Rightarrow> 's program" where
  "services L cfg cipher =
     (let W = lib_W L (cfg_SQLitePath cfg) (cfg_RedisAddr cfg) (cfg_RedisPassword cfg) (cfg_RedisDB cfg);
          retryCfg = \<lparr>MaxAttempts = cfg_RetryMaxAttempts cfg, BaseBackoff = RetryBaseBackoff cfg\<rparr>;
          subscriptionSvc = \<lparr>ss_W = W, ss_C = lib_C L, ss_J = lib_J L, ss_F = lib_F L, ss_cipher = cipher,
            ss_retry = retryCfg, ss_ctx = lib_ctx L, ss_Get = lib_Get L (seconds 20)\<rparr>;
          healthSvc = \<lparr>hs_W = W, hs_C = lib_C L, hs_N = lib_N L, hs_J = lib_J L, hs_cipher = cipher,
            hs_timeout = HealthcheckTimeout cfg, hs_maxFailCount = cfg_MaxFailCount cfg, hs_retry = retryCfg,
            hs_ctx = lib_ctx L, hs_Do = lib_Do L (HealthcheckTimeout cfg), hs_url_Parse = lib_url_Parse L,
            hs_PJ = lib_PJ L, hs_probeSourcesOverride = [], hs_enrichSourcesOverride = []\<rparr>;
          adminServer = \<lparr>sv_W = W, sv_C = lib_C L, sv_subscription = subscriptionSvc, sv_healthcheck = Some healthSvc,
            sv_has_quota = True, sv_sessionTTL = SessionTTL cfg, sv_cfg = cfg, sv_B = lib_B L, sv_SQL = lib_SQL L,
            sv_Ping = lib_PingDB L, sv_time = lib_time L, sv_zone = lib_zone L\<rparr>;
          gateway = \<lparr>gw_W = W, gw_C = lib_C L, gw_N = lib_N L, gw_HN = lib_HN L, gw_J = lib_J L, gw_H = lib_H L,
            gw_stickyTTL = StickyTTL cfg, gw_cipher = cipher, gw_dialTO = ProxyDialTimeout cfg,
            gw_idleTO = ProxyIdleTimeout cfg, gw_respHdrTO = ProxyResponseHeaderTimeout cfg,
            gw_connectTO = ProxyConnectTimeout cfg\<rparr>
      in \<lparr>prog_admin = adminServer, prog_gateway = gateway, prog_metrics = New_registry,
          prog_healthcheckInterval = HealthcheckInterval cfg,
          prog_subscriptionInterval = subscription_interval (seconds 60),
          prog_adminListen = cfg_AdminListen cfg, prog_proxyListen = cfg_ProxyListen cfg\<rparr>)"

text \<open>An operation whose error makes \<^verbatim>\<open>main\<close> panic.\<close>

definition or_panic :: "('s, error option) state \<Rightarrow> ('s, error + 'a) state \<Rightarrow> ('s, error + 'a) state" where
  "or_panic op rest = do { err \<leftarrow> op; case err of Some e \<Rightarrow> State_Monad.return (Inl e) | None \<Rightarrow> rest }"

definition start_program :: "'s libraries \<Rightarrow> string \<Rightarrow> ('s, error + 's program) state" where
  "start_program L configPath =
     (case Load (lib_ReadFile L) (lib_yaml L) (lib_getenv L) configPath of
        Inl err \<Rightarrow> State_Monad.return (Inl err)
      | Inr cfg \<Rightarrow>
          or_panic (lib_Logger L)
         (or_panic (Open (lib_SQ L) (cfg_SQLitePath cfg))
         (or_panic (lib_PingRedis L (cfg_RedisAddr cfg) (cfg_RedisPassword cfg) (cfg_RedisDB cfg))
         (or_panic (EnsureDefaultAdmin
              (lib_W L (cfg_SQLitePath cfg) (cfg_RedisAddr cfg) (cfg_RedisPassword cfg) (cfg_RedisDB cfg))
              (lib_C L) (cfg_AdminUsername cfg) (cfg_AdminPassword cfg))
         (case NewCipher (lib_C L) (cfg_EncryptionKey cfg) of
            Inl err \<Rightarrow> State_Monad.return (Inl err)
          | Inr cipher \<Rightarrow> State_Monad.return (Inr (services L cfg cipher)))))))"

section \<open>Running\<close>

text \<open>What \<^verbatim>\<open>main\<close> runs beside itself.\<close>

datatype goroutine =
    Flush_loop
  | Health_loop duration
  | Subscription_loop duration
  | Serve string string

definition goroutines :: "'s program \<Rightarrow> goroutine list" where
  "goroutines prog =
     [Flush_loop, Health_loop (prog_healthcheckInterval prog), Subscription_loop (prog_subscriptionInterval prog),
      Serve ''admin'' (prog_adminListen prog), Serve ''proxy'' (prog_proxyListen prog)]"

abbreviation ErrServerClosed :: error where
  "ErrServerClosed \<equiv> ExtErr ''http: Server closed''"

text \<open>A server that has stopped: whether \<^verbatim>\<open>log.Fatal\<close> ends the process.\<close>

definition serve :: "('s, error option) state \<Rightarrow> ('s, bool) state" where
  "serve listenAndServe = do {
     err \<leftarrow> listenAndServe;
     State_Monad.return (err \<noteq> None \<and> err \<noteq> Some ErrServerClosed)
   }"

text \<open>
  The surroundings of the run: the scheduler runs the goroutines until the context ends, a server is
  shut down within a time.
\<close>

record 's surroundings =
  run_goroutines :: "goroutine list \<Rightarrow> ('s, unit) state"
  Shutdown_within :: "duration \<Rightarrow> string \<Rightarrow> ('s, error option) state"

datatype exit_status = Panicked error | Exited

definition main_program :: "'s libraries \<Rightarrow> 's surroundings \<Rightarrow> string option \<Rightarrow> ('s, exit_status) state" where
  "main_program L R config_flag = do {
     let configPath = (case config_flag of None \<Rightarrow> ''./backend/configs/config.yaml'' | Some path \<Rightarrow> path);
     started \<leftarrow> start_program L configPath;
     case started of
       Inl err \<Rightarrow> State_Monad.return (Panicked err)
     | Inr prog \<Rightarrow> do {
         _ \<leftarrow> run_goroutines R (goroutines prog);
         _ \<leftarrow> Shutdown_within R (seconds 10) ''admin'';
         _ \<leftarrow> Shutdown_within R (seconds 10) ''proxy'';
         State_Monad.return Exited
       }
   }"

section \<open>Properties\<close>

lemma wp_or_panic:
  assumes "wp op (\<lambda>err s'. case err of None \<Rightarrow> wp rest Q s' | Some e \<Rightarrow> Q (Inl e) s') s"
  shows "wp (or_panic op rest) Q s"
  unfolding or_panic_def wp_bind by (rule wp_mono [OF assms]) (simp split: option.splits)

lemma wp_or_panic_keeps:
  assumes "keeps obs op" and "\<And>e s'. Q (Inl e) s'" and "\<And>s'. obs s' = obs s \<Longrightarrow> wp rest Q s'"
  shows "wp (or_panic op rest) Q s"
  by (rule wp_or_panic, rule wp_keeps [OF assms(1)]) (use assms(2,3) in \<open>simp split: option.split\<close>)

text \<open>What the surroundings promise when the tables hold no administrator yet.\<close>

definition sqlite_keeps :: "('s \<Rightarrow> store) \<Rightarrow> 's sqlite \<Rightarrow> bool" where
  "sqlite_keeps view q \<longleftrightarrow> (\<forall>path. keeps view (sq_MkdirAll q path) \<and> keeps view (sq_Open q path)) \<and>
     (\<forall>ts. keeps view (sq_AutoMigrate q ts)) \<and> (\<forall>stmt. keeps view (sq_Exec q stmt))"

definition promises :: "'s libraries \<Rightarrow> ('s \<Rightarrow> store) \<Rightarrow> bool" where
  "promises L view \<longleftrightarrow> (\<forall>path addr pw n. reliable (lib_W L path addr pw n) view) \<and> crypto_law (lib_C L) view \<and>
     keeps view (lib_Logger L) \<and> sqlite_keeps view (lib_SQ L) \<and>
     (\<forall>addr pw n. keeps view (lib_PingRedis L addr pw n))"

lemma wp_start_program:
  assumes "promises L view"
    and cfg: "Load (lib_ReadFile L) (lib_yaml L) (lib_getenv L) configPath = Inr cfg"
    and new: "\<forall>u\<in>set (st_users (view s)). u_UID u \<noteq> AdminUIDPrefix @ cfg_AdminUsername cfg"
    and err: "\<And>e s'. Q (Inl e) s'"
    and ok: "\<And>cipher u s'. u_UID u = AdminUIDPrefix @ cfg_AdminUsername cfg \<Longrightarrow>
      CheckPassword (lib_C L) (u_PasswordHash u) (cfg_AdminPassword cfg) = None \<Longrightarrow>
      st_users (view s') = st_users (view s) @ [u] \<Longrightarrow> Q (Inr (services L cfg cipher)) s'"
  shows "wp (start_program L configPath) Q s"
proof -
  have env: "keeps view (lib_Logger L)" "\<And>path. keeps view (Open (lib_SQ L) path)"
    "\<And>addr pw n. keeps view (lib_PingRedis L addr pw n)" "crypto_law (lib_C L) view"
    "\<And>path addr pw n. reliable (lib_W L path addr pw n) view"
    using assms(1) by (simp_all add: promises_def sqlite_keeps_def keeps_Open)
  show ?thesis
    unfolding start_program_def cfg sum.case
    by (rule wp_or_panic_keeps [OF env(1)] wp_or_panic_keeps [OF env(2)] wp_or_panic_keeps [OF env(3)] err
          wp_or_panic wp_EnsureDefaultAdmin_new [OF env(5,4)])+
      (use new err ok in \<open>auto split: sum.split\<close>)
qed

definition first_login :: "'s libraries \<Rightarrow> string \<Rightarrow> admin_request \<Rightarrow> ('s, error + admin_reply \<times> Registry option) state" where
  "first_login L configPath r = do {
     started \<leftarrow> start_program L configPath;
     case started of
       Inl err \<Rightarrow> State_Monad.return (Inl err)
     | Inr prog \<Rightarrow> do {
         out \<leftarrow> login (prog_admin prog) r (Some (prog_metrics prog));
         State_Monad.return (Inr out)
       }
   }"

lemma find_append_new:
  "\<forall>u\<in>set rows. \<not> P u \<Longrightarrow> P u \<Longrightarrow> find P (rows @ [u]) = Some u"
  by (induction rows) auto

text \<open>
  C33: On tables without administrators the program starts only from a configuration that Load accepts,
  and once it has started, the administrator named there logs in with the password given there: the
  answer is 200, sets a cookie whose token names a session of that administrator, and the login is
  the first one counted.
\<close>

theorem first_login_succeeds:
  assumes "promises L view" and "\<forall>u\<in>set (st_users (view s)). \<not> is_admin u"
    and "\<And>cfg. Load (lib_ReadFile L) (lib_yaml L) (lib_getenv L) configPath = Inr cfg \<Longrightarrow>
      bind_login (lib_B L) (aq_Body r) = Inr (cfg_AdminUsername cfg, cfg_AdminPassword cfg)"
  shows "wp (first_login L configPath r) (\<lambda>out s'. case out of
      Inl _ \<Rightarrow> True
    | Inr (rep, m) \<Rightarrow> \<exists>cfg token. Load (lib_ReadFile L) (lib_yaml L) (lib_getenv L) configPath = Inr cfg \<and>
        ar_Status rep = 200 \<and> (\<exists>age. ar_Cookie rep = Some (token, age)) \<and> m = Some (IncAdminLogins New_registry) \<and>
        st_keys (view s') (session_key token) = Some (VStr (cfg_AdminUsername cfg) (SessionTTL cfg))) s"
proof (cases "Load (lib_ReadFile L) (lib_yaml L) (lib_getenv L) configPath")
  case (Inl e)
  then show ?thesis by (simp add: first_login_def start_program_def)
next
  case (Inr cfg)
  have env: "\<And>path addr pw n. reliable (lib_W L path addr pw n) view" "crypto_law (lib_C L) view"
    using assms(1) by (simp_all add: promises_def)
  let ?admin = "\<lambda>u. u_UID u = AdminUIDPrefix @ cfg_AdminUsername cfg"
  have new: "\<forall>u\<in>set (st_users (view s)). \<not> ?admin u"
    using assms(2) by (auto simp: is_admin_def HasPrefix_append)
  let ?Q = "\<lambda>(out :: error + admin_reply \<times> Registry option) s'. case out of
      Inl _ \<Rightarrow> True
    | Inr (rep, m) \<Rightarrow> \<exists>cfg token. Load (lib_ReadFile L) (lib_yaml L) (lib_getenv L) configPath = Inr cfg \<and>
        ar_Status rep = 200 \<and> (\<exists>age. ar_Cookie rep = Some (token, age)) \<and> m = Some (IncAdminLogins New_registry) \<and>
        st_keys (view s') (session_key token) = Some (VStr (cfg_AdminUsername cfg) (SessionTTL cfg))"
  have login: "wp (login (prog_admin (services L cfg cipher)) r (Some New_registry)) (\<lambda>out. ?Q (Inr out)) s1"
    if "?admin u" and "CheckPassword (lib_C L) (u_PasswordHash u) (cfg_AdminPassword cfg) = None"
      and "st_users (view s1) = st_users (view s) @ [u]" for u s1 cipher
    by (rule wp_login_admin [where view = view and username = "cfg_AdminUsername cfg" and password = "cfg_AdminPassword cfg"])
      (use env that assms(3) [OF Inr] new Inr in \<open>simp_all add: services_def Let_def find_append_new reply_def\<close>)
  show ?thesis
    unfolding first_login_def wp_bind
    by (rule wp_start_program [OF assms(1) Inr new]) (use login in \<open>simp_all add: services_def Let_def\<close>)
qed

text \<open>The sample configuration on the in-memory backend, whose tables are up to date.\<close>

definition quiet_sqlite :: "mem sqlite" where
  "quiet_sqlite = \<lparr>sq_MkdirAll = (\<lambda>_. State_Monad.return None), sq_Open = (\<lambda>_. State_Monad.return None),
     sq_AutoMigrate = (\<lambda>_. State_Monad.return None), sq_Exec = (\<lambda>_. State_Monad.return None)\<rparr>"

definition mem_libraries :: "mem libraries" where
  "mem_libraries = \<lparr>lib_ReadFile = (\<lambda>_. Inr []), lib_yaml = (\<lambda>_ cfg. Inr cfg), lib_getenv = sample_env,
     lib_Logger = State_Monad.return None, lib_SQ = quiet_sqlite,
     lib_W = (\<lambda>_ _ _ _. mem_world), lib_PingRedis = (\<lambda>_ _ _. State_Monad.return None),
     lib_PingDB = State_Monad.return None, lib_C = mem_crypto, lib_N = mem_network, lib_HN = mem_http, lib_J = mem_json,
     lib_H = (\<lambda>s. s), lib_F = no_formats, lib_PJ = hs_PJ mem_health, lib_Get = (\<lambda>_. ss_Get mem_sub),
     lib_Do = (\<lambda>_. hs_Do mem_health), lib_url_Parse = hs_url_Parse mem_health, lib_ctx = never_done,
     lib_B = (sv_B mem_admin)\<lparr>bind_login := (\<lambda>b. Inr (''admin'', b))\<rparr>, lib_SQL = sv_SQL mem_admin,
     lib_time = sv_time mem_admin, lib_zone = 0\<rparr>"

lemma mem_promises: "promises mem_libraries mem_view"
  using mem.reliable_axioms mem_crypto.crypto_law_axioms
  by (auto simp: promises_def sqlite_keeps_def mem_libraries_def quiet_sqlite_def intro!: keeps_return)

lemma mem_libraries_load:
  "Load (lib_ReadFile mem_libraries) (lib_yaml mem_libraries) (lib_getenv mem_libraries) ''config.yaml'' = Inr sample_config"
  using sample_config_loads by (simp add: mem_libraries_def)

lemma mem_starts: "\<exists>prog s'. run_state (start_program mem_libraries ''config.yaml'') mem0 = (Inr prog, s')"
  unfolding start_program_def mem_libraries_load
  by (simp add: mem_libraries_def quiet_sqlite_def Open_def Open_statements_def ensureDir_def or_panic_def EnsureDefaultAdmin_def db_Count_def db_Create_def HashPassword_def
      mem_world_def on_rows_def mem0_def mem_crypto_def NewCipher_def sample_config_fields Let_def)

theorem first_login_succeeds_witness:
  "\<exists>rep m s'. run_state (first_login mem_libraries ''config.yaml'' (mem_post [] ''p'')) mem0 = (Inr (rep, m), s') \<and>
     ar_Status rep = 200"
proof -
  obtain prog s1 where "run_state (start_program mem_libraries ''config.yaml'') mem0 = (Inr prog, s1)"
    using mem_starts by blast
  then obtain rep m s' where run: "run_state (first_login mem_libraries ''config.yaml'' (mem_post [] ''p'')) mem0 = (Inr (rep, m), s')"
    by (cases "run_state (login (prog_admin prog) (mem_post [] ''p'') (Some (prog_metrics prog))) s1")
      (auto simp: first_login_def)
  let ?Q = "\<lambda>out s'. case out of
      Inl _ \<Rightarrow> True
    | Inr (rep, m) \<Rightarrow> \<exists>cfg token. Load (lib_ReadFile mem_libraries) (lib_yaml mem_libraries) (lib_getenv mem_libraries)
          ''config.yaml'' = Inr cfg \<and>
        ar_Status rep = 200 \<and> (\<exists>age. ar_Cookie rep = Some (token, age)) \<and> m = Some (IncAdminLogins New_registry) \<and>
        st_keys (mem_view s') (session_key token) = Some (VStr (cfg_AdminUsername cfg) (SessionTTL cfg))"
  have "wp (first_login mem_libraries ''config.yaml'' (mem_post [] ''p'')) ?Q mem0"
    by (rule first_login_succeeds [OF mem_promises])
      (use sample_config_fields sample_config_loads in
        \<open>auto simp: mem_post_def mem0_def mem_view_def mem_libraries_def\<close>)
  from wp_runD [OF this run] have "ar_Status rep = 200" by auto
  with run show ?thesis by blast
qed

end
