(* ===== verification/Spec2Isabelle.thy ===== *)
theory Spec2Isabelle
  imports QuotaRace StatsRace SubSync Accounting Tunnel Program
begin

text \<open>
  ProxyDeck (\<^verbatim>\<open>src/backend\<close>, Go) is a gateway in front of a pool of upstream proxies.  This library
  models its packages and proves what makes them correct.

  \<^bold>\<open>The parts and how they interact.\<close>  A client sends an HTTP request or a CONNECT to the gateway
  (\<^verbatim>\<open>internal/proxy\<close>).  The gateway asks quota (\<^verbatim>\<open>internal/quota\<close>) who the user is and takes a
  connection slot, asks the selector (\<^verbatim>\<open>internal/selector\<close>) for a node that fits the filters in the
  user name, dials it (\<^verbatim>\<open>internal/upstream\<close>), copies bytes, records the traffic
  (\<^verbatim>\<open>internal/stats\<close>) and gives the slot back.  Nodes come from subscriptions and manual lists
  (\<^verbatim>\<open>internal/subscription\<close>); health checks (\<^verbatim>\<open>internal/healthcheck\<close>) take them out of service and put
  them back.  Administrators work through an HTTP interface (\<^verbatim>\<open>internal/adminapi\<close>).  All share the
  tables of SQLite (\<^verbatim>\<open>internal/model\<close>) and Redis (\<^verbatim>\<open>internal/redisstore\<close>), where nodes are cached
  and indexed and where counters, sticky sessions and administrators' sessions live;
  \<^verbatim>\<open>internal/auth\<close> encrypts the upstream credentials, \<^verbatim>\<open>internal/retry\<close> repeats what fails,
  \<^verbatim>\<open>internal/metrics\<close> counts, \<^verbatim>\<open>internal/config\<close> and \<^verbatim>\<open>cmd/gateway\<close> start it all.

  \<^bold>\<open>How effects are modelled.\<close>  A handler is a value of the state monad over an arbitrary state.  What
  is not in the repository is an argument: the clients of Redis and of the tables (record \<open>world\<close>),
  cryptography (\<open>crypto\<close>), sockets and frames of the protocols (\<open>network\<close>), \<^verbatim>\<open>net/http\<close>
  (\<open>http_net\<close>), the decoders (\<open>formats\<close>, \<open>node_json\<close>, \<open>probe_json\<close>, \<open>bindings\<close>), contexts
  (\<open>go_context\<close>).  What the code relies on is stated once, as locales: \<open>reliable\<close> (through a view of
  the state the tables and Redis answer like tables and a Redis; a write may be refused, and what is
  refused has no effect), \<open>backend\<close> (commands may also be lost), \<open>crypto_law\<close>, \<open>node_codec\<close>,
  \<open>network_law\<close>, \<open>migrates\<close>, and the contracts of the clients \<open>slot_service\<close>, \<open>sub_env\<close> and
  \<open>sub_fetch\<close>, \<open>health_env\<close>, \<open>gateway_store\<close>, \<open>gateway_net\<close>.  Each is interpreted on an in-memory instance (\<open>mem_world\<close> and
  the values with the prefix \<open>mem\<close>), on which the witnesses run.  \<open>wp m Q s\<close> says that every result and
  state of \<open>m\<close> from \<open>s\<close> satisfy \<open>Q\<close>; \<open>keeps obs m\<close> that \<open>m\<close> does not change the observation \<open>obs\<close>.
  Errors are values of \<open>error\<close>, early returns branches; the metrics are threaded through as a value.
  Machine integers are \<open>int\<close> with \<open>wrap64\<close> where the code can overflow, bytes of frames are characters
  and \<open>word\<close> where the protocol computes with them.

  \<^bold>\<open>Theories.\<close>
  \<^item> \<open>GoLib\<close>: \<^verbatim>\<open>strings\<close>, \<^verbatim>\<open>strconv\<close> and 64-bit arithmetic; \<open>Base64\<close>: \<^verbatim>\<open>encoding/base64\<close>;
    \<open>Model\<close>: the rows of \<^verbatim>\<open>model/models.go\<close> and the errors; \<open>World\<close>: Redis, tables, \<open>wp\<close>, \<open>keeps\<close>.
  \<^item> \<open>RedisStore\<close> (\<^verbatim>\<open>redisstore/store.go\<close>): keys, cached nodes, indexes; caching and removing a node
    keep the indexes coherent, and what is cached is loaded.
  \<^item> \<open>Auth\<close> (\<^verbatim>\<open>auth/auth.go\<close>): cipher, sessions, first administrator.
  \<^item> \<open>Quota\<close> (\<^verbatim>\<open>quota/service.go\<close>): authentication and slots of one user, operation after operation;
    \<open>QuotaRace\<close>: the same commands interleaved, as a step relation with its reachable states.
  \<^item> \<open>Selector\<close> (\<^verbatim>\<open>selector/service.go\<close>): user names with filters, the choice of a node, and the
    Redis indexes as an optimisation of the query.
  \<^item> \<open>Retry\<close> (\<^verbatim>\<open>retry/retry.go\<close>): how often the operation runs and which error is returned.
  \<^item> \<open>Config\<close> (\<^verbatim>\<open>config/config.go\<close>): defaults, environment, validation.
  \<^item> \<open>Stats\<close> (\<^verbatim>\<open>stats/service.go\<close>): recording and flushing traffic; nothing is lost or charged twice.
    \<open>StatsRace\<close>: the same flush with records of traffic between any two of its commands.
  \<^item> \<open>Metrics\<close> (\<^verbatim>\<open>metrics/metrics.go\<close>).
  \<^item> \<open>Upstream\<close> (\<^verbatim>\<open>upstream/*.go\<close>): the frames of SOCKS, Shadowsocks, Trojan, VLESS and VMess, and
    dialling without leaking connections.
  \<^item> \<open>Gateway\<close> (\<^verbatim>\<open>proxy/gateway.go\<close>): requests and tunnels; slots, connections, counters and the
    client's credentials on every path; \<open>GatewayServes\<close>: who may use the gateway is served;
    \<open>Tunnel\<close>: the two copying goroutines of a tunnel and the peers as a step relation, what is
    delivered and when the tunnel ends; \<open>Accounting\<close> composes the gateway with \<open>Stats\<close>: a request is
    charged for what its reply has carried.
  \<^item> \<open>SubParse\<close>, \<open>SubPersist\<close> (\<^verbatim>\<open>subscription/service.go\<close>): the parsers of the formats, and import,
    pruning, deletion and synchronisation; \<open>SubParseProps\<close> and \<open>SubPersistProps\<close> hold what is proved,
    with the refinement of an import to the update of an address book; \<open>SubSync\<close> composes them into
    what a synchronisation makes of the database.
  \<^item> \<open>Healthcheck\<close> (\<^verbatim>\<open>healthcheck/service.go\<close>): probes, the row a check writes, the threshold.
  \<^item> \<open>AdminApi\<close> (\<^verbatim>\<open>adminapi/server.go\<close>): routes, guard and handlers; \<open>AdminProps\<close>: no session no
    service, logins, creating and deleting users.
  \<^item> \<open>Database\<close> (\<^verbatim>\<open>db/db.go\<close>): opening the tables and what their preparation establishes.
  \<^item> \<open>Program\<close> (\<^verbatim>\<open>cmd/gateway/main.go\<close> and the loops of the services): starting, the first login, and
    what runs until the shutdown.

  \<^bold>\<open>Bounds and fuel.\<close>  No definition runs on fuel.  The loops of the code run over lists and are
  structural; the loop of \<open>Do_retry\<close> counts down the attempts that are left; the background loops run
  along the list of the ticks they see.  The scanners that consume text by more than one character
  (\<open>Fields\<close>, \<open>like\<close> and others) terminate by the length of what is left.

  \<^bold>\<open>Not modelled.\<close>  The inside of listeners, signals and the logger; the columns \<open>CreatedAt\<close> and
  \<open>UpdatedAt\<close>; the inside of the libraries, \<^verbatim>\<open>net/http\<close>, GORM, Redis, SQLite and cryptography.
  Operations are atomic with respect to each other except in \<open>QuotaRace\<close>, \<open>StatsRace\<close> and
  \<open>Tunnel\<close>; the checks
  that an import starts in the background are named in its reply.  Time is an integer of nanoseconds, and
  keys do not expire by themselves.  The frontend is not Go.
\<close>

end
